(* ===== verification/Apcos_Prelude.thy ===== *)
theory Apcos_Prelude
  imports Complex_Main "HOL-Library.Word"
begin

text \<open>
  The vocabulary shared by every component: Python values and exceptions, the string methods the
  code calls, floating point comparison, dictionaries, the readings a call takes from its
  environment, and programs that thread a state and may raise.

  Conventions.
  \<^item> A Python \<open>str\<close> is a HOL \<^typ>\<open>string\<close>: a list of code points below 256. White space,
    \<open>lower\<close> and \<open>upper\<close> follow Python on that range; the two letters whose capitals lie outside
    it (micro sign and y with diaeresis) are left alone by \<open>upper\<close>.
  \<^item> A Python \<open>int\<close> is an \<^typ>\<open>int\<close>; a \<open>float\<close> is a rational or one of the three special
    values. Comparison is IEEE comparison; literals, conversions and arithmetic round to the nearest
    double.
  \<^item> A dict is an association list with string keys; reading is \<^const>\<open>map_of\<close>.
  \<^item> Clocks, random identifiers and the two library parsers the code calls are fields of an
    environment record, one per call: each call site reads its own index.
\<close>

section \<open>Collections of rewrite rules\<close>

named_theorems py_simps \<open>evaluation of Python values, dicts and strings\<close>
named_theorems prog_simps \<open>evaluation of state-and-exception programs\<close>

section \<open>Exceptions\<close>

text \<open>
  The exception classes the code raises or catches. A message is kept where it is a code that the
  callers or the tests look at; \<open>InvalidStateTransitionError\<close> keeps its reason code.
\<close>

datatype exc =
    ValueError string
  | InvalidStateTransitionError "string option"
  | JSONDecodeError
  | KeyError
  | TypeError
  | OverflowError
  | AttributeError
  | RuntimeError string
  | OtherError string

text \<open>\<open>except ValueError\<close> also catches the two subclasses the code uses.\<close>

fun is_value_error :: "exc \<Rightarrow> bool" where
  "is_value_error (ValueError _) = True"
| "is_value_error (InvalidStateTransitionError _) = True"
| "is_value_error JSONDecodeError = True"
| "is_value_error _ = False"

section \<open>Floats\<close>

datatype pyfloat = Fin rat | PosInf | NegInf | NaN

fun float_lt :: "pyfloat \<Rightarrow> pyfloat \<Rightarrow> bool" where
  "float_lt NaN _ = False"
| "float_lt _ NaN = False"
| "float_lt (Fin a) (Fin b) = (a < b)"
| "float_lt (Fin _) PosInf = True"
| "float_lt NegInf (Fin _) = True"
| "float_lt NegInf PosInf = True"
| "float_lt _ _ = False"

fun float_ge :: "pyfloat \<Rightarrow> pyfloat \<Rightarrow> bool" where
  "float_ge NaN _ = False"
| "float_ge _ NaN = False"
| "float_ge a b = (\<not> float_lt a b)"

text \<open>
  Rounding to the nearest IEEE 754 double, ties to even: \<open>e\<close> is the exponent of the last place, at
  least \<open>- 1074\<close>. Negative zero is not kept apart from zero.
\<close>

function bit_length :: "int \<Rightarrow> int" where
  "bit_length n = (if n \<le> 0 then 0 else 1 + bit_length (n div 2))"
  by pat_completeness auto
termination
  by (relation "measure nat") auto

declare bit_length.simps [simp del]

definition pow2 :: "int \<Rightarrow> rat" where
  "pow2 e = (if 0 \<le> e then 2 ^ nat e else 1 / 2 ^ nat (- e))"

definition round_half_even :: "rat \<Rightarrow> int" where
  "round_half_even x = (let f = \<lfloor>x\<rfloor>; r = x - of_int f
     in if r < 1/2 then f else if r > 1/2 then f + 1 else if even f then f else f + 1)"

definition round_positive :: "rat \<Rightarrow> pyfloat" where
  "round_positive q =
     (let (n, d) = quotient_of q;
          e0 = bit_length n - bit_length d - 53;
          e1 = (if 2 ^ 53 \<le> q / pow2 e0 then e0 + 1 else e0);
          e = max e1 (- 1074);
          v = of_int (round_half_even (q / pow2 e)) * pow2 e
      in if 2 ^ 1024 \<le> v then PosInf else Fin v)"

fun float_neg :: "pyfloat \<Rightarrow> pyfloat" where
  "float_neg (Fin a) = Fin (- a)"
| "float_neg PosInf = NegInf"
| "float_neg NegInf = PosInf"
| "float_neg NaN = NaN"

text \<open>A float literal, and the result of an arithmetic operation.\<close>

definition float_round :: "rat \<Rightarrow> pyfloat" where
  "float_round q =
     (if q = 0 then Fin 0 else if 0 < q then round_positive q else float_neg (round_positive (- q)))"

fun float_add :: "pyfloat \<Rightarrow> pyfloat \<Rightarrow> pyfloat" where
  "float_add (Fin a) (Fin b) = float_round (a + b)"
| "float_add NaN _ = NaN"
| "float_add _ NaN = NaN"
| "float_add PosInf NegInf = NaN"
| "float_add NegInf PosInf = NaN"
| "float_add PosInf _ = PosInf"
| "float_add _ PosInf = PosInf"
| "float_add NegInf _ = NegInf"
| "float_add _ NegInf = NegInf"

definition float_sub :: "pyfloat \<Rightarrow> pyfloat \<Rightarrow> pyfloat" where
  "float_sub a b = float_add a (float_neg b)"

text \<open>Multiplication of two finite floats.\<close>

definition fin_mul :: "rat \<Rightarrow> rat \<Rightarrow> pyfloat" where
  "fin_mul a b = float_round (a * b)"

text \<open>\<open>min(a, b)\<close> and \<open>max(a, b)\<close> of Python: the first argument unless the second is strictly better.\<close>

definition float_min :: "pyfloat \<Rightarrow> pyfloat \<Rightarrow> pyfloat" where
  "float_min a b = (if float_lt b a then b else a)"

definition float_max :: "pyfloat \<Rightarrow> pyfloat \<Rightarrow> pyfloat" where
  "float_max a b = (if float_lt a b then b else a)"

text \<open>The test \<open>x < 0.0 or x > 1.0\<close> that the code uses for scores.\<close>

definition outside_unit :: "pyfloat \<Rightarrow> bool" where
  "outside_unit x \<longleftrightarrow> float_lt x (Fin 0) \<or> float_lt (Fin 1) x"

lemma float_ge_not_lt: "a \<noteq> NaN \<Longrightarrow> b \<noteq> NaN \<Longrightarrow> float_ge a b \<longleftrightarrow> \<not> float_lt a b"
  by (cases a; cases b) auto

lemma not_outside_unit:
  "\<not> outside_unit x \<longleftrightarrow> x = NaN \<or> (\<exists>q. x = Fin q \<and> 0 \<le> q \<and> q \<le> 1)"
  by (cases x) (auto simp: outside_unit_def)

section \<open>Dates\<close>

text \<open>
  A \<open>datetime\<close>: microseconds of the wall clock since 0001-01-01T00:00:00, and the UTC offset of its
  \<open>tzinfo\<close> in microseconds (\<open>None\<close> for a naive value). Python refuses values outside the years 1
  to 9999 with \<open>OverflowError\<close>.
\<close>

datatype datetime = DateTime (dt_wall: int) (dt_offset: "int option")

definition day_micros :: int where
  "day_micros = 86400000000"

definition max_ordinal :: int where
  "max_ordinal = 3652059"

definition in_datetime_range :: "int \<Rightarrow> bool" where
  "in_datetime_range w \<longleftrightarrow> 0 \<le> w \<and> w < max_ordinal * day_micros"

definition replace_naive_with_utc :: "datetime \<Rightarrow> datetime" where
  "replace_naive_with_utc d =
     (case dt_offset d of None \<Rightarrow> DateTime (dt_wall d) (Some 0) | Some _ \<Rightarrow> d)"

definition astimezone_utc :: "datetime \<Rightarrow> exc + datetime" where
  "astimezone_utc d =
     (let w = dt_wall d - (case dt_offset d of None \<Rightarrow> 0 | Some z \<Rightarrow> z)
      in if in_datetime_range w then Inr (DateTime w (Some 0)) else Inl OverflowError)"

section \<open>Values\<close>

datatype pyval =
    PNone
  | PBool bool
  | PInt int
  | PFloat pyfloat
  | PStr string
  | PList "pyval list"
  | PDict "(string \<times> pyval) list"
  | PDateTime datetime

type_synonym pydict = "(string \<times> pyval) list"

text \<open>\<open>d.get(k)\<close>, \<open>d.get(k, default)\<close> and \<open>k in d\<close>.\<close>

definition dict_get :: "pydict \<Rightarrow> string \<Rightarrow> pyval" where
  "dict_get d k = (case map_of d k of None \<Rightarrow> PNone | Some v \<Rightarrow> v)"

definition dict_get_or :: "pydict \<Rightarrow> string \<Rightarrow> pyval \<Rightarrow> pyval" where
  "dict_get_or d k v = (case map_of d k of None \<Rightarrow> v | Some w \<Rightarrow> w)"

definition dict_has :: "pydict \<Rightarrow> string \<Rightarrow> bool" where
  "dict_has d k \<longleftrightarrow> k \<in> fst ` set d"

text \<open>\<open>d[k] = v\<close>: in place when the key is there, appended otherwise.\<close>

fun dict_set :: "pydict \<Rightarrow> string \<Rightarrow> pyval \<Rightarrow> pydict" where
  "dict_set [] k v = [(k, v)]"
| "dict_set ((j, w) # d) k v = (if j = k then (j, v) # d else (j, w) # dict_set d k v)"

text \<open>\<open>isinstance\<close> tests. A \<open>bool\<close> is an \<open>int\<close> in Python.\<close>

fun is_dict :: "pyval \<Rightarrow> bool" where
  "is_dict (PDict _) = True"
| "is_dict _ = False"

fun is_str :: "pyval \<Rightarrow> bool" where
  "is_str (PStr _) = True"
| "is_str _ = False"

fun is_bool :: "pyval \<Rightarrow> bool" where
  "is_bool (PBool _) = True"
| "is_bool _ = False"

fun is_int :: "pyval \<Rightarrow> bool" where
  "is_int (PInt _) = True"
| "is_int (PBool _) = True"
| "is_int _ = False"

fun is_number :: "pyval \<Rightarrow> bool" where
  "is_number (PFloat _) = True"
| "is_number v = is_int v"

text \<open>\<open>bool(v)\<close>.\<close>

fun truthy :: "pyval \<Rightarrow> bool" where
  "truthy PNone = False"
| "truthy (PBool b) = b"
| "truthy (PInt i) = (i \<noteq> 0)"
| "truthy (PFloat x) = (x \<noteq> Fin 0)"
| "truthy (PStr s) = (s \<noteq> [])"
| "truthy (PList xs) = (xs \<noteq> [])"
| "truthy (PDict d) = (d \<noteq> [])"
| "truthy (PDateTime _) = True"

text \<open>The integer value of an \<open>int\<close> or \<open>bool\<close>.\<close>

fun int_of :: "pyval \<Rightarrow> int" where
  "int_of (PInt i) = i"
| "int_of (PBool b) = (if b then 1 else 0)"
| "int_of _ = 0"

text \<open>
  \<open>float(i)\<close> of an integer rounds; one too large for a double raises \<open>OverflowError\<close>. \<open>i / j\<close> of two
  integers is the rounded quotient.
\<close>

definition float_of_int :: "int \<Rightarrow> exc + pyfloat" where
  "float_of_int i = (case float_round (of_int i) of Fin q \<Rightarrow> Inr (Fin q) | _ \<Rightarrow> Inl OverflowError)"

definition true_div :: "int \<Rightarrow> int \<Rightarrow> exc + pyfloat" where
  "true_div i j = (case float_round (of_int i / of_int j) of Fin q \<Rightarrow> Inr (Fin q) | _ \<Rightarrow> Inl OverflowError)"

lemma map_of_dict_set [py_simps]:
  "map_of (dict_set d k v) j = (if j = k then Some v else map_of d j)"
  by (induction d k v rule: dict_set.induct) auto

lemma dict_has_map_of: "dict_has d k \<longleftrightarrow> map_of d k \<noteq> None"
  by (auto simp: dict_has_def map_of_eq_None_iff)

lemma dict_get_of_has: "\<not> dict_has d k \<Longrightarrow> dict_get d k = PNone"
  by (simp add: dict_has_map_of dict_get_def)

lemma dict_get_or_has: "dict_has d k \<Longrightarrow> dict_get_or d k v = dict_get d k"
  by (auto simp: dict_has_map_of dict_get_def dict_get_or_def split: option.splits)

section \<open>Strings\<close>

text \<open>\<open>str.isspace\<close> on one code point below 256.\<close>

definition is_space :: "char \<Rightarrow> bool" where
  "is_space c \<longleftrightarrow> (let n = (of_char c :: nat)
     in (9 \<le> n \<and> n \<le> 13) \<or> (28 \<le> n \<and> n \<le> 32) \<or> n = 133 \<or> n = 160)"

definition strip :: "string \<Rightarrow> string" where
  "strip s = rev (dropWhile is_space (rev (dropWhile is_space s)))"

definition lower_char :: "char \<Rightarrow> char" where
  "lower_char c = (let n = (of_char c :: nat)
     in if (65 \<le> n \<and> n \<le> 90) \<or> (192 \<le> n \<and> n \<le> 222 \<and> n \<noteq> 215) then char_of (n + 32) else c)"

definition lower :: "string \<Rightarrow> string" where
  "lower s = map lower_char s"

text \<open>The sharp s has a two-letter capital.\<close>

definition upper_char :: "char \<Rightarrow> string" where
  "upper_char c = (let n = (of_char c :: nat)
     in if n = 223 then ''SS''
        else if (97 \<le> n \<and> n \<le> 122) \<or> (224 \<le> n \<and> n \<le> 254 \<and> n \<noteq> 247) then [char_of (n - 32)]
        else [c])"

definition upper :: "string \<Rightarrow> string" where
  "upper s = concat (map upper_char s)"

definition starts_with :: "string \<Rightarrow> string \<Rightarrow> bool" where
  "starts_with s p \<longleftrightarrow> take (length p) s = p"

fun contains :: "string \<Rightarrow> string \<Rightarrow> bool" where
  "contains [] p = (p = [])"
| "contains (c # s) p = (starts_with (c # s) p \<or> contains s p)"

text \<open>\<open>s.split()\<close>: the maximal runs of characters that are not white space.\<close>

function words :: "string \<Rightarrow> string list" where
  "words s = (case dropWhile is_space s of [] \<Rightarrow> []
     | c # t \<Rightarrow> (c # takeWhile (\<lambda>x. \<not> is_space x) t) # words (dropWhile (\<lambda>x. \<not> is_space x) t))"
  by pat_completeness auto
termination
proof (relation "measure length", goal_cases)
  case 1
  show ?case by simp
next
  case (2 s c t)
  have "length (dropWhile (\<lambda>x. \<not> is_space x) t) \<le> length t"
    by (rule length_dropWhile_le)
  also have "length t < length (dropWhile is_space s)"
    using 2 by simp
  also have "\<dots> \<le> length s"
    by (rule length_dropWhile_le)
  finally show ?case by simp
qed

fun join :: "string \<Rightarrow> string list \<Rightarrow> string" where
  "join _ [] = []"
| "join _ [w] = w"
| "join sep (w # ws) = w @ sep @ join sep ws"

text \<open>\<open>s.replace("Z", t)\<close> for the one-letter pattern the code uses.\<close>

definition replace_char :: "char \<Rightarrow> string \<Rightarrow> string \<Rightarrow> string" where
  "replace_char c t s = concat (map (\<lambda>x. if x = c then t else [x]) s)"

text \<open>Decimal rendering of integers, as \<open>str(i)\<close> and f-strings do.\<close>

fun dec_nat :: "nat \<Rightarrow> string" where
  "dec_nat n = (if n < 10 then [char_of (48 + n)] else dec_nat (n div 10) @ [char_of (48 + n mod 10)])"

declare dec_nat.simps [simp del]
declare words.simps [simp del]

definition dec_int :: "int \<Rightarrow> string" where
  "dec_int i = (if i < 0 then ''-'' @ dec_nat (nat (- i)) else dec_nat (nat i))"

text \<open>The number of bytes of \<open>s.encode("utf-8")\<close>.\<close>

definition utf8_length :: "string \<Rightarrow> nat" where
  "utf8_length s = sum_list (map (\<lambda>c. if (of_char c :: nat) < 128 then 1 else 2) s)"

definition or_else :: "string option \<Rightarrow> string \<Rightarrow> string" where
  "or_else r d = (case r of None \<Rightarrow> d | Some s \<Rightarrow> if s = [] then d else s)"

lemma strip_Nil_iff: "strip s = [] \<longleftrightarrow> (\<forall>c\<in>set s. is_space c)"
proof
  assume "strip s = []"
  then have "\<forall>c\<in>set (dropWhile is_space s). is_space c"
    by (auto simp: strip_def dropWhile_eq_Nil_conv)
  then show "\<forall>c\<in>set s. is_space c"
    by (metis Un_iff set_append set_takeWhileD takeWhile_dropWhile_id)
next
  assume "\<forall>c\<in>set s. is_space c"
  then show "strip s = []" by (simp add: strip_def dropWhile_eq_Nil_conv[THEN iffD2])
qed

lemma dropWhile_idem_hd: "(xs = [] \<or> \<not> P (hd xs)) \<Longrightarrow> dropWhile P xs = xs"
  by (cases xs) auto

lemma strip_hd: "strip s \<noteq> [] \<Longrightarrow> \<not> is_space (hd (strip s))"
proof -
  assume ne: "strip s \<noteq> []"
  let ?d = "dropWhile is_space s"
  obtain ws where ws: "?d = strip s @ ws"
    unfolding strip_def by (metis rev_append rev_rev_ident takeWhile_dropWhile_id)
  from ne ws have "hd ?d = hd (strip s)" by simp
  moreover from ne ws have "?d \<noteq> []" by simp
  ultimately show ?thesis using hd_dropWhile by metis
qed

lemma strip_last: "strip s \<noteq> [] \<Longrightarrow> \<not> is_space (last (strip s))"
  using hd_dropWhile [of is_space "rev (dropWhile is_space s)"]
  by (auto simp: strip_def last_rev)

lemma strip_strip [simp, py_simps]: "strip (strip s) = strip s"
proof (cases "strip s = []")
  case True
  then show ?thesis unfolding True by (simp add: strip_def)
next
  case False
  then have "dropWhile is_space (strip s) = strip s"
    by (intro dropWhile_idem_hd) (simp add: strip_hd)
  moreover have "dropWhile is_space (rev (strip s)) = rev (strip s)"
    using False by (intro dropWhile_idem_hd) (simp add: strip_last hd_rev)
  ultimately show ?thesis by (simp add: strip_def [of "strip s"])
qed

lemma or_else_Some_ne [simp]: "s \<noteq> [] \<Longrightarrow> or_else (Some s) d = s"
  by (simp add: or_else_def)

lemma or_else_ne: "d \<noteq> [] \<Longrightarrow> or_else r d \<noteq> []"
  by (auto simp: or_else_def split: option.splits)

section \<open>What a call reads from its environment\<close>

record py_env =
  env_uuid :: "nat \<Rightarrow> string"                  \<comment> \<open>\<open>str(uuid4())\<close>, by call site\<close>
  env_now :: "nat \<Rightarrow> string"                   \<comment> \<open>\<open>datetime.now(timezone.utc).isoformat()\<close>\<close>
  env_ms :: "nat \<Rightarrow> int"                       \<comment> \<open>\<open>int(time.time() * 1000)\<close>\<close>
  env_fromiso :: "string \<Rightarrow> datetime option"   \<comment> \<open>\<open>datetime.fromisoformat\<close>; \<open>None\<close>: ValueError\<close>
  env_iso :: "datetime \<Rightarrow> string"              \<comment> \<open>\<open>datetime.isoformat\<close>\<close>
  env_repr :: "pyval \<Rightarrow> string"                \<comment> \<open>\<open>str\<close> of floats, containers and dates\<close>
  env_int :: "string \<Rightarrow> int option"            \<comment> \<open>\<open>int\<close> of a string; \<open>None\<close>: ValueError\<close>
  env_float :: "string \<Rightarrow> pyfloat option"      \<comment> \<open>\<open>float\<close> of a string; \<open>None\<close>: ValueError\<close>

text \<open>
  The readings of a nested call: a block of sixteen indices of their own, so that two nested calls of
  one method may see different clocks and identifiers.
\<close>

definition at_site :: "nat \<Rightarrow> py_env \<Rightarrow> py_env" where
  "at_site k env = env\<lparr>env_uuid := (\<lambda>i. env_uuid env (16 * k + i)),
     env_now := (\<lambda>i. env_now env (16 * k + i)), env_ms := (\<lambda>i. env_ms env (16 * k + i))\<rparr>"

text \<open>
  A concrete environment for the witnesses: counting identifiers, a fixed date, and parsers that
  accept every non-empty string.
\<close>

definition stub_env :: py_env where
  "stub_env = \<lparr>env_uuid = (\<lambda>i. replicate i (CHR ''u'')), env_now = (\<lambda>_. ''now''), env_ms = int,
     env_fromiso = (\<lambda>s. if s = [] then None else Some (DateTime 0 (Some 0))),
     env_iso = (\<lambda>_. ''iso''), env_repr = (\<lambda>_. ''repr''), env_int = (\<lambda>_. None),
     env_float = (\<lambda>_. None)\<rparr>"

text \<open>\<open>str(v)\<close>, \<open>int(v)\<close> and \<open>float(v)\<close>.\<close>

fun py_str :: "py_env \<Rightarrow> pyval \<Rightarrow> string" where
  "py_str _ (PStr s) = s"
| "py_str _ PNone = ''None''"
| "py_str _ (PBool b) = (if b then ''True'' else ''False'')"
| "py_str _ (PInt i) = dec_int i"
| "py_str env v = env_repr env v"

fun py_int :: "py_env \<Rightarrow> pyval \<Rightarrow> exc + int" where
  "py_int _ (PInt i) = Inr i"
| "py_int _ (PBool b) = Inr (if b then 1 else 0)"
| "py_int _ (PFloat (Fin q)) = Inr (if q < 0 then \<lceil>q\<rceil> else \<lfloor>q\<rfloor>)"
| "py_int _ (PFloat NaN) = Inl (ValueError ''cannot convert float NaN to integer'')"
| "py_int _ (PFloat _) = Inl OverflowError"
| "py_int env (PStr s) = (case env_int env s of
      None \<Rightarrow> Inl (ValueError ''invalid literal for int()'') | Some i \<Rightarrow> Inr i)"
| "py_int _ _ = Inl TypeError"

fun py_float :: "py_env \<Rightarrow> pyval \<Rightarrow> exc + pyfloat" where
  "py_float _ (PFloat x) = Inr x"
| "py_float _ (PInt i) = float_of_int i"
| "py_float _ (PBool b) = Inr (Fin (if b then 1 else 0))"
| "py_float env (PStr s) = (case env_float env s of
      None \<Rightarrow> Inl (ValueError ''could not convert string to float'') | Some x \<Rightarrow> Inr x)"
| "py_float _ _ = Inl TypeError"

section \<open>Programs\<close>

text \<open>
  A method that changes a state and may raise. What was changed before the raise stays changed, as
  in Python.
\<close>

type_synonym ('s, 'a) prog = "'s \<Rightarrow> (exc + 'a) \<times> 's"

definition ret :: "'a \<Rightarrow> ('s, 'a) prog" where
  "ret x s = (Inr x, s)"

definition raise_exc :: "exc \<Rightarrow> ('s, 'a) prog" where
  "raise_exc e s = (Inl e, s)"

definition lift_result :: "exc + 'a \<Rightarrow> ('s, 'a) prog" where
  "lift_result r s = (r, s)"

definition and_then :: "('s, 'a) prog \<Rightarrow> ('a \<Rightarrow> ('s, 'b) prog) \<Rightarrow> ('s, 'b) prog" where
  "and_then p f s = (case p s of (Inl e, s') \<Rightarrow> (Inl e, s') | (Inr x, s') \<Rightarrow> f x s')"

definition result_bind :: "exc + 'a \<Rightarrow> ('a \<Rightarrow> exc + 'b) \<Rightarrow> exc + 'b" where
  "result_bind r f = (case r of Inl e \<Rightarrow> Inl e | Inr x \<Rightarrow> f x)"

lemma ret_simp [simp, prog_simps]: "ret x s = (Inr x, s)"
  by (simp add: ret_def)

lemma raise_exc_simp [simp, prog_simps]: "raise_exc e s = (Inl e, s)"
  by (simp add: raise_exc_def)

lemma lift_result_simp [simp, prog_simps]: "lift_result r s = (r, s)"
  by (simp add: lift_result_def)

lemma result_bind_simps [simp, prog_simps]:
  "result_bind (Inl e) f = Inl e" "result_bind (Inr x) f = f x"
  by (simp_all add: result_bind_def)

lemma and_then_Inr [prog_simps]: "p s = (Inr x, s') \<Longrightarrow> and_then p f s = f x s'"
  by (simp add: and_then_def)

lemma and_then_Inl [prog_simps]: "p s = (Inl e, s') \<Longrightarrow> and_then p f s = (Inl e, s')"
  by (simp add: and_then_def)

lemma result_bind_Inr_iff:
  "result_bind r f = Inr y \<longleftrightarrow> (\<exists>x. r = Inr x \<and> f x = Inr y)"
  by (cases r) auto

lemma and_then_Inr_iff:
  "and_then p f s = (Inr y, s'') \<longleftrightarrow> (\<exists>x s'. p s = (Inr x, s') \<and> f x s' = (Inr y, s''))"
  by (auto simp: and_then_def split: prod.splits sum.splits)

text \<open>A program keeps a predicate of the state, whether it returns or raises.\<close>

definition keeps :: "('s \<Rightarrow> bool) \<Rightarrow> ('s, 'a) prog \<Rightarrow> bool" where
  "keeps I p \<longleftrightarrow> (\<forall>s. I s \<longrightarrow> I (snd (p s)))"

lemma keepsI [intro?]: "(\<And>s. I s \<Longrightarrow> I (snd (p s))) \<Longrightarrow> keeps I p"
  by (simp add: keeps_def)

lemma keepsD: "keeps I p \<Longrightarrow> I s \<Longrightarrow> I (snd (p s))"
  by (simp add: keeps_def)

lemma keeps_ret [simp, intro]: "keeps I (ret x)"
  by (simp add: keeps_def)

lemma keeps_raise [simp, intro]: "keeps I (raise_exc e)"
  by (simp add: keeps_def)

lemma keeps_lift [simp, intro]: "keeps I (lift_result r)"
  by (simp add: keeps_def)

lemma keeps_and_then [intro]:
  assumes p: "keeps I p" and f: "\<And>x. keeps I (f x)"
  shows "keeps I (and_then p f)"
proof
  fix s
  assume "I s"
  with p have "I (snd (p s))" by (rule keepsD)
  with f show "I (snd (and_then p f s))"
    by (auto simp: and_then_def keeps_def split: prod.splits sum.splits)
qed

section \<open>Rates\<close>

lemma bit_length_mono:
  assumes "m \<le> n" shows "bit_length m \<le> bit_length n"
  using assms
proof (induction n arbitrary: m rule: bit_length.induct)
  case (1 n)
  have nonneg: "0 \<le> bit_length k" for k
    by (induction k rule: bit_length.induct) (subst bit_length.simps, simp)
  show ?case
  proof (cases "m \<le> 0")
    case True
    then show ?thesis using nonneg [of n] by (simp add: bit_length.simps [of m])
  next
    case False
    then have "bit_length (m div 2) \<le> bit_length (n div 2)"
      using 1 by (simp add: zdiv_mono1)
    with False 1(2) show ?thesis by (simp add: bit_length.simps [of m] bit_length.simps [of n])
  qed
qed

lemma pow2_pos [simp]: "0 < pow2 e"
  by (simp add: pow2_def)

lemma round_half_even_nonneg: "0 \<le> x \<Longrightarrow> 0 \<le> round_half_even x"
  unfolding round_half_even_def Let_def by (simp split: if_split)

lemma round_half_even_le_int:
  assumes "x \<le> of_int n"
  shows "round_half_even x \<le> n"
proof (cases "x = of_int n")
  case True
  then show ?thesis by (simp add: round_half_even_def)
next
  case False
  with assms have "\<lfloor>x\<rfloor> < n" by (simp add: floor_less_iff)
  then show ?thesis unfolding round_half_even_def Let_def by (simp split: if_split)
qed

text \<open>A rate between 0 and 1 is a finite float, between 0 and 1 too.\<close>

lemma float_round_unit:
  assumes "0 \<le> q" "q \<le> 1"
  shows "\<exists>x. float_round q = Fin x \<and> 0 \<le> x \<and> x \<le> 1"
proof (cases "q = 0")
  case False
  obtain n d where nd: "quotient_of q = (n, d)" by fastforce
  define e0 where "e0 = bit_length n - bit_length d - 53"
  define e where "e = max (if 2 ^ 53 \<le> q / pow2 e0 then e0 + 1 else e0) (- 1074)"
  have "0 < d" using quotient_of_denom_pos [OF nd] .
  moreover have "q = of_int n / of_int d" using quotient_of_div [OF nd] .
  ultimately have "n \<le> d" using assms(2) by (simp add: divide_le_eq)
  then have "e \<le> 0" using bit_length_mono [of n d] by (simp add: e_def e0_def)
  then have e: "pow2 e = 1 / of_int (2 ^ nat (- e))" by (auto simp: pow2_def)
  have "q / pow2 e \<le> of_int (2 ^ nat (- e))" using assms(2) by (simp add: e)
  then have "(of_int (round_half_even (q / pow2 e)) :: rat) \<le> of_int (2 ^ nat (- e))"
    by (simp only: of_int_le_iff round_half_even_le_int)
  then have v: "of_int (round_half_even (q / pow2 e)) * pow2 e \<le> 1"
    by (simp add: e divide_le_eq)
  have nn: "0 \<le> of_int (round_half_even (q / pow2 e)) * pow2 e"
    using assms(1) by (intro mult_nonneg_nonneg) (auto simp: round_half_even_nonneg less_imp_le)
  have "(1::rat) < 2 ^ 1024"
    by (rule one_less_power) simp_all
  with v have "\<not> 2 ^ 1024 \<le> of_int (round_half_even (q / pow2 e)) * pow2 e" by linarith
  then have "round_positive q = Fin (of_int (round_half_even (q / pow2 e)) * pow2 e)"
    by (simp only: round_positive_def nd Let_def prod.case if_False flip: e0_def e_def)
  with False assms(1) nn v show ?thesis by (simp add: float_round_def)
qed (simp add: float_round_def)

lemma float_round_inside_unit: "0 \<le> q \<Longrightarrow> q \<le> 1 \<Longrightarrow> \<not> outside_unit (float_round q)"
  using float_round_unit [of q] by (auto simp: not_outside_unit)

lemma true_div_rate:
  assumes "0 \<le> i" "i \<le> j" "0 < j"
  shows "\<exists>x. true_div i j = Inr (Fin x) \<and> float_round (of_int i / of_int j) = Fin x"
  using float_round_unit [of "of_int i / of_int j"] assms by (auto simp: true_div_def divide_le_eq)

section \<open>Runs of a machine\<close>

text \<open>
  The contract of a component that is driven by a sequence of inputs: what holds at the start and is
  kept by every input holds after every run. \<open>after\<close> relates the states before and after a run by a
  reflexive and transitive relation that every input respects.
\<close>

locale machine =
  fixes step :: "'i \<Rightarrow> 's \<Rightarrow> 's"
    and inv :: "'s \<Rightarrow> bool"
    and after :: "'s \<Rightarrow> 's \<Rightarrow> bool"
  assumes step_inv: "inv s \<Longrightarrow> inv (step i s)"
    and step_after: "inv s \<Longrightarrow> after s (step i s)"
    and after_refl: "after s s"
    and after_trans: "after s t \<Longrightarrow> after t u \<Longrightarrow> after s u"
begin

lemma run_inv: "inv s \<Longrightarrow> inv (fold step is s)"
  by (induction "is" arbitrary: s) (auto simp: step_inv)

lemma run_after: "inv s \<Longrightarrow> after s (fold step is s)"
proof (induction "is" arbitrary: s)
  case Nil
  then show ?case by (simp add: after_refl)
next
  case (Cons i "is")
  from Cons.prems have "after s (step i s)" and "inv (step i s)"
    by (rule step_after, rule step_inv)
  then show ?case using Cons.IH [of "step i s"] by (auto intro: after_trans)
qed

lemma run_between: "inv s \<Longrightarrow> after (fold step is s) (fold step (is @ js) s)"
  by (simp add: run_after run_inv)

end

end
