(* ===== verification/Hashlib.thy ===== *)
theory Hashlib
  imports Apcos_Prelude
begin

text \<open>
  The two digests the code takes from Python's \<open>hashlib\<close>: SHA-256 (the encryption key and the key
  identifier) and SHA-1 (challenge identifiers), on byte lists, as FIPS 180-4 defines them, and
  \<open>hexdigest\<close>. Only the lengths of the digests matter to the proofs; the functions are executable so
  that the components above them are.
\<close>

unbundle bit_operations_syntax

type_synonym byte = "8 word"
type_synonym u32 = "32 word"

section \<open>Padding and blocks\<close>

definition be64 :: "nat \<Rightarrow> byte list" where
  "be64 n = map (\<lambda>i. of_int (int n div 256 ^ i)) (rev [0..<8])"

definition sha_pad :: "byte list \<Rightarrow> byte list" where
  "sha_pad m = (let n = length m; z = (119 - n mod 64) mod 64
     in m @ [0x80] @ replicate z 0 @ be64 (8 * n))"

definition be_word :: "byte \<Rightarrow> byte \<Rightarrow> byte \<Rightarrow> byte \<Rightarrow> u32" where
  "be_word a b c d = of_int (((uint a * 256 + uint b) * 256 + uint c) * 256 + uint d)"

fun be_words :: "byte list \<Rightarrow> u32 list" where
  "be_words (a # b # c # d # r) = be_word a b c d # be_words r"
| "be_words _ = []"

definition word_bytes :: "u32 \<Rightarrow> byte list" where
  "word_bytes w = (let n = uint w
     in [of_int (n div 16777216), of_int (n div 65536), of_int (n div 256), of_int n])"

fun blocks :: "nat \<Rightarrow> u32 list \<Rightarrow> u32 list list" where
  "blocks 0 _ = []"
| "blocks (Suc k) ws = take 16 ws # blocks k (drop 16 ws)"

definition message_blocks :: "byte list \<Rightarrow> u32 list list" where
  "message_blocks m = (let ws = be_words (sha_pad m) in blocks (length ws div 16) ws)"

section \<open>SHA-256\<close>

text \<open>The round constants: the first 32 bits of the fractional parts of the cube roots of the first 64 primes, in decimal.\<close>

definition sha256_k :: "u32 list" where
  "sha256_k =
    [1116352408, 1899447441, 3049323471, 3921009573, 961987163, 1508970993, 2453635748, 2870763221,
     3624381080, 310598401, 607225278, 1426881987, 1925078388, 2162078206, 2614888103, 3248222580,
     3835390401, 4022224774, 264347078, 604807628, 770255983, 1249150122, 1555081692, 1996064986,
     2554220882, 2821834349, 2952996808, 3210313671, 3336571891, 3584528711, 113926993, 338241895,
     666307205, 773529912, 1294757372, 1396182291, 1695183700, 1986661051, 2177026350, 2456956037,
     2730485921, 2820302411, 3259730800, 3345764771, 3516065817, 3600352804, 4094571909, 275423344,
     430227734, 506948616, 659060556, 883997877, 958139571, 1322822218, 1537002063, 1747873779,
     1955562222, 2024104815, 2227730452, 2361852424, 2428436474, 2756734187, 3204031479, 3329325298]"

text \<open>The message schedule, newest word first.\<close>

fun sha256_schedule :: "nat \<Rightarrow> u32 list \<Rightarrow> u32 list" where
  "sha256_schedule 0 r = r"
| "sha256_schedule (Suc k) r =
     (let w15 = r ! 14; w2 = r ! 1;
          s0 = word_rotr 7 w15 XOR word_rotr 18 w15 XOR drop_bit 3 w15;
          s1 = word_rotr 17 w2 XOR word_rotr 19 w2 XOR drop_bit 10 w2
      in sha256_schedule k ((s1 + r ! 6 + s0 + r ! 15) # r))"

datatype sha256_state = H256 u32 u32 u32 u32 u32 u32 u32 u32

fun sha256_round :: "u32 \<times> u32 \<Rightarrow> sha256_state \<Rightarrow> sha256_state" where
  "sha256_round (k, w) (H256 a b c d e f g h) =
     (let s1 = word_rotr 6 e XOR word_rotr 11 e XOR word_rotr 25 e;
          ch = (e AND f) XOR (NOT e AND g);
          t1 = h + s1 + ch + k + w;
          s0 = word_rotr 2 a XOR word_rotr 13 a XOR word_rotr 22 a;
          mj = (a AND b) XOR (a AND c) XOR (b AND c);
          t2 = s0 + mj
      in H256 (t1 + t2) a b c (d + t1) e f g)"

fun h256_add :: "sha256_state \<Rightarrow> sha256_state \<Rightarrow> sha256_state" where
  "h256_add (H256 a b c d e f g h) (H256 a' b' c' d' e' f' g' h') =
     H256 (a + a') (b + b') (c + c') (d + d') (e + e') (f + f') (g + g') (h + h')"

definition sha256_block :: "u32 list \<Rightarrow> sha256_state \<Rightarrow> sha256_state" where
  "sha256_block blk st =
     h256_add st (fold sha256_round (zip sha256_k (rev (sha256_schedule 48 (rev blk)))) st)"

fun h256_bytes :: "sha256_state \<Rightarrow> byte list" where
  "h256_bytes (H256 a b c d e f g h) = concat (map word_bytes [a, b, c, d, e, f, g, h])"

definition sha256 :: "byte list \<Rightarrow> byte list" where
  "sha256 m = h256_bytes (fold sha256_block (message_blocks m)
     (H256 0x6a09e667 0xbb67ae85 0x3c6ef372 0xa54ff53a 0x510e527f 0x9b05688c 0x1f83d9ab 0x5be0cd19))"

lemma length_word_bytes [simp]: "length (word_bytes w) = 4"
  by (simp add: word_bytes_def Let_def)

lemma length_h256_bytes [simp]: "length (h256_bytes st) = 32"
  by (cases st) simp

lemma length_sha256 [simp]: "length (sha256 m) = 32"
  by (simp add: sha256_def)

section \<open>SHA-1\<close>

fun sha1_schedule :: "nat \<Rightarrow> u32 list \<Rightarrow> u32 list" where
  "sha1_schedule 0 r = r"
| "sha1_schedule (Suc k) r =
     sha1_schedule k (word_rotl 1 (r ! 2 XOR r ! 7 XOR r ! 13 XOR r ! 15) # r)"

datatype sha1_state = H160 u32 u32 u32 u32 u32

fun sha1_round :: "nat \<times> u32 \<Rightarrow> sha1_state \<Rightarrow> sha1_state" where
  "sha1_round (t, w) (H160 a b c d e) =
     (let (f, k) =
        (if t < 20 then ((b AND c) OR (NOT b AND d), 0x5a827999)
         else if t < 40 then (b XOR c XOR d, 0x6ed9eba1)
         else if t < 60 then ((b AND c) OR (b AND d) OR (c AND d), 0x8f1bbcdc)
         else (b XOR c XOR d, 0xca62c1d6))
      in H160 (word_rotl 5 a + f + e + k + w) a (word_rotl 30 b) c d)"

fun h160_add :: "sha1_state \<Rightarrow> sha1_state \<Rightarrow> sha1_state" where
  "h160_add (H160 a b c d e) (H160 a' b' c' d' e') =
     H160 (a + a') (b + b') (c + c') (d + d') (e + e')"

definition sha1_block :: "u32 list \<Rightarrow> sha1_state \<Rightarrow> sha1_state" where
  "sha1_block blk st =
     h160_add st (fold sha1_round (zip [0..<80] (rev (sha1_schedule 64 (rev blk)))) st)"

fun h160_bytes :: "sha1_state \<Rightarrow> byte list" where
  "h160_bytes (H160 a b c d e) = concat (map word_bytes [a, b, c, d, e])"

definition sha1 :: "byte list \<Rightarrow> byte list" where
  "sha1 m = h160_bytes (fold sha1_block (message_blocks m)
     (H160 0x67452301 0xefcdab89 0x98badcfe 0x10325476 0xc3d2e1f0))"

section \<open>Hexadecimal digests\<close>

definition hex_digit :: "nat \<Rightarrow> char" where
  "hex_digit n = char_of (if n < 10 then 48 + n else 87 + n)"

definition hexdigest :: "byte list \<Rightarrow> string" where
  "hexdigest bs = concat (map (\<lambda>b. [hex_digit (unat b div 16), hex_digit (unat b mod 16)]) bs)"

lemma length_hexdigest [simp]: "length (hexdigest bs) = 2 * length bs"
  by (induction bs) (auto simp: hexdigest_def)

lemma length_h160_bytes [simp]: "length (h160_bytes st) = 20"
  by (cases st) simp

lemma length_sha1 [simp]: "length (sha1 m) = 20"
  by (simp add: sha1_def)

end
