(* ===== verification/Encryption_Layer.thy ===== *)
theory Encryption_Layer
  imports Hashlib
begin

text \<open>
  \<open>core/memory/encryption_layer.py\<close>: text is encoded as UTF-8, xored with the SHA-256 digest of the
  key material and written as URL-safe base64. The two codecs of the standard library are modelled as
  CPython implements them: strict UTF-8 (no surrogates, no overlong forms), and the lenient base64
  reader that skips foreign characters. The contract the task store relies on is the locale
  \<open>text_codec\<close>: what was encrypted decrypts to itself.

  Text is a list of code points here, so that the whole of Unicode is covered.
\<close>

unbundle bit_operations_syntax

type_synonym codepoints = "nat list"

section \<open>UTF-8\<close>

definition utf8_char :: "nat \<Rightarrow> exc + nat list" where
  "utf8_char n =
     (if n < 128 then Inr [n]
      else if n < 2048 then Inr [192 + n div 64, 128 + n mod 64]
      else if 55296 \<le> n \<and> n \<le> 57343 then Inl (ValueError ''surrogates not allowed'')
      else if n < 65536 then Inr [224 + n div 4096, 128 + n div 64 mod 64, 128 + n mod 64]
      else if n < 1114112 then
        Inr [240 + n div 262144, 128 + n div 4096 mod 64, 128 + n div 64 mod 64, 128 + n mod 64]
      else Inl (ValueError ''not a code point''))"

fun utf8_encode :: "codepoints \<Rightarrow> exc + nat list" where
  "utf8_encode [] = Inr []"
| "utf8_encode (n # ns) =
     result_bind (utf8_char n) (\<lambda>b. result_bind (utf8_encode ns) (\<lambda>bs. Inr (b @ bs)))"

definition cont_byte :: "nat \<Rightarrow> bool" where
  "cont_byte b \<longleftrightarrow> 128 \<le> b \<and> b \<le> 191"

definition decode_error :: "exc + codepoints" where
  "decode_error = Inl (ValueError ''invalid utf-8'')"

fun utf8_decode :: "nat list \<Rightarrow> exc + codepoints" where
  "utf8_decode [] = Inr []"
| "utf8_decode (a # r) =
     (if a < 128 then result_bind (utf8_decode r) (\<lambda>t. Inr (a # t))
      else case r of [] \<Rightarrow> decode_error | b # r1 \<Rightarrow>
        if \<not> cont_byte b then decode_error
        else if 194 \<le> a \<and> a \<le> 223 then
          result_bind (utf8_decode r1) (\<lambda>t. Inr (((a - 192) * 64 + (b - 128)) # t))
        else case r1 of [] \<Rightarrow> decode_error | c # r2 \<Rightarrow>
          if \<not> cont_byte c then decode_error
          else if 224 \<le> a \<and> a \<le> 239 then
            (let n = ((a - 224) * 64 + (b - 128)) * 64 + (c - 128)
             in if n < 2048 \<or> (55296 \<le> n \<and> n \<le> 57343) then decode_error
                else result_bind (utf8_decode r2) (\<lambda>t. Inr (n # t)))
          else case r2 of [] \<Rightarrow> decode_error | d # r3 \<Rightarrow>
            if \<not> cont_byte d then decode_error
            else if 240 \<le> a \<and> a \<le> 244 then
              (let n = (((a - 240) * 64 + (b - 128)) * 64 + (c - 128)) * 64 + (d - 128)
               in if n < 65536 \<or> 1114112 \<le> n then decode_error
                  else result_bind (utf8_decode r3) (\<lambda>t. Inr (n # t)))
            else decode_error)"

declare utf8_decode.simps(2) [simp del]

text \<open>What Python's \<open>str\<close> can encode: every code point but the surrogates.\<close>

definition scalar_value :: "nat \<Rightarrow> bool" where
  "scalar_value n \<longleftrightarrow> n < 1114112 \<and> \<not> (55296 \<le> n \<and> n \<le> 57343)"

lemma utf8_char_ok: "(\<exists>b. utf8_char n = Inr b) \<longleftrightarrow> scalar_value n"
  by (auto simp: utf8_char_def scalar_value_def)

lemma utf8_encode_ok: "(\<exists>bs. utf8_encode t = Inr bs) \<longleftrightarrow> list_all scalar_value t"
  by (induction t) (auto simp: result_bind_Inr_iff utf8_char_ok [symmetric])

lemma split64_3: "4096 * ((n::nat) div 4096) + n div 64 mod 64 * 64 + n mod 64 = n"
proof -
  have "n div 4096 = n div 64 div 64" by (simp add: div_mult2_eq [symmetric])
  then show ?thesis using div_mult_mod_eq [of n 64] div_mult_mod_eq [of "n div 64" 64] by linarith
qed

lemma split64_4:
  "262144 * ((n::nat) div 262144) + 4096 * (n div 4096 mod 64) + n div 64 mod 64 * 64 + n mod 64 = n"
proof -
  have "n div 262144 = n div 4096 div 64" by (simp add: div_mult2_eq [symmetric])
  then show ?thesis using split64_3 [of n] div_mult_mod_eq [of "n div 4096" 64] by linarith
qed

lemma cont_byte_low [simp]: "cont_byte (128 + n mod 64)"
proof -
  have "n mod 64 < 64" by simp
  then show ?thesis unfolding cont_byte_def by linarith
qed

lemma utf8_decode_char:
  assumes "utf8_char n = Inr b"
  shows "utf8_decode (b @ r) = result_bind (utf8_decode r) (\<lambda>t. Inr (n # t))"
proof -
  have sv: "scalar_value n" using assms utf8_char_ok by blast
  consider "n < 128" | "128 \<le> n" "n < 2048" | "2048 \<le> n" "n < 65536" | "65536 \<le> n" "n < 1114112"
    using sv unfolding scalar_value_def by linarith
  then show ?thesis
  proof cases
    case 1
    then show ?thesis using assms by (auto simp: utf8_decode.simps(2) utf8_char_def)
  next
    case 2
    have d: "2 \<le> n div 64" "n div 64 \<le> 31" using 2 by auto
    have "b = [192 + n div 64, 128 + n mod 64]" using 2 assms by (auto simp: utf8_char_def)
    then show ?thesis using d by (simp add: utf8_decode.simps(2))
  next
    case 3
    have d: "n div 4096 \<le> 15" using 3 by auto
    have ns: "\<not> (55296 \<le> n \<and> n \<le> 57343)" using sv by (simp add: scalar_value_def)
    have "b = [224 + n div 4096, 128 + n div 64 mod 64, 128 + n mod 64]"
      using 3 ns assms by (auto simp: utf8_char_def)
    then show ?thesis using d 3 ns by (auto simp add: utf8_decode.simps(2) split64_3 Let_def)
  next
    case 4
    have d: "n div 262144 \<le> 4" using 4 by auto
    have "b = [240 + n div 262144, 128 + n div 4096 mod 64, 128 + n div 64 mod 64, 128 + n mod 64]"
      using 4 assms by (auto simp: utf8_char_def)
    then show ?thesis using d 4 by (simp add: utf8_decode.simps(2) split64_4 Let_def)
  qed
qed

lemma utf8_char_bytes: "utf8_char n = Inr b \<Longrightarrow> list_all (\<lambda>x. x < 256) b"
proof -
  assume u: "utf8_char n = Inr b"
  have m: "128 + x mod 64 < (256::nat)" for x
    using mod_less_divisor [of 64 x] by linarith
  have "n < 2048 \<Longrightarrow> 192 + n div 64 < 256" and "n < 65536 \<Longrightarrow> 224 + n div 4096 < 256"
    and "n < 1114112 \<Longrightarrow> 240 + n div 262144 < 256"
    by auto
  with u m show ?thesis by (auto simp: utf8_char_def split: if_splits)
qed

lemma utf8_roundtrip: "utf8_encode t = Inr bs \<Longrightarrow> utf8_decode bs = Inr t"
  by (induction t arbitrary: bs) (auto simp: result_bind_Inr_iff utf8_decode_char)

lemma utf8_encode_bytes: "utf8_encode t = Inr bs \<Longrightarrow> list_all (\<lambda>x. x < 256) bs"
  by (induction t arbitrary: bs) (auto simp: result_bind_Inr_iff utf8_char_bytes)

section \<open>URL-safe base64\<close>

text \<open>The alphabet, and the reader's table (64 for every other character).\<close>

definition b64_char :: "nat \<Rightarrow> char" where
  "b64_char n =
     (if n < 26 then char_of (65 + n) else if n < 52 then char_of (71 + n)
      else if n < 62 then char_of (n - 4) else if n = 62 then CHR ''-'' else CHR ''_'')"

text \<open>
  \<open>urlsafe_b64decode\<close> translates the two URL-safe characters to \<open>+\<close> and \<open>/\<close> first, which the
  reader therefore also accepts.
\<close>

definition b64_value :: "char \<Rightarrow> nat" where
  "b64_value c = (let n = (of_char c :: nat)
     in if 65 \<le> n \<and> n \<le> 90 then n - 65 else if 97 \<le> n \<and> n \<le> 122 then n - 71
        else if 48 \<le> n \<and> n \<le> 57 then n + 4 else if n = 45 \<or> n = 43 then 62
        else if n = 95 \<or> n = 47 then 63 else 64)"

fun b64encode :: "nat list \<Rightarrow> string" where
  "b64encode (a # b # c # r) =
     b64_char (a div 4) # b64_char (a mod 4 * 16 + b div 16)
     # b64_char (b mod 16 * 4 + c div 64) # b64_char (c mod 64) # b64encode r"
| "b64encode [a, b] =
     [b64_char (a div 4), b64_char (a mod 4 * 16 + b div 16), b64_char (b mod 16 * 4), CHR ''='']"
| "b64encode [a] = [b64_char (a div 4), b64_char (a mod 4 * 16), CHR ''='', CHR ''='']"
| "b64encode [] = []"

text \<open>
  The lenient reader: position in the group of four, bits left over, padding seen since the last
  data character. Characters outside the alphabet are skipped; complete padding ends the input.
\<close>

fun a2b :: "nat \<Rightarrow> nat \<Rightarrow> nat \<Rightarrow> string \<Rightarrow> exc + nat list" where
  "a2b q left pads [] = (if q = 0 then Inr [] else Inl (ValueError ''Incorrect padding''))"
| "a2b q left pads (c # s) =
     (if c = CHR ''='' then
        (if 2 \<le> q \<and> 4 \<le> q + Suc pads then Inr [] else a2b q left (Suc pads) s)
      else let v = b64_value c in
        if 64 \<le> v then a2b q left pads s
        else if q = 0 then a2b 1 v 0 s
        else if q = 1 then result_bind (a2b 2 (v mod 16) 0 s) (\<lambda>r. Inr ((left * 4 + v div 16) # r))
        else if q = 2 then result_bind (a2b 3 (v mod 4) 0 s) (\<lambda>r. Inr ((left * 16 + v div 4) # r))
        else result_bind (a2b 0 0 0 s) (\<lambda>r. Inr ((left * 64 + v) # r)))"

definition b64decode :: "string \<Rightarrow> exc + nat list" where
  "b64decode s = a2b 0 0 0 s"

lemma b64_value_char: "n < 64 \<Longrightarrow> b64_value (b64_char n) = n"
  by (auto simp: b64_value_def b64_char_def Let_def)

lemma b64_char_not_pad: "n < 64 \<Longrightarrow> b64_char n \<noteq> CHR ''=''"
proof
  assume n: "n < 64" and "b64_char n = CHR ''=''"
  moreover have "b64_value (CHR ''='') = 64" by (simp add: b64_value_def)
  ultimately show False using b64_value_char [OF n] by simp
qed

lemma a2b_data:
  assumes "v < 64"
  shows "a2b q left pads (b64_char v # s) =
    (if q = 0 then a2b 1 v 0 s
     else if q = 1 then result_bind (a2b 2 (v mod 16) 0 s) (\<lambda>r. Inr ((left * 4 + v div 16) # r))
     else if q = 2 then result_bind (a2b 3 (v mod 4) 0 s) (\<lambda>r. Inr ((left * 16 + v div 4) # r))
     else result_bind (a2b 0 0 0 s) (\<lambda>r. Inr ((left * 64 + v) # r)))"
  using assms by (simp add: b64_value_char b64_char_not_pad)

lemma sextets:
  assumes "a < 256" "b < 256" "c < (256::nat)"
  shows "a div 4 < 64" "a mod 4 * 16 + b div 16 < 64" "b mod 16 * 4 + c div 64 < 64" "c mod 64 < 64"
    "(a mod 4 * 16 + b div 16) div 16 = a mod 4" "(a mod 4 * 16 + b div 16) mod 16 = b div 16"
    "(b mod 16 * 4 + c div 64) div 4 = b mod 16" "(b mod 16 * 4 + c div 64) mod 4 = c div 64"
proof -
  have q: "b div 16 < 16" "c div 64 < 4" "a mod 4 < 4" "b mod 16 < 16" using assms by auto
  show "a div 4 < 64" using assms by auto
  show "a mod 4 * 16 + b div 16 < 64" "b mod 16 * 4 + c div 64 < 64" using q by linarith+
  show "c mod 64 < 64" by simp
  show "(a mod 4 * 16 + b div 16) div 16 = a mod 4" "(a mod 4 * 16 + b div 16) mod 16 = b div 16"
    "(b mod 16 * 4 + c div 64) div 4 = b mod 16" "(b mod 16 * 4 + c div 64) mod 4 = c div 64"
    using q by auto
qed

lemma b64_roundtrip: "list_all (\<lambda>x. x < 256) bs \<Longrightarrow> b64decode (b64encode bs) = Inr bs"
  unfolding b64decode_def
proof (induction bs rule: b64encode.induct)
  case (1 a b c r)
  then have l: "a < 256" "b < 256" "c < 256" and ih: "a2b 0 0 0 (b64encode r) = Inr r" by auto
  show ?case using sextets [OF l] ih by (simp add: a2b_data del: a2b.simps)
next
  case (2 a b)
  then have l: "a < 256" "b < 256" "(0::nat) < 256" by auto
  show ?case using sextets [OF l] by (simp add: a2b_data del: a2b.simps(2)) simp
next
  case (3 a)
  then have l: "a < 256" "(0::nat) < 256" "(0::nat) < 256" by auto
  show ?case using sextets [OF l] by (simp add: a2b_data del: a2b.simps(2)) simp
next
  case 4
  show ?case by simp
qed

section \<open>The encryption layer\<close>

text \<open>\<open>__init__\<close>: the key is the digest of the key material, which must not be empty.\<close>

definition init_layer :: "codepoints \<Rightarrow> exc + byte list" where
  "init_layer key_material =
     (if key_material = [] then Inl (ValueError ''key_material must not be empty'')
      else result_bind (utf8_encode key_material) (\<lambda>raw. Inr (sha256 (map of_nat raw))))"

text \<open>\<open>bytes(value ^ self._key[idx % len(self._key)] for idx, value in enumerate(raw))\<close>.\<close>

definition xor_stream :: "byte list \<Rightarrow> nat list \<Rightarrow> nat list" where
  "xor_stream key raw =
     map (\<lambda>(idx, value). unat ((of_nat value :: byte) XOR key ! (idx mod length key)))
       (enumerate 0 raw)"

definition encrypt :: "byte list \<Rightarrow> codepoints option \<Rightarrow> exc + string option" where
  "encrypt key plaintext = (case plaintext of
      None \<Rightarrow> Inr None
    | Some t \<Rightarrow> result_bind (utf8_encode t) (\<lambda>raw. Inr (Some (b64encode (xor_stream key raw)))))"

definition is_ascii :: "string \<Rightarrow> bool" where
  "is_ascii s \<longleftrightarrow> list_all (\<lambda>c. (of_char c :: nat) < 128) s"

definition decrypt :: "byte list \<Rightarrow> string option \<Rightarrow> exc + codepoints option" where
  "decrypt key ciphertext = (case ciphertext of
      None \<Rightarrow> Inr None
    | Some c \<Rightarrow>
        if \<not> is_ascii c then Inl (ValueError ''ascii'')
        else result_bind (b64decode c) (\<lambda>cipher.
          result_bind (utf8_decode (xor_stream key cipher)) (\<lambda>t. Inr (Some t))))"

lemma xor_stream_bytes: "list_all (\<lambda>x. x < 256) (xor_stream key raw)"
proof -
  have "unat (w :: byte) < 256" for w
    using unsigned_less [where 'a = nat, of w] by simp
  then show ?thesis by (auto simp: xor_stream_def list_all_iff)
qed

lemma xor_stream_involution:
  assumes "list_all (\<lambda>x. x < 256) raw"
  shows "xor_stream key (xor_stream key raw) = raw"
proof (rule nth_equalityI)
  show "length (xor_stream key (xor_stream key raw)) = length raw"
    by (simp add: xor_stream_def)
next
  fix i
  assume "i < length (xor_stream key (xor_stream key raw))"
  then have i: "i < length raw" by (simp add: xor_stream_def)
  with assms have "raw ! i < 256" by (simp add: list_all_length)
  then have "unat (of_nat (raw ! i) :: byte) = raw ! i"
    by (simp add: unat_of_nat)
  with i show "xor_stream key (xor_stream key raw) ! i = raw ! i"
    by (simp add: xor_stream_def nth_enumerate_eq xor.assoc)
qed

lemma b64_char_ascii: "n < 64 \<Longrightarrow> (of_char (b64_char n) :: nat) < 128"
  by (auto simp: b64_char_def)

lemma b64encode_ascii: "list_all (\<lambda>x. x < 256) bs \<Longrightarrow> is_ascii (b64encode bs)"
  unfolding is_ascii_def
proof (induction bs rule: b64encode.induct)
  case (1 a b c r)
  then show ?case using sextets [of a b c] by (simp add: b64_char_ascii)
next
  case (2 a b)
  then show ?case using sextets [of a b 0] by (simp add: b64_char_ascii)
next
  case (3 a)
  then show ?case using sextets [of a 0 0] by (simp add: b64_char_ascii)
qed simp

lemma decrypt_encrypt: "encrypt key p = Inr c \<Longrightarrow> decrypt key c = Inr p"
proof (cases p)
  case None
  then show "encrypt key p = Inr c \<Longrightarrow> ?thesis" by (simp add: encrypt_def decrypt_def)
next
  case (Some t)
  assume "encrypt key p = Inr c"
  with Some obtain raw where
    raw: "utf8_encode t = Inr raw" and c: "c = Some (b64encode (xor_stream key raw))"
    by (auto simp: encrypt_def result_bind_Inr_iff)
  have "b64decode (b64encode (xor_stream key raw)) = Inr (xor_stream key raw)"
    by (rule b64_roundtrip [OF xor_stream_bytes])
  moreover have "xor_stream key (xor_stream key raw) = raw"
    by (rule xor_stream_involution [OF utf8_encode_bytes [OF raw]])
  ultimately show ?thesis
    using c Some utf8_roundtrip [OF raw] b64encode_ascii [OF xor_stream_bytes]
    by (simp add: decrypt_def)
qed

lemma encrypt_total: "list_all scalar_value t \<Longrightarrow> \<exists>c. encrypt key (Some t) = Inr (Some c)"
  using utf8_encode_ok [of t] by (auto simp: encrypt_def)

text \<open>Text as code points and back.\<close>

definition of_text :: "string \<Rightarrow> codepoints" where
  "of_text s = map of_char s"

definition to_text :: "codepoints \<Rightarrow> string" where
  "to_text t = map char_of t"

lemma to_text_of_text [simp]: "to_text (of_text t) = t"
  by (simp add: to_text_def of_text_def map_idI)

lemma scalar_value_char: "scalar_value (of_char c)"
  using nat_of_char_less_256 [of c] unfolding scalar_value_def
  by (auto simp del: nat_of_char_less_256)

lemma of_text_scalar: "list_all scalar_value (of_text t)"
  by (simp add: of_text_def list_all_iff scalar_value_char)

section \<open>The contract of a text codec\<close>

text \<open>
  What the task store needs of its encryption layer: an absent field stays absent, and a stored field
  reads back. Ciphertexts therefore determine their plaintexts.
\<close>

locale text_codec =
  fixes enc :: "'p option \<Rightarrow> exc + 'c option"
    and dec :: "'c option \<Rightarrow> exc + 'p option"
  assumes enc_None: "enc None = Inr None"
    and enc_Some: "enc (Some p) = Inr c \<Longrightarrow> c \<noteq> None"
    and dec_enc: "enc q = Inr c \<Longrightarrow> dec c = Inr q"
begin

lemma dec_None: "dec None = Inr None"
  by (rule dec_enc [OF enc_None])

lemma enc_injective: "enc p = Inr c \<Longrightarrow> enc q = Inr c \<Longrightarrow> p = q"
  using dec_enc [of p c] dec_enc [of q c] by simp

lemma enc_absent_iff: "enc p = Inr None \<longleftrightarrow> p = None"
  using enc_None enc_Some by (cases p) auto

end

interpretation layer: text_codec "encrypt key" "decrypt key" for key
  by unfold_locales (auto simp: encrypt_def result_bind_Inr_iff decrypt_encrypt)

text \<open>
  C11. Text that was encrypted by a layer decrypts, by a layer of the same key material, to the same
  text: encryption succeeds on every text free of surrogates, and decryption inverts it.
\<close>

theorem encryption_roundtrip:
  assumes "init_layer key_material = Inr key" and "list_all scalar_value t"
  shows "\<exists>c. encrypt key (Some t) = Inr (Some c) \<and> decrypt key (Some c) = Inr (Some t)
    \<and> (\<forall>u. encrypt key (Some u) = Inr (Some c) \<longrightarrow> u = t)"
proof -
  obtain c where c: "encrypt key (Some t) = Inr (Some c)"
    using encrypt_total [OF assms(2)] by blast
  moreover have "u = t" if "encrypt key (Some u) = Inr (Some c)" for u
    using layer.enc_injective [OF that c] by simp
  ultimately show ?thesis
    using layer.dec_enc [OF c] by blast
qed

theorem encryption_roundtrip_witness:
  "\<exists>key c. init_layer [107] = Inr key \<and> encrypt key (Some [104, 233, 8364, 128512]) = Inr (Some c)
     \<and> decrypt key (Some c) = Inr (Some [104, 233, 8364, 128512])"
proof -
  have k: "init_layer [107] = Inr (sha256 [107])"
    by (simp add: init_layer_def utf8_char_def)
  have t: "list_all scalar_value [104, 233, 8364, 128512]"
    by (simp add: scalar_value_def)
  show ?thesis using k encryption_roundtrip [OF k t] by blast
qed

end
