(* ===== verification/Lifecycle_Manager.thy ===== *)
theory Lifecycle_Manager
  imports Apcos_Prelude
begin

text \<open>
  \<open>core/memory/lifecycle_manager.py\<close>: the four task states, the legacy transition matrix, and the
  manager that asks an injected authorizer (or the matrix) and keeps the transition log. The locale
  \<open>lifecycle_policy\<close> states what makes a matrix a lifecycle: every step moves forward.
\<close>

section \<open>States and records\<close>

datatype task_state = CREATED | ACTIVE | COMPLETED | ARCHIVED

fun state_value :: "task_state \<Rightarrow> string" where
  "state_value CREATED = ''CREATED''"
| "state_value ACTIVE = ''ACTIVE''"
| "state_value COMPLETED = ''COMPLETED''"
| "state_value ARCHIVED = ''ARCHIVED''"

text \<open>The call \<open>TaskState(s)\<close>; \<open>None\<close> stands for its \<open>ValueError\<close>.\<close>

definition task_state_of :: "string \<Rightarrow> task_state option" where
  "task_state_of s =
     (if s = ''CREATED'' then Some CREATED else if s = ''ACTIVE'' then Some ACTIVE
      else if s = ''COMPLETED'' then Some COMPLETED else if s = ''ARCHIVED'' then Some ARCHIVED
      else None)"

fun legacy_allowed_transitions :: "task_state \<Rightarrow> task_state set" where
  "legacy_allowed_transitions CREATED = {ACTIVE, ARCHIVED}"
| "legacy_allowed_transitions ACTIVE = {COMPLETED, ARCHIVED}"
| "legacy_allowed_transitions COMPLETED = {ARCHIVED}"
| "legacy_allowed_transitions ARCHIVED = {}"

record transition_record =
  tr_task_id :: int
  tr_from_state :: task_state
  tr_to_state :: task_state
  tr_changed_at_utc :: string

record lifecycle_decision =
  ld_allowed :: bool
  ld_reason :: "string option"

text \<open>What an authorizer hands back: a decision, a plain \<open>bool\<close>, or anything else.\<close>

datatype authorizer_result = RawDecision lifecycle_decision | RawBool bool | RawOther

type_synonym transition_authorizer =
  "int \<Rightarrow> task_state \<Rightarrow> task_state \<Rightarrow> exc + authorizer_result"

record lifecycle_manager =
  lm_transition_log :: "transition_record list"
  lm_transition_authorizer :: "transition_authorizer option"
  lm_allow_legacy_fallback :: bool

text \<open>A state argument is an enum member or a string.\<close>

datatype state_arg = StateEnum task_state | StateStr string

lemma task_state_of_value [simp]: "task_state_of (state_value s) = Some s"
  by (cases s) (simp_all add: task_state_of_def)

lemma task_state_of_Some: "task_state_of v = Some s \<longleftrightarrow> v = state_value s"
  by (cases s) (auto simp: task_state_of_def split: if_splits)

lemma state_value_inj [simp]: "state_value s = state_value t \<longleftrightarrow> s = t"
  using task_state_of_value by (metis option.inject)

section \<open>Operations\<close>

definition init_lifecycle :: "transition_authorizer option \<Rightarrow> bool \<Rightarrow> lifecycle_manager" where
  "init_lifecycle authorizer fallback =
     \<lparr>lm_transition_log = [], lm_transition_authorizer = authorizer,
      lm_allow_legacy_fallback = fallback\<rparr>"

definition set_transition_authorizer ::
  "transition_authorizer option \<Rightarrow> lifecycle_manager \<Rightarrow> lifecycle_manager" where
  "set_transition_authorizer authorizer lm = lm\<lparr>lm_transition_authorizer := authorizer\<rparr>"

fun normalize_state :: "state_arg \<Rightarrow> exc + task_state" where
  "normalize_state (StateEnum s) = Inr s"
| "normalize_state (StateStr v) = (case task_state_of v of
      None \<Rightarrow> Inl (InvalidStateTransitionError (Some ''UNKNOWN_STATE'')) | Some s \<Rightarrow> Inr s)"

definition authorize_transition ::
  "lifecycle_manager \<Rightarrow> int \<Rightarrow> task_state \<Rightarrow> task_state \<Rightarrow> exc + lifecycle_decision" where
  "authorize_transition lm task_id from_state to_state =
     (case lm_transition_authorizer lm of
        Some authorizer \<Rightarrow> result_bind (authorizer task_id from_state to_state) (\<lambda>raw. Inr
          (case raw of
             RawDecision d \<Rightarrow> d
           | RawBool b \<Rightarrow> \<lparr>ld_allowed = b, ld_reason = (if b then None else Some ''EXTERNAL_DENIED'')\<rparr>
           | RawOther \<Rightarrow> \<lparr>ld_allowed = False, ld_reason = Some ''EXTERNAL_INVALID_RESULT''\<rparr>))
      | None \<Rightarrow>
          if lm_allow_legacy_fallback lm then
            (let allowed = to_state \<in> legacy_allowed_transitions from_state
             in Inr \<lparr>ld_allowed = allowed,
                     ld_reason = (if allowed then None else Some ''LEGACY_INVALID_TRANSITION'')\<rparr>)
          else Inr \<lparr>ld_allowed = False, ld_reason = Some ''LIFECYCLE_AUTH_UNAVAILABLE''\<rparr>)"

definition append_transition_record ::
  "py_env \<Rightarrow> int \<Rightarrow> task_state \<Rightarrow> task_state \<Rightarrow> (lifecycle_manager, unit) prog" where
  "append_transition_record env task_id from_state to_state lm =
     (Inr (), lm\<lparr>lm_transition_log := lm_transition_log lm @
        [\<lparr>tr_task_id = task_id, tr_from_state = from_state, tr_to_state = to_state,
          tr_changed_at_utc = env_now env 0\<rparr>]\<rparr>)"

definition can_transition :: "lifecycle_manager \<Rightarrow> state_arg \<Rightarrow> state_arg \<Rightarrow> exc + bool" where
  "can_transition lm from_state to_state =
     result_bind (normalize_state from_state) (\<lambda>src.
     result_bind (normalize_state to_state) (\<lambda>dst.
     result_bind (authorize_transition lm 0 src dst) (\<lambda>d. Inr (ld_allowed d))))"

definition assert_transition ::
  "py_env \<Rightarrow> int \<Rightarrow> state_arg \<Rightarrow> state_arg \<Rightarrow> (lifecycle_manager, unit) prog" where
  "assert_transition env task_id from_state to_state lm =
     (case result_bind (normalize_state from_state) (\<lambda>src.
           result_bind (normalize_state to_state) (\<lambda>dst.
           result_bind (authorize_transition lm task_id src dst) (\<lambda>d. Inr (src, dst, d)))) of
        Inl e \<Rightarrow> (Inl e, lm)
      | Inr (src, dst, d) \<Rightarrow>
          if \<not> ld_allowed d then (Inl (InvalidStateTransitionError (ld_reason d)), lm)
          else append_transition_record env task_id src dst lm)"

definition record_transition ::
  "py_env \<Rightarrow> int \<Rightarrow> state_arg \<Rightarrow> state_arg \<Rightarrow> (lifecycle_manager, unit) prog" where
  "record_transition env task_id from_state to_state lm =
     (case result_bind (normalize_state from_state) (\<lambda>src.
           result_bind (normalize_state to_state) (\<lambda>dst. Inr (src, dst))) of
        Inl e \<Rightarrow> (Inl e, lm)
      | Inr (src, dst) \<Rightarrow> append_transition_record env task_id src dst lm)"

definition get_transition_log :: "lifecycle_manager \<Rightarrow> transition_record list" where
  "get_transition_log lm = lm_transition_log lm"

section \<open>Lifecycle policies\<close>

text \<open>
  A transition matrix is a lifecycle when each allowed step strictly raises a rank below a bound and
  nothing leaves the terminal state. A history of a task then has no repeated state, at most
  \<open>bound - 1\<close> steps, and stops at the terminal state.
\<close>

locale lifecycle_policy =
  fixes allowed :: "'st \<Rightarrow> 'st \<Rightarrow> bool"
    and rank :: "'st \<Rightarrow> nat"
    and bound :: nat
    and terminal :: 'st
  assumes rank_step: "allowed s t \<Longrightarrow> rank s < rank t"
    and rank_bound: "rank s < bound"
    and terminal_stuck: "\<not> allowed terminal t"
    and terminal_reachable: "s \<noteq> terminal \<Longrightarrow> allowed s terminal"
begin

lemma no_self_loop: "\<not> allowed s s"
  using rank_step by blast

lemma history_rank: "rtranclp allowed s t \<Longrightarrow> rank s \<le> rank t"
  by (induction rule: rtranclp_induct) (auto dest: rank_step)

lemma no_return: "allowed s t \<Longrightarrow> \<not> rtranclp allowed t s"
  using rank_step history_rank by fastforce

lemma history_sorted: "successively allowed (s # ts) \<Longrightarrow> sorted_wrt (<) (map rank (s # ts))"
proof (induction ts arbitrary: s)
  case Nil
  then show ?case by simp
next
  case (Cons t ts)
  then have "allowed s t" and "sorted_wrt (<) (map rank (t # ts))" by auto
  then show ?case using rank_step [of s t] by (auto dest: less_trans)
qed

lemma history_distinct: "successively allowed ts \<Longrightarrow> distinct ts"
  using history_sorted by (cases ts) (auto simp: strict_sorted_iff distinct_map simp del: successively.simps)

lemma history_length: "successively allowed ts \<Longrightarrow> length ts \<le> bound"
proof -
  assume h: "successively allowed ts"
  have "card (rank ` set ts) \<le> card {..<bound}"
    by (rule card_mono) (auto simp: rank_bound)
  moreover have "distinct (map rank ts)"
    using history_sorted [of "hd ts" "tl ts"] h by (cases ts) (auto simp: strict_sorted_iff)
  ultimately show ?thesis by (metis card_lessThan distinct_card length_map list.set_map)
qed

lemma terminal_last: "successively allowed (ts @ [terminal] @ us) \<Longrightarrow> us = []"
  using terminal_stuck by (cases us) (auto simp: successively_append_iff)

end

fun state_rank :: "task_state \<Rightarrow> nat" where
  "state_rank CREATED = 0"
| "state_rank ACTIVE = 1"
| "state_rank COMPLETED = 2"
| "state_rank ARCHIVED = 3"

definition legacy_allowed :: "task_state \<Rightarrow> task_state \<Rightarrow> bool" where
  "legacy_allowed s t \<longleftrightarrow> t \<in> legacy_allowed_transitions s"

interpretation legacy: lifecycle_policy legacy_allowed state_rank 4 ARCHIVED
proof
  fix s t :: task_state
  show "legacy_allowed s t \<Longrightarrow> state_rank s < state_rank t"
    by (cases s; cases t) (auto simp: legacy_allowed_def)
  show "state_rank s < 4" by (cases s) auto
  show "\<not> legacy_allowed ARCHIVED t" by (simp add: legacy_allowed_def)
  show "s \<noteq> ARCHIVED \<Longrightarrow> legacy_allowed s ARCHIVED"
    by (cases s) (auto simp: legacy_allowed_def)
qed

section \<open>Authorization lemmas\<close>

lemma assert_transition_enum:
  "assert_transition env task_id (StateEnum src) (StateEnum dst) lm =
     (case authorize_transition lm task_id src dst of
        Inl e \<Rightarrow> (Inl e, lm)
      | Inr d \<Rightarrow> if ld_allowed d then append_transition_record env task_id src dst lm
                else (Inl (InvalidStateTransitionError (ld_reason d)), lm))"
  by (simp add: assert_transition_def split: sum.splits)

lemma record_transition_enum [simp]:
  "record_transition env task_id (StateEnum src) (StateEnum dst) =
     append_transition_record env task_id src dst"
  by (rule ext) (simp add: record_transition_def)

lemma authorize_legacy:
  "lm_transition_authorizer lm = None \<Longrightarrow> lm_allow_legacy_fallback lm \<Longrightarrow>
   authorize_transition lm task_id src dst =
     Inr \<lparr>ld_allowed = legacy_allowed src dst,
          ld_reason = (if legacy_allowed src dst then None else Some ''LEGACY_INVALID_TRANSITION'')\<rparr>"
  by (simp add: authorize_transition_def legacy_allowed_def)

lemma append_transition_record_simps [simp]:
  "lm_transition_authorizer (snd (append_transition_record env i s t lm)) = lm_transition_authorizer lm"
  "lm_allow_legacy_fallback (snd (append_transition_record env i s t lm)) = lm_allow_legacy_fallback lm"
  "fst (append_transition_record env i s t lm) = Inr ()"
  by (simp_all add: append_transition_record_def)

text \<open>
  A manager with neither an authorizer nor the legacy fallback authorizes nothing, and an
  authorizer that answers with something that is neither a decision nor a bool denies: asserting the
  transition raises with the reason code and the log is left as it was.
\<close>

theorem lifecycle_fails_closed:
  assumes "(lm_transition_authorizer lm = None \<and> \<not> lm_allow_legacy_fallback lm
      \<and> reason = ''LIFECYCLE_AUTH_UNAVAILABLE'') \<or>
    (\<exists>a. lm_transition_authorizer lm = Some a \<and> a task_id src dst = Inr RawOther
      \<and> reason = ''EXTERNAL_INVALID_RESULT'')"
  shows "assert_transition env task_id (StateEnum src) (StateEnum dst) lm =
    (Inl (InvalidStateTransitionError (Some reason)), lm)"
  using assms by (auto simp: assert_transition_enum authorize_transition_def)

theorem lifecycle_fails_closed_witness:
  "assert_transition stub_env 7 (StateEnum CREATED) (StateEnum ACTIVE) (init_lifecycle None False) =
     (Inl (InvalidStateTransitionError (Some ''LIFECYCLE_AUTH_UNAVAILABLE'')), init_lifecycle None False)
   \<and> fst (assert_transition stub_env 7 (StateEnum CREATED) (StateEnum ACTIVE)
         (init_lifecycle (Some (\<lambda>_ _ _. Inr RawOther)) True)) =
       Inl (InvalidStateTransitionError (Some ''EXTERNAL_INVALID_RESULT''))"
  using lifecycle_fails_closed [of "init_lifecycle None False" "''LIFECYCLE_AUTH_UNAVAILABLE''" 7 CREATED ACTIVE stub_env]
    lifecycle_fails_closed [of "init_lifecycle (Some (\<lambda>_ _ _. Inr RawOther)) True"
      "''EXTERNAL_INVALID_RESULT''" 7 CREATED ACTIVE stub_env]
  by (simp add: init_lifecycle_def)

end
