(* ===== verification/Rust_Bridge.thy ===== *)
theory Rust_Bridge
  imports Apcos_Prelude
begin

text \<open>
  \<open>services/ipc/rust_bridge.py\<close>: the envelopes exchanged with the Rust supervisor, the validation of
  an incoming line, the five authority requests with the gates that run a callback only after
  approval, and the line loop. The transports are callables supplied by the embedding process; JSON
  parsing and printing are taken as arguments. The abstract specification of a gate is \<open>gated\<close>, its
  contract the locale \<open>authority_gate\<close>, interpreted for all five gates.
\<close>

section \<open>Envelopes\<close>

definition MESSAGE_EVENT :: string where "MESSAGE_EVENT = ''EVENT''"
definition MESSAGE_STATE_UPDATE :: string where "MESSAGE_STATE_UPDATE = ''STATE_UPDATE''"
definition MESSAGE_AUTH_REQUEST :: string where "MESSAGE_AUTH_REQUEST = ''AUTH_REQUEST''"
definition MESSAGE_AUTH_RESULT :: string where "MESSAGE_AUTH_RESULT = ''AUTH_RESULT''"
definition MESSAGE_TRANSITION_VALIDATE :: string where
  "MESSAGE_TRANSITION_VALIDATE = ''TRANSITION_VALIDATE''"
definition MESSAGE_TRANSITION_RESULT :: string where
  "MESSAGE_TRANSITION_RESULT = ''TRANSITION_RESULT''"
definition MESSAGE_ENERGY_VALIDATE :: string where "MESSAGE_ENERGY_VALIDATE = ''ENERGY_VALIDATE''"
definition MESSAGE_ENERGY_RESULT :: string where "MESSAGE_ENERGY_RESULT = ''ENERGY_RESULT''"
definition MESSAGE_STORAGE_VALIDATE :: string where "MESSAGE_STORAGE_VALIDATE = ''STORAGE_VALIDATE''"
definition MESSAGE_STORAGE_RESULT :: string where "MESSAGE_STORAGE_RESULT = ''STORAGE_RESULT''"
definition MESSAGE_MEMORY_VALIDATE :: string where "MESSAGE_MEMORY_VALIDATE = ''MEMORY_VALIDATE''"
definition MESSAGE_MEMORY_RESULT :: string where "MESSAGE_MEMORY_RESULT = ''MEMORY_RESULT''"

definition MAX_MESSAGE_BYTES :: nat where "MAX_MESSAGE_BYTES = 64 * 1024"

definition message_types :: "string list" where
  "message_types =
     [MESSAGE_EVENT, MESSAGE_STATE_UPDATE, MESSAGE_AUTH_REQUEST, MESSAGE_AUTH_RESULT,
      MESSAGE_TRANSITION_VALIDATE, MESSAGE_TRANSITION_RESULT, MESSAGE_ENERGY_VALIDATE,
      MESSAGE_ENERGY_RESULT, MESSAGE_STORAGE_VALIDATE, MESSAGE_STORAGE_RESULT,
      MESSAGE_MEMORY_VALIDATE, MESSAGE_MEMORY_RESULT]"

lemmas message_defs =
  MESSAGE_EVENT_def MESSAGE_STATE_UPDATE_def MESSAGE_AUTH_REQUEST_def MESSAGE_AUTH_RESULT_def
  MESSAGE_TRANSITION_VALIDATE_def MESSAGE_TRANSITION_RESULT_def MESSAGE_ENERGY_VALIDATE_def
  MESSAGE_ENERGY_RESULT_def MESSAGE_STORAGE_VALIDATE_def MESSAGE_STORAGE_RESULT_def
  MESSAGE_MEMORY_VALIDATE_def MESSAGE_MEMORY_RESULT_def

text \<open>
  \<open>v in {...}\<close> hashes \<open>v\<close>: a list or a dict is unhashable and raises \<open>TypeError\<close>. The set holds
  strings only, so every other value is not in it.
\<close>

fun in_string_set :: "pyval \<Rightarrow> string list \<Rightarrow> exc + bool" where
  "in_string_set (PStr s) ss = Inr (s \<in> set ss)"
| "in_string_set (PList _) _ = Inl TypeError"
| "in_string_set (PDict _) _ = Inl TypeError"
| "in_string_set _ _ = Inr False"

text \<open>
  \<open>parse_envelope\<close>. The JSON reader is \<open>json_loads\<close>; its \<open>JSONDecodeError\<close> is caught, anything else
  it raises is not.
\<close>

definition parse_envelope ::
  "(string \<Rightarrow> exc + pyval) \<Rightarrow> nat \<Rightarrow> string \<Rightarrow> exc + pydict option" where
  "parse_envelope json_loads max_message_bytes line =
     (let trimmed = strip line in
      if trimmed = [] then Inr None
      else if max_message_bytes < utf8_length trimmed then Inr None
      else case json_loads trimmed of
        Inl JSONDecodeError \<Rightarrow> Inr None
      | Inl e \<Rightarrow> Inl e
      | Inr (PDict payload) \<Rightarrow>
          (let message_type = dict_get payload ''message_type'';
               timestamp = dict_get payload ''timestamp'';
               correlation_id = dict_get payload ''correlation_id'';
               body = dict_get payload ''payload''
           in result_bind (in_string_set message_type message_types) (\<lambda>known.
             if \<not> known then Inr None
             else if \<not> is_int timestamp then Inr None
             else if (case correlation_id of PStr c \<Rightarrow> strip c = [] | _ \<Rightarrow> True) then Inr None
             else if \<not> is_dict body then Inr None
             else Inr (Some [(''message_type'', message_type), (''timestamp'', timestamp),
                             (''correlation_id'', correlation_id), (''payload'', body)])))
      | Inr _ \<Rightarrow> Inr None)"

definition envelope :: "string \<Rightarrow> int \<Rightarrow> string \<Rightarrow> pydict \<Rightarrow> pydict" where
  "envelope message_type timestamp correlation_id payload =
     [(''message_type'', PStr message_type), (''timestamp'', PInt timestamp),
      (''correlation_id'', PStr correlation_id), (''payload'', PDict payload)]"

definition opt_str :: "string option \<Rightarrow> pyval" where
  "opt_str r = (case r of None \<Rightarrow> PNone | Some s \<Rightarrow> PStr s)"

text \<open>\<open>payload.update(details)\<close>.\<close>

definition build_state_update :: "int \<Rightarrow> string \<Rightarrow> string \<Rightarrow> pydict \<Rightarrow> pydict" where
  "build_state_update ts correlation_id component details =
     envelope MESSAGE_STATE_UPDATE ts correlation_id
       (fold (\<lambda>(k, v) d. dict_set d k v) details [(''component'', PStr component)])"

definition build_auth_request ::
  "int \<Rightarrow> string \<Rightarrow> string \<Rightarrow> string \<Rightarrow> string \<Rightarrow> bool \<Rightarrow> pydict" where
  "build_auth_request ts correlation_id user_id tier action authenticated =
     envelope MESSAGE_AUTH_REQUEST ts correlation_id
       [(''user_id'', PStr user_id), (''tier'', PStr tier), (''action'', PStr action),
        (''authenticated'', PBool authenticated)]"

definition build_auth_result :: "int \<Rightarrow> string \<Rightarrow> bool \<Rightarrow> string option \<Rightarrow> pydict" where
  "build_auth_result ts correlation_id allowed reason =
     envelope MESSAGE_AUTH_RESULT ts correlation_id
       [(''allowed'', PBool allowed), (''reason'', opt_str reason)]"

definition build_transition_validate :: "int \<Rightarrow> string \<Rightarrow> string \<Rightarrow> string \<Rightarrow> pydict" where
  "build_transition_validate ts correlation_id current_state requested_state =
     envelope MESSAGE_TRANSITION_VALIDATE ts correlation_id
       [(''current_state'', PStr current_state), (''requested_state'', PStr requested_state)]"

definition build_transition_result :: "int \<Rightarrow> string \<Rightarrow> bool \<Rightarrow> string option \<Rightarrow> pydict" where
  "build_transition_result ts correlation_id allowed reason =
     envelope MESSAGE_TRANSITION_RESULT ts correlation_id
       [(''allowed'', PBool allowed), (''reason'', opt_str reason)]"

definition build_energy_validate :: "int \<Rightarrow> string \<Rightarrow> int \<Rightarrow> string \<Rightarrow> pydict" where
  "build_energy_validate ts correlation_id battery_percent execution_type =
     envelope MESSAGE_ENERGY_VALIDATE ts correlation_id
       [(''battery_percent'', PInt battery_percent), (''execution_type'', PStr execution_type)]"

definition build_energy_result :: "int \<Rightarrow> string \<Rightarrow> bool \<Rightarrow> string option \<Rightarrow> pydict" where
  "build_energy_result ts correlation_id allowed reason =
     envelope MESSAGE_ENERGY_RESULT ts correlation_id
       [(''allowed'', PBool allowed), (''reason'', opt_str reason)]"

definition build_storage_validate ::
  "int \<Rightarrow> string \<Rightarrow> string \<Rightarrow> string \<Rightarrow> string \<Rightarrow> string \<Rightarrow> bool \<Rightarrow> string option \<Rightarrow> pydict" where
  "build_storage_validate ts correlation_id operation lifecycle_state energy_mode execution_type
      encryption_metadata_present encryption_key_id =
     envelope MESSAGE_STORAGE_VALIDATE ts correlation_id
       [(''operation'', PStr operation), (''lifecycle_state'', PStr lifecycle_state),
        (''energy_mode'', PStr energy_mode), (''execution_type'', PStr execution_type),
        (''encryption_metadata_present'', PBool encryption_metadata_present),
        (''encryption_key_id'', opt_str encryption_key_id)]"

definition build_storage_result ::
  "int \<Rightarrow> string \<Rightarrow> bool \<Rightarrow> string option \<Rightarrow> bool \<Rightarrow> bool \<Rightarrow> pydict" where
  "build_storage_result ts correlation_id allowed reason retention_applied encryption_verified =
     envelope MESSAGE_STORAGE_RESULT ts correlation_id
       [(''allowed'', PBool allowed), (''reason'', opt_str reason),
        (''retention_applied'', PBool retention_applied),
        (''encryption_verified'', PBool encryption_verified)]"

definition build_memory_validate ::
  "int \<Rightarrow> string \<Rightarrow> string \<Rightarrow> string \<Rightarrow> string \<Rightarrow> bool \<Rightarrow> pydict option \<Rightarrow> pydict" where
  "build_memory_validate ts correlation_id current_lifecycle_state operation energy_mode
      storage_permission_flag metadata_flags =
     envelope MESSAGE_MEMORY_VALIDATE ts correlation_id
       [(''current_lifecycle_state'', PStr current_lifecycle_state), (''operation'', PStr operation),
        (''energy_mode'', PStr energy_mode),
        (''storage_permission_flag'', PBool storage_permission_flag),
        (''metadata_flags'', PDict (case metadata_flags of None \<Rightarrow> [] | Some f \<Rightarrow> f))]"

definition build_memory_result ::
  "int \<Rightarrow> string \<Rightarrow> bool \<Rightarrow> string option \<Rightarrow> string option \<Rightarrow> bool \<Rightarrow> bool \<Rightarrow> pydict" where
  "build_memory_result ts correlation_id allowed reason target_state retention_applied tier_changed =
     envelope MESSAGE_MEMORY_RESULT ts correlation_id
       [(''allowed'', PBool allowed), (''reason'', opt_str reason),
        (''target_state'', opt_str target_state), (''retention_applied'', PBool retention_applied),
        (''tier_changed'', PBool tier_changed)]"

section \<open>Reading results\<close>

text \<open>The three checks every reader starts with: type, correlation id, object payload.\<close>

definition checked_payload :: "string \<Rightarrow> pydict \<Rightarrow> string option \<Rightarrow> pydict option" where
  "checked_payload message_type env expected_correlation_id =
     (if dict_get env ''message_type'' \<noteq> PStr message_type then None
      else if (case expected_correlation_id of None \<Rightarrow> False
                | Some c \<Rightarrow> dict_get env ''correlation_id'' \<noteq> PStr c) then None
      else case dict_get env ''payload'' of PDict p \<Rightarrow> Some p | _ \<Rightarrow> None)"

text \<open>A field that must be \<open>None\<close> or a string.\<close>

fun as_opt_str :: "pyval \<Rightarrow> string option option" where
  "as_opt_str PNone = Some None"
| "as_opt_str (PStr s) = Some (Some s)"
| "as_opt_str _ = None"

fun as_bool :: "pyval \<Rightarrow> bool option" where
  "as_bool (PBool b) = Some b"
| "as_bool _ = None"

definition parse_decision :: "pydict \<Rightarrow> (bool \<times> string option) option" where
  "parse_decision payload =
     (case as_bool (dict_get payload ''allowed'') of None \<Rightarrow> None
      | Some allowed \<Rightarrow> case as_opt_str (dict_get payload ''reason'') of None \<Rightarrow> None
      | Some reason \<Rightarrow> Some (allowed, reason))"

definition parse_auth_result :: "pydict \<Rightarrow> string option \<Rightarrow> (bool \<times> string option) option" where
  "parse_auth_result env expected =
     Option.bind (checked_payload MESSAGE_AUTH_RESULT env expected) parse_decision"

definition parse_transition_result :: "pydict \<Rightarrow> string option \<Rightarrow> (bool \<times> string option) option" where
  "parse_transition_result env expected =
     Option.bind (checked_payload MESSAGE_TRANSITION_RESULT env expected) parse_decision"

definition parse_energy_result :: "pydict \<Rightarrow> string option \<Rightarrow> (bool \<times> string option) option" where
  "parse_energy_result env expected =
     Option.bind (checked_payload MESSAGE_ENERGY_RESULT env expected) parse_decision"

definition parse_storage_result ::
  "pydict \<Rightarrow> string option \<Rightarrow> (bool \<times> string option \<times> bool \<times> bool) option" where
  "parse_storage_result env expected =
     Option.bind (checked_payload MESSAGE_STORAGE_RESULT env expected) (\<lambda>payload.
     Option.bind (parse_decision payload) (\<lambda>(allowed, reason).
     Option.bind (as_bool (dict_get payload ''retention_applied'')) (\<lambda>retention_applied.
     Option.bind (as_bool (dict_get payload ''encryption_verified'')) (\<lambda>encryption_verified.
       Some (allowed, reason, retention_applied, encryption_verified)))))"

definition parse_memory_result ::
  "pydict \<Rightarrow> string option \<Rightarrow> (bool \<times> string option \<times> string option \<times> bool \<times> bool) option" where
  "parse_memory_result env expected =
     Option.bind (checked_payload MESSAGE_MEMORY_RESULT env expected) (\<lambda>payload.
     Option.bind (parse_decision payload) (\<lambda>(allowed, reason).
     Option.bind (as_opt_str (dict_get payload ''target_state'')) (\<lambda>target_state.
     Option.bind (as_bool (dict_get payload ''retention_applied'')) (\<lambda>retention_applied.
     Option.bind (as_bool (dict_get payload ''tier_changed'')) (\<lambda>tier_changed.
       Some (allowed, reason, target_state, retention_applied, tier_changed))))))"

text \<open>Every result that is built reads back under its own correlation id.\<close>

lemma as_opt_str_opt_str [simp]: "as_opt_str (opt_str r) = Some r"
  by (cases r) (simp_all add: opt_str_def)

lemma dict_get_Cons [simp, py_simps]:
  "dict_get [] k = PNone" "dict_get ((j, v) # d) k = (if j = k then v else dict_get d k)"
  by (simp_all add: dict_get_def)

lemma checked_payload_envelope:
  "checked_payload m (envelope t ts c p) (Some d) = (if t = m \<and> c = d then Some p else None)"
  by (simp add: checked_payload_def envelope_def)

lemma parse_build_results:
  "parse_auth_result (build_auth_result ts c a r) (Some c) = Some (a, r)"
  "parse_transition_result (build_transition_result ts c a r) (Some c) = Some (a, r)"
  "parse_energy_result (build_energy_result ts c a r) (Some c) = Some (a, r)"
  "parse_storage_result (build_storage_result ts c a r x y) (Some c) = Some (a, r, x, y)"
  "parse_memory_result (build_memory_result ts c a r t x y) (Some c) = Some (a, r, t, x, y)"
  by (simp_all add: parse_auth_result_def parse_transition_result_def parse_energy_result_def
      parse_storage_result_def parse_memory_result_def build_auth_result_def
      build_transition_result_def build_energy_result_def build_storage_result_def
      build_memory_result_def checked_payload_envelope parse_decision_def)

section \<open>The bridge and its authority requests\<close>

type_synonym transport = "pydict \<Rightarrow> exc + pyval"

record rust_bridge =
  rb_auth_transport :: "transport option"
  rb_transition_transport :: "transport option"
  rb_energy_transport :: "transport option"
  rb_storage_transport :: "transport option"
  rb_memory_transport :: "transport option"
  rb_max_message_bytes :: nat

text \<open>\<open>self.x_transport or self.auth_transport\<close>.\<close>

definition first_transport :: "transport option \<Rightarrow> transport option \<Rightarrow> transport option" where
  "first_transport t auth = (case t of Some f \<Rightarrow> Some f | None \<Rightarrow> auth)"

definition request_authorization ::
  "'z rust_bridge_scheme \<Rightarrow> py_env \<Rightarrow> string \<Rightarrow> string \<Rightarrow> string \<Rightarrow> bool \<Rightarrow> string \<Rightarrow> exc + pydict" where
  "request_authorization br env user_id tier action authenticated correlation_id =
     (let request = build_auth_request (env_ms env 0) correlation_id user_id tier action authenticated;
          result = build_auth_result (env_ms env 1) correlation_id
      in case rb_auth_transport br of
        None \<Rightarrow> Inr (result False (Some ''AUTH_UNAVAILABLE''))
      | Some transport \<Rightarrow> result_bind (transport request) (\<lambda>response. Inr
          (case response of
             PDict d \<Rightarrow> (case parse_auth_result d (Some correlation_id) of
                 None \<Rightarrow> result False (Some ''AUTH_INVALID_RESPONSE'')
               | Some (allowed, reason) \<Rightarrow> result allowed reason)
           | _ \<Rightarrow> result False (Some ''AUTH_INVALID_RESPONSE''))))"

definition request_transition_validation ::
  "'z rust_bridge_scheme \<Rightarrow> py_env \<Rightarrow> string \<Rightarrow> string \<Rightarrow> string \<Rightarrow> exc + pydict" where
  "request_transition_validation br env current_state requested_state correlation_id =
     (let request = build_transition_validate (env_ms env 0) correlation_id current_state requested_state;
          result = build_transition_result (env_ms env 1) correlation_id
      in case first_transport (rb_transition_transport br) (rb_auth_transport br) of
        None \<Rightarrow> Inr (result False (Some ''TRANSITION_AUTH_UNAVAILABLE''))
      | Some transport \<Rightarrow> result_bind (transport request) (\<lambda>response. Inr
          (case response of
             PDict d \<Rightarrow> (case parse_transition_result d (Some correlation_id) of
                 None \<Rightarrow> result False (Some ''TRANSITION_INVALID_RESPONSE'')
               | Some (allowed, reason) \<Rightarrow> result allowed reason)
           | _ \<Rightarrow> result False (Some ''TRANSITION_INVALID_RESPONSE''))))"

definition request_energy_validation ::
  "'z rust_bridge_scheme \<Rightarrow> py_env \<Rightarrow> int \<Rightarrow> string \<Rightarrow> string \<Rightarrow> exc + pydict" where
  "request_energy_validation br env battery_percent execution_type correlation_id =
     (let request = build_energy_validate (env_ms env 0) correlation_id battery_percent execution_type;
          result = build_energy_result (env_ms env 1) correlation_id
      in case first_transport (rb_energy_transport br) (rb_auth_transport br) of
        None \<Rightarrow> Inr (result False (Some ''ENERGY_AUTH_UNAVAILABLE''))
      | Some transport \<Rightarrow> result_bind (transport request) (\<lambda>response. Inr
          (case response of
             PDict d \<Rightarrow> (case parse_energy_result d (Some correlation_id) of
                 None \<Rightarrow> result False (Some ''ENERGY_INVALID_RESPONSE'')
               | Some (allowed, reason) \<Rightarrow> result allowed reason)
           | _ \<Rightarrow> result False (Some ''ENERGY_INVALID_RESPONSE''))))"

text \<open>The fields of a storage and of a memory request.\<close>

record storage_request =
  sr_operation :: string
  sr_lifecycle_state :: string
  sr_energy_mode :: string
  sr_execution_type :: string
  sr_encryption_metadata_present :: bool
  sr_encryption_key_id :: "string option"

record memory_request =
  mr_current_lifecycle_state :: string
  mr_operation :: string
  mr_energy_mode :: string
  mr_storage_permission_flag :: bool
  mr_metadata_flags :: "pydict option"

definition storage_message :: "int \<Rightarrow> string \<Rightarrow> storage_request \<Rightarrow> pydict" where
  "storage_message ts correlation_id q =
     build_storage_validate ts correlation_id (sr_operation q) (sr_lifecycle_state q)
       (sr_energy_mode q) (sr_execution_type q) (sr_encryption_metadata_present q)
       (sr_encryption_key_id q)"

definition memory_message :: "int \<Rightarrow> string \<Rightarrow> memory_request \<Rightarrow> pydict" where
  "memory_message ts correlation_id q =
     build_memory_validate ts correlation_id (mr_current_lifecycle_state q) (mr_operation q)
       (mr_energy_mode q) (mr_storage_permission_flag q) (mr_metadata_flags q)"

definition request_storage_validation ::
  "'z rust_bridge_scheme \<Rightarrow> py_env \<Rightarrow> storage_request \<Rightarrow> string \<Rightarrow> exc + pydict" where
  "request_storage_validation br env q correlation_id =
     (let request = storage_message (env_ms env 0) correlation_id q;
          result = build_storage_result (env_ms env 1) correlation_id
      in case first_transport (rb_storage_transport br) (rb_auth_transport br) of
        None \<Rightarrow> Inr (result False (Some ''STORAGE_AUTH_UNAVAILABLE'') False False)
      | Some transport \<Rightarrow> result_bind (transport request) (\<lambda>response. Inr
          (case response of
             PDict d \<Rightarrow> (case parse_storage_result d (Some correlation_id) of
                 None \<Rightarrow> result False (Some ''STORAGE_INVALID_RESPONSE'') False False
               | Some (allowed, reason, retention_applied, encryption_verified) \<Rightarrow>
                   result allowed reason retention_applied encryption_verified)
           | _ \<Rightarrow> result False (Some ''STORAGE_INVALID_RESPONSE'') False False)))"

definition request_memory_validation ::
  "'z rust_bridge_scheme \<Rightarrow> py_env \<Rightarrow> memory_request \<Rightarrow> string \<Rightarrow> exc + pydict" where
  "request_memory_validation br env q correlation_id =
     (let request = memory_message (env_ms env 0) correlation_id q;
          result = build_memory_result (env_ms env 1) correlation_id
      in case first_transport (rb_memory_transport br) (rb_auth_transport br) of
        None \<Rightarrow> Inr (result False (Some ''MEMORY_AUTH_UNAVAILABLE'') None False False)
      | Some transport \<Rightarrow> result_bind (transport request) (\<lambda>response. Inr
          (case response of
             PDict d \<Rightarrow> (case parse_memory_result d (Some correlation_id) of
                 None \<Rightarrow> result False (Some ''MEMORY_INVALID_RESPONSE'') None False False
               | Some (allowed, reason, target_state, retention_applied, tier_changed) \<Rightarrow>
                   result allowed reason target_state retention_applied tier_changed)
           | _ \<Rightarrow> result False (Some ''MEMORY_INVALID_RESPONSE'') None False False)))"

section \<open>The gates\<close>

type_synonym 'a gate_result = "bool \<times> 'a option \<times> string option"

definition authorize_and_maybe_route ::
  "'z rust_bridge_scheme \<Rightarrow> py_env \<Rightarrow> string \<Rightarrow> string \<Rightarrow> string \<Rightarrow> bool \<Rightarrow> string
   \<Rightarrow> ('s, 'a) prog \<Rightarrow> ('s, 'a gate_result) prog" where
  "authorize_and_maybe_route br env user_id tier action authenticated correlation_id route_callable =
     and_then (lift_result (request_authorization br env user_id tier action authenticated correlation_id))
       (\<lambda>auth_result. case parse_auth_result auth_result (Some correlation_id) of
          None \<Rightarrow> ret (False, None, Some ''AUTH_INVALID_RESPONSE'')
        | Some (allowed, reason) \<Rightarrow>
            if \<not> allowed then ret (False, None, Some (or_else reason ''ACCESS_DENIED''))
            else and_then route_callable (\<lambda>x. ret (True, Some x, None)))"

definition validate_transition_and_maybe_route ::
  "'z rust_bridge_scheme \<Rightarrow> py_env \<Rightarrow> string \<Rightarrow> string \<Rightarrow> string
   \<Rightarrow> ('s, 'a) prog \<Rightarrow> ('s, 'a gate_result) prog" where
  "validate_transition_and_maybe_route br env current_state requested_state correlation_id route_callable =
     and_then (lift_result (request_transition_validation br env current_state requested_state correlation_id))
       (\<lambda>transition_result. case parse_transition_result transition_result (Some correlation_id) of
          None \<Rightarrow> ret (False, None, Some ''TRANSITION_INVALID_RESPONSE'')
        | Some (allowed, reason) \<Rightarrow>
            if \<not> allowed then ret (False, None, Some (or_else reason ''INVALID_TRANSITION''))
            else and_then route_callable (\<lambda>x. ret (True, Some x, None)))"

definition validate_energy_and_maybe_execute ::
  "'z rust_bridge_scheme \<Rightarrow> py_env \<Rightarrow> int \<Rightarrow> string \<Rightarrow> string
   \<Rightarrow> ('s, 'a) prog \<Rightarrow> ('s, 'a gate_result) prog" where
  "validate_energy_and_maybe_execute br env battery_percent execution_type correlation_id execute_callable =
     and_then (lift_result (request_energy_validation br env battery_percent execution_type correlation_id))
       (\<lambda>result. case parse_energy_result result (Some correlation_id) of
          None \<Rightarrow> ret (False, None, Some ''ENERGY_INVALID_RESPONSE'')
        | Some (allowed, reason) \<Rightarrow>
            if \<not> allowed then ret (False, None, Some (or_else reason ''ENERGY_DENIED''))
            else and_then execute_callable (\<lambda>x. ret (True, Some x, None)))"

definition validate_storage_and_maybe_execute ::
  "'z rust_bridge_scheme \<Rightarrow> py_env \<Rightarrow> storage_request \<Rightarrow> string
   \<Rightarrow> ('s, 'a) prog \<Rightarrow> ('s, 'a gate_result) prog" where
  "validate_storage_and_maybe_execute br env q correlation_id execute_callable =
     and_then (lift_result (request_storage_validation br env q correlation_id))
       (\<lambda>result. case parse_storage_result result (Some correlation_id) of
          None \<Rightarrow> ret (False, None, Some ''STORAGE_INVALID_RESPONSE'')
        | Some (allowed, reason, _, _) \<Rightarrow>
            if \<not> allowed then ret (False, None, Some (or_else reason ''STORAGE_DENIED''))
            else and_then execute_callable (\<lambda>x. ret (True, Some x, None)))"

definition validate_memory_and_maybe_transition ::
  "'z rust_bridge_scheme \<Rightarrow> py_env \<Rightarrow> memory_request \<Rightarrow> string
   \<Rightarrow> ('s, 'a) prog \<Rightarrow> ('s, 'a gate_result) prog" where
  "validate_memory_and_maybe_transition br env q correlation_id transition_callable =
     and_then (lift_result (request_memory_validation br env q correlation_id))
       (\<lambda>result. case parse_memory_result result (Some correlation_id) of
          None \<Rightarrow> ret (False, None, Some ''MEMORY_INVALID_RESPONSE'')
        | Some (allowed, reason, _, _, _) \<Rightarrow>
            if \<not> allowed then ret (False, None, Some (or_else reason ''MEMORY_DENIED''))
            else and_then transition_callable (\<lambda>x. ret (True, Some x, None)))"

section \<open>The abstract gate\<close>

text \<open>
  Specification. Consulting an authority: no transport or an answer that is not a well-formed result
  of the expected type for this correlation id means denied; otherwise the answer decides. A gate
  runs its callback exactly when the verdict is positive, and never touches the state otherwise.
\<close>

definition consult ::
  "transport option \<Rightarrow> pydict \<Rightarrow> (pydict \<Rightarrow> (bool \<times> string option) option)
   \<Rightarrow> string \<Rightarrow> string \<Rightarrow> string \<Rightarrow> exc + bool \<times> string" where
  "consult transport request reader unavailable invalid denied =
     (case transport of
        None \<Rightarrow> Inr (False, unavailable)
      | Some t \<Rightarrow> result_bind (t request) (\<lambda>response. Inr
          (case response of
             PDict d \<Rightarrow> (case reader d of
                 None \<Rightarrow> (False, invalid) | Some (a, r) \<Rightarrow> (a, or_else r denied))
           | _ \<Rightarrow> (False, invalid))))"

definition gated :: "exc + bool \<times> string \<Rightarrow> ('s, 'a) prog \<Rightarrow> ('s, 'a gate_result) prog" where
  "gated verdict p =
     (case verdict of
        Inl e \<Rightarrow> raise_exc e
      | Inr (allowed, reason) \<Rightarrow>
          if allowed then and_then p (\<lambda>x. ret (True, Some x, None))
          else ret (False, None, Some reason))"

definition storage_verdict ::
  "'z rust_bridge_scheme \<Rightarrow> py_env \<Rightarrow> storage_request \<Rightarrow> string \<Rightarrow> exc + bool \<times> string" where
  "storage_verdict br env q c =
     consult (first_transport (rb_storage_transport br) (rb_auth_transport br))
       (storage_message (env_ms env 0) c q)
       (\<lambda>d. map_option (\<lambda>(a, r, _, _). (a, r)) (parse_storage_result d (Some c)))
       ''STORAGE_AUTH_UNAVAILABLE'' ''STORAGE_INVALID_RESPONSE'' ''STORAGE_DENIED''"

definition memory_verdict ::
  "'z rust_bridge_scheme \<Rightarrow> py_env \<Rightarrow> memory_request \<Rightarrow> string \<Rightarrow> exc + bool \<times> string" where
  "memory_verdict br env q c =
     consult (first_transport (rb_memory_transport br) (rb_auth_transport br))
       (memory_message (env_ms env 0) c q)
       (\<lambda>d. map_option (\<lambda>(a, r, _, _, _). (a, r)) (parse_memory_result d (Some c)))
       ''MEMORY_AUTH_UNAVAILABLE'' ''MEMORY_INVALID_RESPONSE'' ''MEMORY_DENIED''"

definition auth_verdict ::
  "'z rust_bridge_scheme \<Rightarrow> py_env \<Rightarrow> string \<Rightarrow> string \<Rightarrow> string \<Rightarrow> bool \<Rightarrow> string \<Rightarrow> exc + bool \<times> string" where
  "auth_verdict br env user_id tier action authenticated c =
     consult (rb_auth_transport br)
       (build_auth_request (env_ms env 0) c user_id tier action authenticated)
       (\<lambda>d. parse_auth_result d (Some c))
       ''AUTH_UNAVAILABLE'' ''AUTH_INVALID_RESPONSE'' ''ACCESS_DENIED''"

definition transition_verdict ::
  "'z rust_bridge_scheme \<Rightarrow> py_env \<Rightarrow> string \<Rightarrow> string \<Rightarrow> string \<Rightarrow> exc + bool \<times> string" where
  "transition_verdict br env current_state requested_state c =
     consult (first_transport (rb_transition_transport br) (rb_auth_transport br))
       (build_transition_validate (env_ms env 0) c current_state requested_state)
       (\<lambda>d. parse_transition_result d (Some c))
       ''TRANSITION_AUTH_UNAVAILABLE'' ''TRANSITION_INVALID_RESPONSE'' ''INVALID_TRANSITION''"

definition energy_verdict ::
  "'z rust_bridge_scheme \<Rightarrow> py_env \<Rightarrow> int \<Rightarrow> string \<Rightarrow> string \<Rightarrow> exc + bool \<times> string" where
  "energy_verdict br env battery_percent execution_type c =
     consult (first_transport (rb_energy_transport br) (rb_auth_transport br))
       (build_energy_validate (env_ms env 0) c battery_percent execution_type)
       (\<lambda>d. parse_energy_result d (Some c))
       ''ENERGY_AUTH_UNAVAILABLE'' ''ENERGY_INVALID_RESPONSE'' ''ENERGY_DENIED''"

text \<open>Each gate of the code is the abstract gate of its verdict.\<close>

lemmas gate_unfold = consult_def gated_def and_then_def parse_build_results Let_def

lemma storage_gate_gated:
  "validate_storage_and_maybe_execute br env q c p = gated (storage_verdict br env q c) p"
  by (rule ext)
    (auto simp: validate_storage_and_maybe_execute_def request_storage_validation_def
      storage_verdict_def gate_unfold result_bind_def
      split: option.splits sum.splits pyval.splits prod.splits)

lemma memory_gate_gated:
  "validate_memory_and_maybe_transition br env q c p = gated (memory_verdict br env q c) p"
  by (rule ext)
    (auto simp: validate_memory_and_maybe_transition_def request_memory_validation_def
      memory_verdict_def gate_unfold result_bind_def
      split: option.splits sum.splits pyval.splits prod.splits)

lemma auth_gate_gated:
  "authorize_and_maybe_route br env u t a b c p = gated (auth_verdict br env u t a b c) p"
  by (rule ext)
    (auto simp: authorize_and_maybe_route_def request_authorization_def
      auth_verdict_def gate_unfold result_bind_def
      split: option.splits sum.splits pyval.splits prod.splits)

lemma transition_gate_gated:
  "validate_transition_and_maybe_route br env s t c p = gated (transition_verdict br env s t c) p"
  by (rule ext)
    (auto simp: validate_transition_and_maybe_route_def request_transition_validation_def
      transition_verdict_def gate_unfold result_bind_def
      split: option.splits sum.splits pyval.splits prod.splits)

lemma energy_gate_gated:
  "validate_energy_and_maybe_execute br env b x c p = gated (energy_verdict br env b x c) p"
  by (rule ext)
    (auto simp: validate_energy_and_maybe_execute_def request_energy_validation_def
      energy_verdict_def gate_unfold result_bind_def
      split: option.splits sum.splits pyval.splits prod.splits)

text \<open>
  The contract the stores rely on: a verdict that is an error propagates, a negative verdict returns a
  non-empty reason and leaves the state alone, a positive one runs the callback.
\<close>

locale authority_gate =
  fixes gate :: "('s, 'a) prog \<Rightarrow> ('s, 'a gate_result) prog"
    and verdict :: "exc + bool \<times> string"
  assumes gate_raise: "verdict = Inl e \<Longrightarrow> gate p s = (Inl e, s)"
    and gate_deny: "verdict = Inr (False, r) \<Longrightarrow> gate p s = (Inr (False, None, Some r), s)"
    and gate_grant: "verdict = Inr (True, r) \<Longrightarrow> gate p s = and_then p (\<lambda>x. ret (True, Some x, None)) s"
    and deny_reason: "verdict = Inr (False, r) \<Longrightarrow> r \<noteq> []"
begin

lemma not_granted_unchanged: "(\<forall>r. verdict \<noteq> Inr (True, r)) \<Longrightarrow> snd (gate p s) = s"
  by (cases verdict) (auto simp: gate_raise gate_deny)

lemma changed_granted: "snd (gate p s) \<noteq> s \<Longrightarrow> \<exists>r. verdict = Inr (True, r)"
proof (rule ccontr)
  assume changed: "snd (gate p s) \<noteq> s" and "\<nexists>r. verdict = Inr (True, r)"
  then have "snd (gate p s) = s" by (intro not_granted_unchanged) simp
  with changed show False by (rule notE)
qed

lemma gate_keeps: "keeps I p \<Longrightarrow> keeps I (gate p)"
proof
  fix s
  assume p: "keeps I p" and s: "I s"
  show "I (snd (gate p s))"
  proof (cases "\<exists>r. verdict = Inr (True, r)")
    case True
    have "keeps I (and_then p (\<lambda>x. ret (True, Some x, None)))"
      using p by blast
    then show ?thesis using s True gate_grant by (auto dest: keepsD)
  next
    case False
    then have "snd (gate p s) = s" by (intro not_granted_unchanged) blast
    with s show ?thesis by simp
  qed
qed

lemma gate_allowed_iff:
  "gate p s = (Inr (True, x, r), s') \<longleftrightarrow>
     (\<exists>q y. verdict = Inr (True, q) \<and> p s = (Inr y, s') \<and> x = Some y \<and> r = None)"
proof (cases verdict)
  case (Inl e)
  then show ?thesis by (simp add: gate_raise)
next
  case (Inr v)
  obtain a q where v: "v = (a, q)" by fastforce
  show ?thesis
  proof (cases a)
    case True
    with Inr v have "gate p s = and_then p (\<lambda>x. ret (True, Some x, None)) s"
      by (simp add: gate_grant)
    then show ?thesis using Inr v True by (auto simp: and_then_Inr_iff)
  next
    case False
    with Inr v show ?thesis by (simp add: gate_deny)
  qed
qed

lemma gate_denied: "gate p s = (Inr (False, x, r), s') \<Longrightarrow> s' = s \<and> x = None \<and> (\<exists>q. r = Some q \<and> q \<noteq> [])"
proof (cases verdict)
  case (Inr v)
  obtain a q where v: "v = (a, q)" by fastforce
  assume g: "gate p s = (Inr (False, x, r), s')"
  show ?thesis
  proof (cases a)
    case True
    with Inr v g show ?thesis by (auto simp: gate_grant and_then_Inr_iff)
  next
    case False
    with Inr v g show ?thesis using deny_reason [of q] by (auto simp: gate_deny)
  qed
qed (simp add: gate_raise)

end

lemma consult_reason:
  assumes "consult t req rd u i d = Inr (False, r)" and "u \<noteq> []" "i \<noteq> []" "d \<noteq> []"
  shows "r \<noteq> []"
proof (cases t)
  case None
  with assms show ?thesis by (auto simp: consult_def)
next
  case (Some f)
  with assms obtain response where "f req = Inr response"
    by (auto simp: consult_def result_bind_Inr_iff)
  with Some assms show ?thesis
    by (cases response) (auto simp: consult_def or_else_ne split: option.splits prod.splits)
qed

lemma gated_laws:
  "verdict = Inl e \<Longrightarrow> gated verdict p s = (Inl e, s)"
  "verdict = Inr (False, r) \<Longrightarrow> gated verdict p s = (Inr (False, None, Some r), s)"
  "verdict = Inr (True, r) \<Longrightarrow> gated verdict p s = and_then p (\<lambda>x. ret (True, Some x, None)) s"
  by (simp_all add: gated_def)

interpretation storage_gate: authority_gate
  "validate_storage_and_maybe_execute br env q c" "storage_verdict br env q c" for br env q c
  by unfold_locales (auto simp: storage_gate_gated gated_laws storage_verdict_def dest: consult_reason)

interpretation memory_gate: authority_gate
  "validate_memory_and_maybe_transition br env q c" "memory_verdict br env q c" for br env q c
  by unfold_locales (auto simp: memory_gate_gated gated_laws memory_verdict_def dest: consult_reason)

interpretation auth_gate: authority_gate
  "authorize_and_maybe_route br env u t a b c" "auth_verdict br env u t a b c" for br env u t a b c
  by unfold_locales (auto simp: auth_gate_gated gated_laws auth_verdict_def dest: consult_reason)

interpretation transition_gate: authority_gate
  "validate_transition_and_maybe_route br env x y c" "transition_verdict br env x y c" for br env x y c
  by unfold_locales (auto simp: transition_gate_gated gated_laws transition_verdict_def dest: consult_reason)

interpretation energy_gate: authority_gate
  "validate_energy_and_maybe_execute br env b x c" "energy_verdict br env b x c" for br env b x c
  by unfold_locales (auto simp: energy_gate_gated gated_laws energy_verdict_def dest: consult_reason)

section \<open>Incoming lines\<close>

text \<open>
  The session state of the bridge adds the correlation ids seen so far; the event handler is a
  callable of the embedding process that acts on a state of its own, the \<open>'w\<close>.
\<close>

record 'w bridge_session = rust_bridge +
  rb_event_handler :: "(pydict \<Rightarrow> ('w, unit) prog) option"
  rb_seen_correlation_ids :: "string set"

definition consumed_types :: "string list" where
  "consumed_types =
     [MESSAGE_STATE_UPDATE, MESSAGE_AUTH_RESULT, MESSAGE_TRANSITION_RESULT, MESSAGE_ENERGY_RESULT,
      MESSAGE_STORAGE_RESULT, MESSAGE_MEMORY_RESULT, MESSAGE_AUTH_REQUEST,
      MESSAGE_TRANSITION_VALIDATE, MESSAGE_ENERGY_VALIDATE, MESSAGE_STORAGE_VALIDATE,
      MESSAGE_MEMORY_VALIDATE]"

definition process_line ::
  "(string \<Rightarrow> exc + pyval) \<Rightarrow> py_env \<Rightarrow> string \<Rightarrow> ('w bridge_session \<times> 'w, pydict option) prog" where
  "process_line json_loads env line = (\<lambda>(br, w).
     case parse_envelope json_loads (rb_max_message_bytes br) line of
       Inl e \<Rightarrow> (Inl e, (br, w))
     | Inr None \<Rightarrow> (Inr None, (br, w))
     | Inr (Some message) \<Rightarrow>
         (let correlation_id = py_str env (dict_get message ''correlation_id'') in
          if correlation_id \<in> rb_seen_correlation_ids br then (Inr None, (br, w))
          else let br' = br\<lparr>rb_seen_correlation_ids :=
                        insert correlation_id (rb_seen_correlation_ids br)\<rparr> in
            if dict_get message ''message_type'' \<in> PStr ` set consumed_types then (Inr None, (br', w))
            else let event_payload = (case dict_get message ''payload'' of PDict p \<Rightarrow> p | _ \<Rightarrow> []) in
              case (case rb_event_handler br of None \<Rightarrow> (Inr (), w) | Some h \<Rightarrow> h event_payload w) of
                (Inl e, w') \<Rightarrow> (Inl e, (br', w'))
              | (Inr _, w') \<Rightarrow>
                  (let event_name = py_str env (dict_get_or event_payload ''event'' (PStr ''Unknown''))
                   in (Inr (Some (build_state_update (env_ms env 0) correlation_id ''RustBridge''
                        [(''received_event'', PStr event_name), (''status'', PStr ''accepted'')])),
                       (br', w')))))"

text \<open>\<open>send_message\<close> writes the JSON text and a newline; \<open>run_forever\<close> stops at the end of the input
  or at the first exception.\<close>

definition send_message :: "(pydict \<Rightarrow> string) \<Rightarrow> pydict \<Rightarrow> string list \<Rightarrow> string list" where
  "send_message json_dumps message out_stream = out_stream @ [json_dumps message, [char_of (10 :: nat)]]"

fun run_forever ::
  "(string \<Rightarrow> exc + pyval) \<Rightarrow> (pydict \<Rightarrow> string) \<Rightarrow> (nat \<Rightarrow> py_env) \<Rightarrow> string list
   \<Rightarrow> ('w bridge_session \<times> 'w) \<times> string list
   \<Rightarrow> (exc + unit) \<times> ('w bridge_session \<times> 'w) \<times> string list" where
  "run_forever loads dumps env [] (s, out) = (Inr (), s, out)"
| "run_forever loads dumps env (line # lines) (s, out) =
     (case process_line loads (env 0) line s of
        (Inl e, s') \<Rightarrow> (Inl e, s', out)
      | (Inr None, s') \<Rightarrow> run_forever loads dumps (\<lambda>i. env (Suc i)) lines (s', out)
      | (Inr (Some outgoing), s') \<Rightarrow>
          run_forever loads dumps (\<lambda>i. env (Suc i)) lines (s', send_message dumps outgoing out))"

section \<open>Lemmas on incoming lines\<close>

text \<open>The shape of an accepted envelope.\<close>

lemma parse_envelope_Some:
  assumes "parse_envelope loads n line = Inr (Some m)"
  obtains t ts c b where
    "m = [(''message_type'', PStr t), (''timestamp'', ts), (''correlation_id'', PStr c), (''payload'', PDict b)]"
    "t \<in> set message_types" "is_int ts" "strip c \<noteq> []"
    "\<exists>p. loads (strip line) = Inr (PDict p) \<and> dict_get p ''message_type'' = PStr t
       \<and> dict_get p ''correlation_id'' = PStr c \<and> dict_get p ''payload'' = PDict b"
proof -
  from assms obtain p where p: "loads (strip line) = Inr (PDict p)"
    by (auto simp: parse_envelope_def Let_def split: if_splits sum.splits exc.splits pyval.splits)
  let ?mt = "dict_get p ''message_type''" and ?c = "dict_get p ''correlation_id''"
    and ?b = "dict_get p ''payload''" and ?ts = "dict_get p ''timestamp''"
  from assms p have known: "in_string_set ?mt message_types = Inr True" and ts: "is_int ?ts"
    and c: "\<not> (case ?c of PStr c \<Rightarrow> strip c = [] | _ \<Rightarrow> True)" and b: "is_dict ?b"
    and m: "m = [(''message_type'', ?mt), (''timestamp'', ?ts), (''correlation_id'', ?c), (''payload'', ?b)]"
    by (auto simp: parse_envelope_def Let_def result_bind_Inr_iff split: if_splits)
  from known obtain t where t: "?mt = PStr t" "t \<in> set message_types"
    by (cases ?mt) auto
  from c obtain i where i: "?c = PStr i" "strip i \<noteq> []" by (cases ?c) auto
  from b obtain d where d: "?b = PDict d" by (cases ?b) auto
  show thesis using that [of t ?ts i d] m t i d ts p by simp
qed

lemma message_types_split: "set message_types = insert MESSAGE_EVENT (set consumed_types)"
  by (auto simp: message_types_def consumed_types_def)

lemma event_not_consumed: "MESSAGE_EVENT \<notin> set consumed_types"
  by (simp add: consumed_types_def message_defs)

text \<open>What one line does: nothing, or mark one new id, or mark one new id and answer it.\<close>

lemma process_line_cases:
  fixes br :: "'w bridge_session"
  assumes "process_line loads env line (br, w) = (r, (br', w'))"
  obtains (ignored) "br' = br" "w' = w" "r = Inr None \<or> (\<exists>e. r = Inl e)"
  | (consumed) c where "c \<notin> rb_seen_correlation_ids br" "w' = w" "r = Inr None"
      "br' = br\<lparr>rb_seen_correlation_ids := insert c (rb_seen_correlation_ids br)\<rparr>"
  | (event) c b where "c \<notin> rb_seen_correlation_ids br"
      "br' = br\<lparr>rb_seen_correlation_ids := insert c (rb_seen_correlation_ids br)\<rparr>"
      "case rb_event_handler br of None \<Rightarrow> w' = w | Some h \<Rightarrow> w' = snd (h b w)"
      "(\<exists>e. r = Inl e) \<or> (\<exists>ts d. r = Inr (Some (build_state_update ts c ''RustBridge'' d)))"
      "\<exists>p. loads (strip line) = Inr (PDict p) \<and> dict_get p ''message_type'' = PStr MESSAGE_EVENT
         \<and> dict_get p ''correlation_id'' = PStr c \<and> dict_get p ''payload'' = PDict b"
proof (cases "parse_envelope loads (rb_max_message_bytes br) line")
  case (Inl e)
  with assms have "r = Inl e" "br' = br" "w' = w" by (simp_all add: process_line_def)
  then show thesis by (intro ignored) auto
next
  case (Inr res)
  show thesis
  proof (cases res)
    case None
    with Inr assms show thesis by (intro ignored) (auto simp: process_line_def)
  next
    case (Some m)
    with Inr obtain t ts c b where m:
      "m = [(''message_type'', PStr t), (''timestamp'', ts), (''correlation_id'', PStr c), (''payload'', PDict b)]"
      and t: "t \<in> set message_types"
      and src: "\<exists>p. loads (strip line) = Inr (PDict p) \<and> dict_get p ''message_type'' = PStr t
       \<and> dict_get p ''correlation_id'' = PStr c \<and> dict_get p ''payload'' = PDict b"
      by (auto elim: parse_envelope_Some)
    note eqs = assms Inr Some m
    consider "c \<in> rb_seen_correlation_ids br"
      | "c \<notin> rb_seen_correlation_ids br" "t \<in> set consumed_types"
      | "c \<notin> rb_seen_correlation_ids br" "t \<notin> set consumed_types" by blast
    then show thesis
    proof cases
      case 1
      with eqs show thesis by (intro ignored) (auto simp: process_line_def)
    next
      case 2
      with eqs show thesis by (intro consumed [of c]) (auto simp: process_line_def)
    next
      case 3
      with t have "t = MESSAGE_EVENT" by (simp add: message_types_split)
      with 3 eqs src show thesis
        by (intro event [of c b])
          (auto simp: process_line_def image_iff Let_def split: option.splits prod.splits sum.splits)
    qed
  qed
qed

text \<open>The frame of a line: the ids only grow, everything else of the bridge stays.\<close>

lemma process_line_frame:
  assumes "process_line loads env line (br, w) = (r, (br', w'))"
  shows "rb_seen_correlation_ids br \<subseteq> rb_seen_correlation_ids br'"
    "br' = br\<lparr>rb_seen_correlation_ids := rb_seen_correlation_ids br'\<rparr>"
  using assms by (rule process_line_cases; auto)+

definition answers_to :: "string set \<Rightarrow> string set \<Rightarrow> pydict list \<Rightarrow> bool" where
  "answers_to old new ms \<longleftrightarrow>
     (\<exists>cs. distinct cs \<and> set cs \<subseteq> new - old \<and>
       list_all2 (\<lambda>c m. \<exists>ts d. m = build_state_update ts c ''RustBridge'' d) cs ms)"

lemma answers_to_Nil: "answers_to old new []"
  by (auto simp: answers_to_def)

lemma answers_to_mono: "answers_to old new ms \<Longrightarrow> old' \<subseteq> old \<Longrightarrow> new \<subseteq> new' \<Longrightarrow> answers_to old' new' ms"
  by (fastforce simp: answers_to_def)

lemma answers_to_Cons:
  "answers_to mid new ms \<Longrightarrow> c \<notin> old \<Longrightarrow> insert c old \<subseteq> mid \<Longrightarrow> c \<in> new \<Longrightarrow>
   answers_to old new (build_state_update ts c ''RustBridge'' d # ms)"
  unfolding answers_to_def
proof (elim exE conjE)
  fix cs
  assume a: "c \<notin> old" "insert c old \<subseteq> mid" "c \<in> new" "distinct cs" "set cs \<subseteq> new - mid"
    "list_all2 (\<lambda>c m. \<exists>ts d. m = build_state_update ts c ''RustBridge'' d) cs ms"
  show "\<exists>cs. distinct cs \<and> set cs \<subseteq> new - old \<and>
     list_all2 (\<lambda>c m. \<exists>ts d. m = build_state_update ts c ''RustBridge'' d) cs
       (build_state_update ts c ''RustBridge'' d # ms)"
    by (rule exI [of _ "c # cs"]) (use a in auto)
qed

lemma run_forever_answers:
  assumes "run_forever loads dumps env lines ((br, w), out) = (r, (br', w'), out')"
  shows "rb_seen_correlation_ids br \<subseteq> rb_seen_correlation_ids br' \<and>
    (\<exists>ms. out' = out @ concat (map (\<lambda>m. send_message dumps m []) ms) \<and>
      answers_to (rb_seen_correlation_ids br) (rb_seen_correlation_ids br') ms)"
  using assms
proof (induction lines arbitrary: env br w out)
  case Nil
  then show ?case by (auto intro!: exI [of _ "[]"] answers_to_Nil)
next
  case (Cons line lines)
  obtain q b1 w1 where pl: "process_line loads (env 0) line (br, w) = (q, (b1, w1))"
    by (metis surj_pair)
  note frame = process_line_frame [OF pl]
  show ?case
  proof (cases q)
    case (Inl e)
    with Cons.prems pl have "br' = b1" "out' = out" by simp_all
    then show ?thesis using frame by (auto intro!: exI [of _ "[]"] answers_to_Nil)
  next
    case (Inr a)
    show ?thesis
    proof (cases a)
      case None
      with Inr Cons.prems pl have
        "run_forever loads dumps (\<lambda>i. env (Suc i)) lines ((b1, w1), out) = (r, (br', w'), out')"
        by simp
      from Cons.IH [OF this] frame(1) show ?thesis by (blast intro: answers_to_mono)
    next
      case (Some m)
      with Inr Cons.prems pl have
        "run_forever loads dumps (\<lambda>i. env (Suc i)) lines ((b1, w1), send_message dumps m out) = (r, (br', w'), out')"
        by simp
      note ih = Cons.IH [OF this]
      from pl Inr Some obtain c ts d where
        m: "m = build_state_update ts c ''RustBridge'' d" and c: "c \<notin> rb_seen_correlation_ids br"
        and b1: "b1 = br\<lparr>rb_seen_correlation_ids := insert c (rb_seen_correlation_ids br)\<rparr>"
        by (auto elim!: process_line_cases)
      from ih obtain ms where
        out': "out' = send_message dumps m out @ concat (map (\<lambda>m. send_message dumps m []) ms)"
        and ms: "answers_to (rb_seen_correlation_ids b1) (rb_seen_correlation_ids br') ms"
        and sub: "rb_seen_correlation_ids b1 \<subseteq> rb_seen_correlation_ids br'" by blast
      have "answers_to (rb_seen_correlation_ids br) (rb_seen_correlation_ids br') (m # ms)"
        unfolding m by (rule answers_to_Cons [OF ms c]) (use b1 sub in auto)
      moreover have "out' = out @ concat (map (\<lambda>m. send_message dumps m []) (m # ms))"
        by (simp add: out' send_message_def)
      ultimately show ?thesis using frame(1) sub by blast
    qed
  qed
qed

section \<open>Properties\<close>

text \<open>
  C10. Each of the five authority gates of the bridge is the abstract fail-closed gate over its own
  verdict: the request, the validation of the response, the default reasons and the callback are
  composed as the specification says.
\<close>

theorem gates_refine_abstract_gate:
  "authorize_and_maybe_route br env u t a b c p = gated (auth_verdict br env u t a b c) p
   \<and> validate_transition_and_maybe_route br env x y c p = gated (transition_verdict br env x y c) p
   \<and> validate_energy_and_maybe_execute br env n x c p = gated (energy_verdict br env n x c) p
   \<and> validate_storage_and_maybe_execute br env q c p = gated (storage_verdict br env q c) p
   \<and> validate_memory_and_maybe_transition br env k c p = gated (memory_verdict br env k c) p"
  by (intro conjI auth_gate_gated transition_gate_gated energy_gate_gated storage_gate_gated
      memory_gate_gated)

lemma consult_granted:
  assumes "consult t req rd u i d = Inr (True, r)"
  shows "\<exists>f resp q. t = Some f \<and> f req = Inr (PDict resp) \<and> rd resp = Some (True, q)"
proof (cases t)
  case None
  with assms show ?thesis by (simp add: consult_def)
next
  case (Some f)
  with assms obtain response where "f req = Inr response"
    by (auto simp: consult_def result_bind_Inr_iff)
  with Some assms show ?thesis
    by (cases response) (auto simp: consult_def split: option.splits prod.splits)
qed

lemma checked_payload_Some:
  "checked_payload m d (Some c) = Some p \<longleftrightarrow>
     dict_get d ''message_type'' = PStr m \<and> dict_get d ''correlation_id'' = PStr c
     \<and> dict_get d ''payload'' = PDict p"
  by (auto simp: checked_payload_def split: pyval.splits)

lemma parse_decision_allowed:
  "parse_decision p = Some (True, r) \<Longrightarrow> dict_get p ''allowed'' = PBool True"
  by (cases "dict_get p ''allowed''") (auto simp: parse_decision_def split: option.splits)

definition approved :: "string \<Rightarrow> string \<Rightarrow> pydict \<Rightarrow> bool" where
  "approved m c d \<longleftrightarrow> dict_get d ''message_type'' = PStr m \<and> dict_get d ''correlation_id'' = PStr c \<and>
     (\<exists>b. dict_get d ''payload'' = PDict b \<and> dict_get b ''allowed'' = PBool True)"

lemma approved_storage:
  "map_option (\<lambda>(a, r, _, _). (a, r)) (parse_storage_result d (Some c)) = Some (True, q)
   \<Longrightarrow> approved MESSAGE_STORAGE_RESULT c d"
  by (auto simp: parse_storage_result_def checked_payload_Some bind_eq_Some_conv approved_def
      dest: parse_decision_allowed)

lemma approved_memory:
  "map_option (\<lambda>(a, r, _, _, _). (a, r)) (parse_memory_result d (Some c)) = Some (True, q)
   \<Longrightarrow> approved MESSAGE_MEMORY_RESULT c d"
  by (auto simp: parse_memory_result_def checked_payload_Some bind_eq_Some_conv approved_def
      dest: parse_decision_allowed)

lemma storage_verdict_granted:
  "storage_verdict br env q c = Inr (True, r) \<Longrightarrow>
   \<exists>t d. first_transport (rb_storage_transport br) (rb_auth_transport br) = Some t
     \<and> t (storage_message (env_ms env 0) c q) = Inr (PDict d) \<and> approved MESSAGE_STORAGE_RESULT c d"
  using consult_granted [of _ _ _ _ _ _ r] approved_storage unfolding storage_verdict_def by blast

lemma memory_verdict_granted:
  "memory_verdict br env q c = Inr (True, r) \<Longrightarrow>
   \<exists>t d. first_transport (rb_memory_transport br) (rb_auth_transport br) = Some t
     \<and> t (memory_message (env_ms env 0) c q) = Inr (PDict d) \<and> approved MESSAGE_MEMORY_RESULT c d"
  using consult_granted [of _ _ _ _ _ _ r] approved_memory unfolding memory_verdict_def by blast

text \<open>
  C9. A gated storage write or memory transition has no effect on the state unless the transport that
  is configured for it answered this very request with an object of the right message type, with the
  same correlation id, whose payload has \<open>allowed\<close> set to true. No transport, an exception, a
  malformed answer, an answer to another request or a denial leave the state as it was.
\<close>

theorem mutation_needs_approval:
  "(snd (validate_storage_and_maybe_execute br env q c p s) \<noteq> s \<longrightarrow>
     (\<exists>t d b. first_transport (rb_storage_transport br) (rb_auth_transport br) = Some t
        \<and> t (storage_message (env_ms env 0) c q) = Inr (PDict d)
        \<and> dict_get d ''message_type'' = PStr MESSAGE_STORAGE_RESULT
        \<and> dict_get d ''correlation_id'' = PStr c
        \<and> dict_get d ''payload'' = PDict b \<and> dict_get b ''allowed'' = PBool True))
   \<and> (snd (validate_memory_and_maybe_transition br env k c p s) \<noteq> s \<longrightarrow>
     (\<exists>t d b. first_transport (rb_memory_transport br) (rb_auth_transport br) = Some t
        \<and> t (memory_message (env_ms env 0) c k) = Inr (PDict d)
        \<and> dict_get d ''message_type'' = PStr MESSAGE_MEMORY_RESULT
        \<and> dict_get d ''correlation_id'' = PStr c
        \<and> dict_get d ''payload'' = PDict b \<and> dict_get b ''allowed'' = PBool True))"
proof (intro conjI impI)
  assume "snd (validate_storage_and_maybe_execute br env q c p s) \<noteq> s"
  from storage_gate.changed_granted [OF this]
  obtain r where "storage_verdict br env q c = Inr (True, r)" ..
  from storage_verdict_granted [OF this]
  show "\<exists>t d b. first_transport (rb_storage_transport br) (rb_auth_transport br) = Some t
        \<and> t (storage_message (env_ms env 0) c q) = Inr (PDict d)
        \<and> dict_get d ''message_type'' = PStr MESSAGE_STORAGE_RESULT
        \<and> dict_get d ''correlation_id'' = PStr c
        \<and> dict_get d ''payload'' = PDict b \<and> dict_get b ''allowed'' = PBool True"
    unfolding approved_def by blast
next
  assume "snd (validate_memory_and_maybe_transition br env k c p s) \<noteq> s"
  from memory_gate.changed_granted [OF this]
  obtain r where "memory_verdict br env k c = Inr (True, r)" ..
  from memory_verdict_granted [OF this]
  show "\<exists>t d b. first_transport (rb_memory_transport br) (rb_auth_transport br) = Some t
        \<and> t (memory_message (env_ms env 0) c k) = Inr (PDict d)
        \<and> dict_get d ''message_type'' = PStr MESSAGE_MEMORY_RESULT
        \<and> dict_get d ''correlation_id'' = PStr c
        \<and> dict_get d ''payload'' = PDict b \<and> dict_get b ''allowed'' = PBool True"
    unfolding approved_def by blast
qed

text \<open>A transport that approves every storage request, for the witness.\<close>

definition approving_transport :: transport where
  "approving_transport m =
     Inr (PDict (build_storage_result 0 (py_str stub_env (dict_get m ''correlation_id'')) True None
       False True))"

definition approving_bridge :: rust_bridge where
  "approving_bridge = \<lparr>rb_auth_transport = None, rb_transition_transport = None,
     rb_energy_transport = None, rb_storage_transport = Some approving_transport,
     rb_memory_transport = None, rb_max_message_bytes = MAX_MESSAGE_BYTES\<rparr>"

definition sample_request :: storage_request where
  "sample_request = \<lparr>sr_operation = ''WRITE_TASK'', sr_lifecycle_state = ''CREATED'',
     sr_energy_mode = ''STRATEGIC'', sr_execution_type = ''BACKGROUND_TASK'',
     sr_encryption_metadata_present = True, sr_encryption_key_id = Some ''k''\<rparr>"

lemmas storage_eval = storage_gate_gated storage_verdict_def consult_def approving_bridge_def
  approving_transport_def first_transport_def storage_message_def build_storage_validate_def
  envelope_def sample_request_def parse_build_results gated_def and_then_def

theorem mutation_needs_approval_witness:
  "snd (validate_storage_and_maybe_execute approving_bridge stub_env sample_request ''c''
      (\<lambda>n::nat. (Inr (), Suc n)) 0) = 1
   \<and> (\<exists>t d b. rb_storage_transport approving_bridge = Some t
        \<and> t (storage_message (env_ms stub_env 0) ''c'' sample_request) = Inr (PDict d)
        \<and> dict_get d ''payload'' = PDict b \<and> dict_get b ''allowed'' = PBool True)"
proof -
  have changed: "snd (validate_storage_and_maybe_execute approving_bridge stub_env sample_request ''c''
      (\<lambda>n::nat. (Inr (), Suc n)) 0) = 1"
    by (simp add: storage_eval)
  then have "snd (validate_storage_and_maybe_execute approving_bridge stub_env sample_request ''c''
      (\<lambda>n::nat. (Inr (), Suc n)) 0) \<noteq> 0"
    by simp
  from mutation_needs_approval [THEN conjunct1, THEN mp, OF this] changed show ?thesis
    by (auto simp: approving_bridge_def first_transport_def)
qed

text \<open>
  C13. Over a whole session the bridge writes only STATE_UPDATE answers, answers a correlation id at
  most once, and never one it had already seen: the ids of the answers, in order, are distinct and
  were new at the start.
\<close>

theorem each_correlation_id_answered_once:
  assumes "run_forever loads dumps env lines ((br, w), out) = (r, (br', w'), out')"
  shows "\<exists>ms cs. out' = out @ concat (map (\<lambda>m. [dumps m, [char_of (10 :: nat)]]) ms)
    \<and> distinct cs \<and> set cs \<inter> rb_seen_correlation_ids br = {} \<and> set cs \<subseteq> rb_seen_correlation_ids br'
    \<and> map (\<lambda>m. dict_get m ''correlation_id'') ms = map PStr cs
    \<and> (\<forall>m\<in>set ms. dict_get m ''message_type'' = PStr MESSAGE_STATE_UPDATE)"
proof -
  obtain ms cs where out': "out' = out @ concat (map (\<lambda>m. send_message dumps m []) ms)"
    and cs: "distinct cs" "set cs \<subseteq> rb_seen_correlation_ids br' - rb_seen_correlation_ids br"
    and l: "list_all2 (\<lambda>c m. \<exists>ts d. m = build_state_update ts c ''RustBridge'' d) cs ms"
    using run_forever_answers [OF assms] unfolding answers_to_def by blast
  have "map (\<lambda>m. dict_get m ''correlation_id'') ms = map PStr cs
      \<and> (\<forall>m\<in>set ms. dict_get m ''message_type'' = PStr MESSAGE_STATE_UPDATE)"
    using l by (induction cs ms rule: list_all2_induct) (auto simp: build_state_update_def envelope_def)
  then show ?thesis
    using out' cs by (intro exI [of _ ms] exI [of _ cs]) (auto simp: send_message_def)
qed

definition sample_event :: pydict where
  "sample_event = envelope MESSAGE_EVENT 0 ''c1'' [(''event'', PStr ''TaskCreated'')]"

definition sample_session :: "unit bridge_session" where
  "sample_session = \<lparr>rb_auth_transport = None, rb_transition_transport = None,
     rb_energy_transport = None, rb_storage_transport = None, rb_memory_transport = None,
     rb_max_message_bytes = MAX_MESSAGE_BYTES, rb_event_handler = None,
     rb_seen_correlation_ids = {}\<rparr>"

theorem each_correlation_id_answered_once_witness:
  "\<exists>r br' w' out' ms cs.
     run_forever (\<lambda>_. Inr (PDict sample_event)) (\<lambda>_. ''{}'') (\<lambda>_. stub_env) [''x'', ''y'']
       ((sample_session, ()), []) = (r, (br', w'), out')
     \<and> length out' = 2 \<and> out' = concat (map (\<lambda>m. [''{}'', [char_of (10 :: nat)]]) (ms :: pydict list))
     \<and> distinct cs \<and> map (\<lambda>m. dict_get m ''correlation_id'') ms = map PStr cs"
proof -
  let ?run = "run_forever (\<lambda>_. Inr (PDict sample_event)) (\<lambda>_. ''{}'') (\<lambda>_. stub_env) [''x'', ''y'']
       ((sample_session, ()), [])"
  obtain r br' w' out' where run: "?run = (r, (br', w'), out')" by (metis surj_pair)
  have two: "length (snd (snd ?run)) = 2"
    by (simp add: process_line_def parse_envelope_def strip_def is_space_def sample_session_def
        sample_event_def envelope_def MAX_MESSAGE_BYTES_def utf8_length_def message_types_def
        consumed_types_def message_defs send_message_def image_iff Let_def)
  from each_correlation_id_answered_once [OF run] run two show ?thesis by fastforce
qed

text \<open>
  Only a line that holds an EVENT envelope has an outward effect: whatever else arrives, the
  handler is not called and nothing is sent back. In particular a request to authorize or validate
  something is never answered by the Python side, and its own STATE_UPDATE messages do not loop.
\<close>

theorem only_events_act:
  assumes "process_line loads env line (br, w) = (r, (br', w'))"
    and "w' \<noteq> w \<or> (\<exists>m. r = Inr (Some m))"
  shows "\<exists>p c. loads (strip line) = Inr (PDict p) \<and> dict_get p ''message_type'' = PStr MESSAGE_EVENT
    \<and> dict_get p ''correlation_id'' = PStr c \<and> c \<notin> rb_seen_correlation_ids br
    \<and> c \<in> rb_seen_correlation_ids br'"
  using assms by (auto elim!: process_line_cases)

theorem only_events_act_witness:
  "\<exists>p c. Inr (PDict sample_event) = Inr (PDict p)
     \<and> dict_get p ''message_type'' = PStr MESSAGE_EVENT \<and> dict_get p ''correlation_id'' = PStr c
     \<and> c \<notin> rb_seen_correlation_ids sample_session"
proof -
  let ?step = "process_line (\<lambda>_. Inr (PDict sample_event)) stub_env ''x'' (sample_session, ())"
  obtain r br' w' where step: "?step = (r, (br', w'))" by (metis surj_pair)
  have "\<exists>m. fst ?step = Inr (Some m)"
    by (simp add: process_line_def parse_envelope_def strip_def is_space_def sample_session_def
        sample_event_def envelope_def MAX_MESSAGE_BYTES_def utf8_length_def message_types_def
        consumed_types_def message_defs image_iff Let_def)
  with step have "\<exists>m. r = Inr (Some m)" by simp
  then show ?thesis using only_events_act [OF step] by blast
qed

text \<open>
  A line whose \<open>message_type\<close> is a JSON array or object does not come back as rejected: the set
  membership test hashes it, \<open>parse_envelope\<close> raises \<open>TypeError\<close>, and the line loop ends there with
  the lines behind it unread.
\<close>

theorem unhashable_message_type_stops_loop:
  assumes "loads (strip line) = Inr (PDict p)" and "strip line \<noteq> []"
    and "utf8_length (strip line) \<le> rb_max_message_bytes br"
    and "dict_get p ''message_type'' = PList xs \<or> dict_get p ''message_type'' = PDict d"
  shows "parse_envelope loads (rb_max_message_bytes br) line = Inl TypeError
    \<and> run_forever loads dumps env (line # lines) ((br, w), out) = (Inl TypeError, (br, w), out)"
proof -
  have "parse_envelope loads (rb_max_message_bytes br) line = Inl TypeError"
    using assms by (auto simp: parse_envelope_def Let_def)
  then show ?thesis by (simp add: process_line_def)
qed

theorem unhashable_message_type_stops_loop_witness:
  "run_forever (\<lambda>_. Inr (PDict [(''message_type'', PList [])])) (\<lambda>_. ''{}'') (\<lambda>_. stub_env)
     [''x'', ''y''] ((sample_session, ()), []) = (Inl TypeError, (sample_session, ()), [])"
  using unhashable_message_type_stops_loop [of "\<lambda>_. Inr (PDict [(''message_type'', PList [])])" "''x''"
      "[(''message_type'', PList [])]" sample_session "[]" "[]" "\<lambda>_. ''{}''" "\<lambda>_. stub_env" "[''y'']" "()" "[]"]
  by (simp add: strip_def is_space_def sample_session_def MAX_MESSAGE_BYTES_def utf8_length_def)

end
