(* ===== verification/Task_Store.thy ===== *)
theory Task_Store
  imports Encryption_Layer Lifecycle_Manager Rust_Bridge "HOL-Library.Sublist"
begin

text \<open>
  \<open>core/memory/task_store.py\<close>: the SQLite-backed task table with encrypted text columns, every
  operation of \<open>TaskStore\<close> with its storage and memory gates, the table invariant, the abstract
  store (a map from task ids to task records) with the refinement lemmas, and the lifecycle
  history of a task as the transition log records it.

  The table is the list of its rows in rowid order with the \<open>AUTOINCREMENT\<close> counter. A value bound to
  a column must fit a signed 64-bit integer, otherwise \<open>sqlite3\<close> raises \<open>OverflowError\<close>; statements
  on a closed connection raise \<open>ProgrammingError\<close>; a full rowid range raises \<open>OperationalError\<close>.
  Text goes into and out of the encryption layer as code points.
\<close>

section \<open>The table\<close>

record task_row =
  row_id :: int
  row_title_enc :: string
  row_description_enc :: "string option"
  row_goal_enc :: "string option"
  row_due_at :: "string option"
  row_priority :: int
  row_state :: string
  row_created_at :: string
  row_updated_at :: string
  row_archived_at :: "string option"

record task_record =
  task_id :: int
  task_title :: string
  task_description :: "string option"
  task_goal :: "string option"
  task_due_at :: "string option"
  task_priority :: int
  task_status :: task_state
  task_created_at :: string
  task_updated_at :: string
  task_archived_at :: "string option"

record task_store =
  ts_rows :: "task_row list"
  ts_seq :: int
  ts_open :: bool
  ts_key :: "byte list"
  ts_storage_encryption_key_id :: string
  ts_lifecycle :: lifecycle_manager
  ts_storage_bridge :: "rust_bridge option"
  ts_enforce_storage_authority :: bool
  ts_storage_energy_mode :: string
  ts_storage_execution_type :: string
  ts_memory_bridge :: "rust_bridge option"
  ts_enforce_memory_authority :: bool
  ts_memory_energy_mode :: string

text \<open>The arguments of the constructor that have defaults.\<close>

record store_options =
  so_storage_bridge :: "rust_bridge option"
  so_enforce_storage_authority :: bool
  so_storage_energy_mode :: string
  so_storage_execution_type :: string
  so_memory_bridge :: "rust_bridge option"
  so_enforce_memory_authority :: bool
  so_memory_energy_mode :: string

definition default_options :: store_options where
  "default_options = \<lparr>so_storage_bridge = None, so_enforce_storage_authority = False,
     so_storage_energy_mode = ''STRATEGIC'', so_storage_execution_type = ''BACKGROUND_TASK'',
     so_memory_bridge = None, so_enforce_memory_authority = False,
     so_memory_energy_mode = ''STRATEGIC''\<rparr>"

text \<open>
  \<open>__init__\<close> with \<open>_init_schema\<close>: the table is empty for a new database, otherwise what the file
  holds. The memory bridge falls back to the storage bridge.
\<close>

definition init_store ::
  "string \<Rightarrow> lifecycle_manager option \<Rightarrow> store_options \<Rightarrow> task_row list \<Rightarrow> int \<Rightarrow> exc + task_store" where
  "init_store encryption_key lifecycle_manager opts rows seq =
     result_bind (init_layer (of_text encryption_key)) (\<lambda>key. Inr
       \<lparr>ts_rows = rows, ts_seq = seq, ts_open = True, ts_key = key,
        ts_storage_encryption_key_id = ''python-'' @ take 16 (hexdigest key),
        ts_lifecycle = (case lifecycle_manager of Some lm \<Rightarrow> lm | None \<Rightarrow> init_lifecycle None True),
        ts_storage_bridge = so_storage_bridge opts,
        ts_enforce_storage_authority = so_enforce_storage_authority opts,
        ts_storage_energy_mode = so_storage_energy_mode opts,
        ts_storage_execution_type = so_storage_execution_type opts,
        ts_memory_bridge = (case so_memory_bridge opts of Some b \<Rightarrow> Some b | None \<Rightarrow> so_storage_bridge opts),
        ts_enforce_memory_authority = so_enforce_memory_authority opts,
        ts_memory_energy_mode = so_memory_energy_mode opts\<rparr>)"

section \<open>Statements\<close>

definition max_int64 :: int where
  "max_int64 = 9223372036854775807"

definition fits_int64 :: "int \<Rightarrow> bool" where
  "fits_int64 i \<longleftrightarrow> - max_int64 - 1 \<le> i \<and> i \<le> max_int64"

text \<open>What \<open>self._conn.execute(sql, params)\<close> checks before it runs: the connection, then the
  integers among the parameters.\<close>

definition db_check :: "task_store \<Rightarrow> int list \<Rightarrow> exc + unit" where
  "db_check s ints =
     (if \<not> ts_open s then Inl (OtherError ''ProgrammingError'')
      else if \<exists>i\<in>set ints. \<not> fits_int64 i then Inl OverflowError else Inr ())"

definition find_row :: "task_row list \<Rightarrow> int \<Rightarrow> task_row option" where
  "find_row rows i = find (\<lambda>r. row_id r = i) rows"

definition update_rows :: "int \<Rightarrow> (task_row \<Rightarrow> task_row) \<Rightarrow> task_row list \<Rightarrow> task_row list" where
  "update_rows i f rows = map (\<lambda>r. if row_id r = i then f r else r) rows"

definition row_to_record :: "byte list \<Rightarrow> task_row \<Rightarrow> exc + task_record" where
  "row_to_record key row =
     result_bind (decrypt key (Some (row_title_enc row))) (\<lambda>title.
     result_bind (decrypt key (row_description_enc row)) (\<lambda>description.
     result_bind (decrypt key (row_goal_enc row)) (\<lambda>goal.
     case task_state_of (row_state row) of
       None \<Rightarrow> Inl (ValueError ''not a valid TaskState'')
     | Some st \<Rightarrow> Inr \<lparr>task_id = row_id row,
         task_title = (case title of None \<Rightarrow> [] | Some t \<Rightarrow> to_text t),
         task_description = map_option to_text description, task_goal = map_option to_text goal,
         task_due_at = row_due_at row, task_priority = row_priority row, task_status = st,
         task_created_at = row_created_at row, task_updated_at = row_updated_at row,
         task_archived_at = row_archived_at row\<rparr>)))"

section \<open>Queries\<close>

definition get_task :: "task_store \<Rightarrow> int \<Rightarrow> exc + task_record option" where
  "get_task s i =
     result_bind (db_check s [i]) (\<lambda>_.
       case find_row (ts_rows s) i of
         None \<Rightarrow> Inr None
       | Some row \<Rightarrow> result_bind (row_to_record (ts_key s) row) (\<lambda>r. Inr (Some r)))"

fun map_result :: "('a \<Rightarrow> exc + 'b) \<Rightarrow> 'a list \<Rightarrow> exc + 'b list" where
  "map_result f [] = Inr []"
| "map_result f (x # xs) = result_bind (f x) (\<lambda>y. result_bind (map_result f xs) (\<lambda>ys. Inr (y # ys)))"

definition list_tasks :: "task_store \<Rightarrow> bool \<Rightarrow> exc + task_record list" where
  "list_tasks s include_archived =
     result_bind (db_check s []) (\<lambda>_.
       let selected = (if include_archived then ts_rows s
                       else filter (\<lambda>r. row_state r \<noteq> state_value ARCHIVED) (ts_rows s))
       in map_result (row_to_record (ts_key s)) (sort_key (\<lambda>r. - row_id r) selected))"

section \<open>Row statements\<close>

text \<open>\<open>self._encryption.encrypt(v.strip()) if v else None\<close> for an untyped \<open>v\<close>.\<close>

definition encrypt_stripped :: "byte list \<Rightarrow> pyval \<Rightarrow> exc + string option" where
  "encrypt_stripped key v =
     (if \<not> truthy v then Inr None
      else case v of PStr t \<Rightarrow> encrypt key (Some (of_text (strip t))) | _ \<Rightarrow> Inl AttributeError)"

definition encrypt_text :: "byte list \<Rightarrow> string \<Rightarrow> exc + string" where
  "encrypt_text key t = result_bind (encrypt key (Some (of_text t))) (\<lambda>c.
     Inr (case c of None \<Rightarrow> [] | Some x \<Rightarrow> x))"

definition create_task_row ::
  "string \<Rightarrow> pyval \<Rightarrow> pyval \<Rightarrow> string option \<Rightarrow> int \<Rightarrow> string \<Rightarrow> (task_store, int) prog" where
  "create_task_row cleaned_title description goal due_at priority timestamp s =
     (case result_bind (encrypt_text (ts_key s) cleaned_title) (\<lambda>t.
           result_bind (encrypt_stripped (ts_key s) description) (\<lambda>d.
           result_bind (encrypt_stripped (ts_key s) goal) (\<lambda>g.
           result_bind (db_check s [priority]) (\<lambda>_.
           if max_int64 \<le> ts_seq s then Inl (OtherError ''OperationalError'') else Inr (t, d, g))))) of
        Inl e \<Rightarrow> (Inl e, s)
      | Inr (t, d, g) \<Rightarrow>
          (let i = ts_seq s + 1;
               row = \<lparr>row_id = i, row_title_enc = t, row_description_enc = d, row_goal_enc = g,
                 row_due_at = due_at, row_priority = priority, row_state = state_value CREATED,
                 row_created_at = timestamp, row_updated_at = timestamp, row_archived_at = None\<rparr>
           in (Inr i, s\<lparr>ts_rows := ts_rows s @ [row], ts_seq := i\<rparr>)))"

definition encrypt_opt :: "byte list \<Rightarrow> string option \<Rightarrow> exc + string option" where
  "encrypt_opt key v = (case v of None \<Rightarrow> Inr None | Some t \<Rightarrow> encrypt key (Some (of_text t)))"

definition update_task_row ::
  "py_env \<Rightarrow> int \<Rightarrow> string \<Rightarrow> string option \<Rightarrow> string option \<Rightarrow> string option \<Rightarrow> int
   \<Rightarrow> (task_store, unit) prog" where
  "update_task_row env i title description goal due_at priority s =
     (case result_bind (encrypt_text (ts_key s) title) (\<lambda>t.
           result_bind (encrypt_opt (ts_key s) description) (\<lambda>d.
           result_bind (encrypt_opt (ts_key s) goal) (\<lambda>g.
           result_bind (db_check s [priority, i]) (\<lambda>_. Inr (t, d, g))))) of
        Inl e \<Rightarrow> (Inl e, s)
      | Inr (t, d, g) \<Rightarrow>
          (Inr (), s\<lparr>ts_rows := update_rows i (\<lambda>r. r\<lparr>row_title_enc := t, row_description_enc := d,
             row_goal_enc := g, row_due_at := due_at, row_priority := priority,
             row_updated_at := env_now env 0\<rparr>) (ts_rows s)\<rparr>))"

definition transition_task_row ::
  "int \<Rightarrow> task_state \<Rightarrow> string \<Rightarrow> string option \<Rightarrow> (task_store, unit) prog" where
  "transition_task_row i destination updated_at archived_at s =
     (case db_check s [i] of
        Inl e \<Rightarrow> (Inl e, s)
      | Inr _ \<Rightarrow>
          (Inr (), s\<lparr>ts_rows := update_rows i (\<lambda>r. r\<lparr>row_state := state_value destination,
             row_updated_at := updated_at, row_archived_at := archived_at\<rparr>) (ts_rows s)\<rparr>))"

section \<open>Gated execution\<close>

definition storage_operation_for_destination :: "task_state \<Rightarrow> string" where
  "storage_operation_for_destination destination =
     (if destination = ARCHIVED then ''ARCHIVE_TASK'' else ''UPDATE_TASK'')"

definition memory_operation_for_transition :: "task_state \<Rightarrow> task_state \<Rightarrow> string" where
  "memory_operation_for_transition current_state destination_state =
     (if destination_state = ACTIVE then ''PROMOTE_TO_ACTIVE''
      else if destination_state = COMPLETED then ''DEMOTE_TO_DORMANT''
      else if destination_state = ARCHIVED \<and> current_state = ARCHIVED then ''FINALIZE_ARCHIVE''
      else if destination_state = ARCHIVED then ''ARCHIVE_ITEM''
      else ''RETENTION_TRIGGER'')"

definition store_request :: "task_store \<Rightarrow> string \<Rightarrow> string \<Rightarrow> storage_request" where
  "store_request s operation lifecycle_state =
     \<lparr>sr_operation = operation, sr_lifecycle_state = lifecycle_state,
      sr_energy_mode = ts_storage_energy_mode s, sr_execution_type = ts_storage_execution_type s,
      sr_encryption_metadata_present = True,
      sr_encryption_key_id = Some (ts_storage_encryption_key_id s)\<rparr>"

definition store_validate_storage ::
  "py_env \<Rightarrow> string \<Rightarrow> string \<Rightarrow> (task_store, 'a) prog \<Rightarrow> (task_store, 'a) prog" where
  "store_validate_storage env operation lifecycle_state execute_callable s =
     (case ts_storage_bridge s of
        None \<Rightarrow>
          if ts_enforce_storage_authority s then (Inl (RuntimeError ''Storage authority unavailable''), s)
          else execute_callable s
      | Some br \<Rightarrow>
          and_then (validate_storage_and_maybe_execute br env (store_request s operation lifecycle_state)
                     (''storage-'' @ env_uuid env 0) execute_callable)
            (\<lambda>(allowed, result, reason). case (allowed, result) of
               (True, Some x) \<Rightarrow> ret x
             | _ \<Rightarrow> raise_exc (RuntimeError (''Storage authority denied: '' @ or_else reason ''STORAGE_DENIED''))) s)"

definition request_storage_permission :: "py_env \<Rightarrow> task_store \<Rightarrow> string \<Rightarrow> string \<Rightarrow> exc + bool" where
  "request_storage_permission env s operation lifecycle_state =
     (case ts_storage_bridge s of
        None \<Rightarrow> Inr (\<not> ts_enforce_storage_authority s)
      | Some br \<Rightarrow>
          result_bind (request_storage_validation br env (store_request s operation lifecycle_state)
            (''storage-preflight-'' @ env_uuid env 0)) (\<lambda>response.
          case dict_get_or response ''payload'' (PDict []) of
            PDict payload \<Rightarrow> Inr (truthy (dict_get_or payload ''allowed'' (PBool False)))
          | _ \<Rightarrow> Inl AttributeError))"

text \<open>A method of the lifecycle manager the store holds.\<close>

definition on_lifecycle :: "(lifecycle_manager, 'a) prog \<Rightarrow> (task_store, 'a) prog" where
  "on_lifecycle p s = (case p (ts_lifecycle s) of (r, lm) \<Rightarrow> (r, s\<lparr>ts_lifecycle := lm\<rparr>))"

definition execute_authorized_transition ::
  "py_env \<Rightarrow> int \<Rightarrow> task_state \<Rightarrow> task_state \<Rightarrow> string \<Rightarrow> string
   \<Rightarrow> (task_store, 'a) prog \<Rightarrow> (task_store, 'a) prog" where
  "execute_authorized_transition env i current_state destination storage_operation lifecycle_state
      execute_callable =
     and_then (on_lifecycle (record_transition (at_site 5 env) i (StateEnum current_state) (StateEnum destination)))
       (\<lambda>_. store_validate_storage (at_site 2 env) storage_operation lifecycle_state execute_callable)"

definition store_memory_request :: "task_store \<Rightarrow> task_state \<Rightarrow> task_state \<Rightarrow> string \<Rightarrow> bool \<Rightarrow> memory_request" where
  "store_memory_request s current_state destination memory_operation storage_permission_flag =
     \<lparr>mr_current_lifecycle_state = state_value current_state, mr_operation = memory_operation,
      mr_energy_mode = ts_memory_energy_mode s, mr_storage_permission_flag = storage_permission_flag,
      mr_metadata_flags = Some [(''critical_reminder'', PBool False),
        (''allow_archived_reactivation'', PBool False),
        (''retention_due'', PBool (destination = ARCHIVED))]\<rparr>"

definition store_validate_memory ::
  "py_env \<Rightarrow> int \<Rightarrow> task_state \<Rightarrow> task_state \<Rightarrow> string \<Rightarrow> string \<Rightarrow> string
   \<Rightarrow> (task_store, unit) prog \<Rightarrow> (task_store, unit) prog" where
  "store_validate_memory env i current_state destination memory_operation storage_operation
      lifecycle_state execute_callable s =
     (case ts_memory_bridge s of
        None \<Rightarrow>
          if ts_enforce_memory_authority s then (Inl (InvalidStateTransitionError None), s)
          else and_then (on_lifecycle (assert_transition (at_site 5 env) i (StateEnum current_state) (StateEnum destination)))
            (\<lambda>_. store_validate_storage (at_site 2 env) storage_operation lifecycle_state execute_callable) s
      | Some br \<Rightarrow>
          and_then (lift_result (request_storage_permission (at_site 3 env) s storage_operation lifecycle_state))
            (\<lambda>storage_permission_flag.
             and_then (validate_memory_and_maybe_transition br (at_site 4 env)
                 (store_memory_request s current_state destination memory_operation storage_permission_flag)
                 (''memory-'' @ env_uuid (at_site 4 env) 0)
                 (execute_authorized_transition env i current_state destination storage_operation
                   lifecycle_state execute_callable))
               (\<lambda>(allowed, result, reason).
                  if \<not> allowed then raise_exc (InvalidStateTransitionError (Some (or_else reason ''MEMORY_TRANSITION_DENIED'')))
                  else ret ())) s)"

section \<open>Operations\<close>

text \<open>\<open>return self.get_task(task_id)\<close>.\<close>

definition fetch :: "int \<Rightarrow> (task_store, task_record option) prog" where
  "fetch i s = (get_task s i, s)"

definition create_task ::
  "py_env \<Rightarrow> string \<Rightarrow> pyval \<Rightarrow> string option \<Rightarrow> pyval \<Rightarrow> int \<Rightarrow> (task_store, task_record option) prog" where
  "create_task env title description due_at goal priority =
     (let cleaned_title = strip title in
      if cleaned_title = [] then raise_exc (ValueError ''title must not be empty'')
      else let timestamp = env_now env 0 in
        and_then (store_validate_storage env ''WRITE_TASK'' (state_value CREATED)
                   (create_task_row cleaned_title description goal due_at priority timestamp)) fetch)"

text \<open>\<open>current = self.get_task(task_id)\<close> with its \<open>KeyError\<close>.\<close>

definition require_task :: "int \<Rightarrow> (task_store, task_record) prog" where
  "require_task i = and_then (fetch i) (\<lambda>r. case r of None \<Rightarrow> raise_exc KeyError | Some t \<Rightarrow> ret t)"

definition update_task ::
  "py_env \<Rightarrow> int \<Rightarrow> string option \<Rightarrow> string option \<Rightarrow> string option \<Rightarrow> string option \<Rightarrow> int option
   \<Rightarrow> (task_store, task_record option) prog" where
  "update_task env i title description goal due_at priority =
     and_then (require_task i) (\<lambda>current.
       let updated_title = (case title of Some t \<Rightarrow> strip t | None \<Rightarrow> task_title current) in
       if updated_title = [] then raise_exc (ValueError ''title must not be empty'')
       else let
         updated_description = (case description of Some t \<Rightarrow> Some (strip t) | None \<Rightarrow> task_description current);
         updated_goal = (case goal of Some t \<Rightarrow> Some (strip t) | None \<Rightarrow> task_goal current);
         updated_due_at = (case due_at of Some t \<Rightarrow> Some t | None \<Rightarrow> task_due_at current);
         updated_priority = (case priority of Some p \<Rightarrow> p | None \<Rightarrow> task_priority current)
       in and_then (store_validate_storage env ''UPDATE_TASK'' (state_value (task_status current))
                     (update_task_row (at_site 5 env) i updated_title updated_description updated_goal
                       updated_due_at updated_priority))
            (\<lambda>_. fetch i))"

definition transition_task :: "py_env \<Rightarrow> int \<Rightarrow> state_arg \<Rightarrow> (task_store, task_record option) prog" where
  "transition_task env i new_state =
     and_then (require_task i) (\<lambda>current.
     and_then (lift_result (normalize_state new_state)) (\<lambda>destination.
       let now = env_now env 0;
           archived_at = (if destination = ARCHIVED then Some now else task_archived_at current);
           storage_operation = storage_operation_for_destination destination;
           memory_operation = memory_operation_for_transition (task_status current) destination
       in and_then (store_validate_memory env i (task_status current) destination memory_operation
                     storage_operation (state_value (task_status current))
                     (transition_task_row i destination now archived_at))
            (\<lambda>_. fetch i)))"

definition activate_task :: "py_env \<Rightarrow> int \<Rightarrow> (task_store, task_record option) prog" where
  "activate_task env i = transition_task env i (StateEnum ACTIVE)"

definition complete_task :: "py_env \<Rightarrow> int \<Rightarrow> (task_store, task_record option) prog" where
  "complete_task env i = transition_task env i (StateEnum COMPLETED)"

definition archive_task :: "py_env \<Rightarrow> int \<Rightarrow> (task_store, task_record option) prog" where
  "archive_task env i = transition_task env i (StateEnum ARCHIVED)"

definition delete_task :: "int \<Rightarrow> (task_store, unit) prog" where
  "delete_task i = raise_exc (RuntimeError (''Permanent deletion disabled for task '' @ dec_int i @
     ''; use archive_task instead.''))"

definition close_store :: "(task_store, unit) prog" where
  "close_store s = (Inr (), s\<lparr>ts_open := False\<rparr>)"

section \<open>The table invariant\<close>

text \<open>
  Every row can be shown: its text columns decrypt under the key of the store, its state is one of
  the four, its title is not empty, its priority fits the column. Ids are positive, ascend, and never
  exceed the counter.
\<close>

definition wf_row :: "byte list \<Rightarrow> task_row \<Rightarrow> bool" where
  "wf_row key r \<longleftrightarrow> fits_int64 (row_priority r) \<and>
     (case row_to_record key r of Inl _ \<Rightarrow> False | Inr t \<Rightarrow> task_title t \<noteq> [])"

definition wf_store :: "task_store \<Rightarrow> bool" where
  "wf_store s \<longleftrightarrow>
     sorted_wrt (<) (map row_id (ts_rows s)) \<and>
     (\<forall>r\<in>set (ts_rows s). 0 < row_id r \<and> row_id r \<le> ts_seq s \<and> wf_row (ts_key s) r) \<and>
     0 \<le> ts_seq s \<and> ts_seq s \<le> max_int64"

lemma encrypt_text_ok: "\<exists>c. encrypt_text key t = Inr c \<and> decrypt key (Some c) = Inr (Some (of_text t))"
  using encrypt_total [OF of_text_scalar, of key t] by (auto simp: encrypt_text_def layer.dec_enc)

lemma encrypt_text_decrypt:
  "encrypt_text key t = Inr c \<Longrightarrow> decrypt key (Some c) = Inr (Some (of_text t))"
  using encrypt_text_ok [of key t] by auto

lemma encrypt_opt_decrypt: "encrypt_opt key v = Inr c \<Longrightarrow> decrypt key c = Inr (map_option of_text v)"
  by (cases v) (auto simp: encrypt_opt_def layer.dec_enc layer.dec_None)

lemma encrypt_opt_ok: "\<exists>c. encrypt_opt key v = Inr c"
  using encrypt_total [OF of_text_scalar] by (cases v) (auto simp: encrypt_opt_def)

text \<open>What an untyped text argument becomes.\<close>

fun stored_text :: "pyval \<Rightarrow> string option" where
  "stored_text (PStr t) = (if t = [] then None else Some (strip t))"
| "stored_text _ = None"

lemma encrypt_stripped_decrypt:
  "encrypt_stripped key v = Inr c \<Longrightarrow> decrypt key c = Inr (map_option of_text (stored_text v))"
  by (cases v) (auto simp: encrypt_stripped_def layer.dec_enc layer.dec_None split: if_splits)

lemma encrypt_stripped_ok: "is_str v \<or> v = PNone \<Longrightarrow> \<exists>c. encrypt_stripped key v = Inr c"
  using encrypt_total [OF of_text_scalar] by (cases v) (auto simp: encrypt_stripped_def)

lemma map_option_to_text [simp]: "map_option to_text (map_option of_text v) = v"
  by (cases v) auto

lemma find_row_Some: "find_row rows i = Some r \<Longrightarrow> r \<in> set rows \<and> row_id r = i"
  by (auto simp: find_row_def find_Some_iff)

lemma find_row_None: "find_row rows i = None \<longleftrightarrow> i \<notin> row_id ` set rows"
  by (auto simp: find_row_def find_None_iff)

lemma find_row_distinct:
  "distinct (map row_id rows) \<Longrightarrow> r \<in> set rows \<Longrightarrow> find_row rows (row_id r) = Some r"
proof (induction rows)
  case (Cons a rows)
  then show ?case by (cases "a = r") (auto simp: find_row_def)
qed simp

lemma find_row_append:
  "find_row (rows @ [r]) i = (case find_row rows i of Some x \<Rightarrow> Some x
     | None \<Rightarrow> if row_id r = i then Some r else None)"
  by (induction rows) (auto simp: find_row_def)

lemma find_update_rows:
  "(\<And>r. row_id (f r) = row_id r) \<Longrightarrow>
   find_row (update_rows i f rows) j = map_option (\<lambda>r. if row_id r = i then f r else r) (find_row rows j)"
  by (induction rows) (auto simp: find_row_def update_rows_def)

lemma wf_distinct: "wf_store s \<Longrightarrow> distinct (map row_id (ts_rows s))"
  by (simp add: wf_store_def strict_sorted_iff)

section \<open>Every operation keeps the invariant\<close>

text \<open>The gates and the log pass on whatever their callback keeps.\<close>

lemma keeps_fetch [simp, intro]: "keeps I (fetch i)"
  by (simp add: keeps_def fetch_def)

lemma keeps_require_task [simp, intro]: "keeps I (require_task i)"
  unfolding require_task_def by (rule keeps_and_then) (auto split: option.splits)

lemma keeps_on_lifecycle:
  "(\<And>s lm. I s \<Longrightarrow> lm = snd (p (ts_lifecycle s)) \<Longrightarrow> I (s\<lparr>ts_lifecycle := lm\<rparr>)) \<Longrightarrow> keeps I (on_lifecycle p)"
  by (rule keepsI) (simp add: on_lifecycle_def case_prod_unfold)

lemma keeps_validate_storage:
  assumes p: "keeps I p"
  shows "keeps I (store_validate_storage env operation st p)"
proof
  fix s
  assume s: "I s"
  show "I (snd (store_validate_storage env operation st p s))"
  proof (cases "ts_storage_bridge s")
    case None
    with s p show ?thesis by (auto simp: store_validate_storage_def dest: keepsD)
  next
    case (Some br)
    let ?g = "validate_storage_and_maybe_execute br env (store_request s operation st)
      (''storage-'' @ env_uuid env 0) p"
    let ?k = "\<lambda>(allowed, result, reason). case (allowed, result) of (True, Some x) \<Rightarrow> ret x
      | _ \<Rightarrow> raise_exc (RuntimeError (''Storage authority denied: '' @ or_else reason ''STORAGE_DENIED''))"
    have "keeps I (and_then ?g ?k)"
      by (rule keeps_and_then [OF storage_gate.gate_keeps [OF p]]) (auto split: prod.splits bool.splits option.splits)
    with s Some show ?thesis by (simp add: store_validate_storage_def keepsD)
  qed
qed

lemma keeps_validate_memory:
  assumes p: "keeps I p"
    and a: "keeps I (on_lifecycle (assert_transition (at_site 5 env) i (StateEnum c) (StateEnum d)))"
    and r: "keeps I (on_lifecycle (record_transition (at_site 5 env) i (StateEnum c) (StateEnum d)))"
  shows "keeps I (store_validate_memory env i c d mo so ls p)"
proof
  fix s
  assume s: "I s"
  note st = keeps_validate_storage [OF p]
  have ex: "keeps I (execute_authorized_transition env i c d so ls p)"
    unfolding execute_authorized_transition_def by (rule keeps_and_then [OF r st])
  show "I (snd (store_validate_memory env i c d mo so ls p s))"
  proof (cases "ts_memory_bridge s")
    case None
    have "I (snd (and_then (on_lifecycle (assert_transition (at_site 5 env) i (StateEnum c) (StateEnum d)))
        (\<lambda>_. store_validate_storage (at_site 2 env) so ls p) s))"
      by (rule keepsD [OF keeps_and_then [OF a st] s])
    with None s show ?thesis by (simp add: store_validate_memory_def)
  next
    case (Some br)
    show ?thesis
      by (simp add: store_validate_memory_def Some,
          rule keepsD [OF keeps_and_then [OF keeps_lift keeps_and_then [OF memory_gate.gate_keeps [OF ex]]] s])
        (auto split: prod.splits)
  qed
qed

lemma keeps_create_task:
  assumes "\<And>t. t \<noteq> [] \<Longrightarrow> keeps I (create_task_row t description goal due_at priority (env_now env 0))"
  shows "keeps I (create_task env title description due_at goal priority)"
  unfolding create_task_def Let_def using assms
  by (auto intro!: keeps_and_then keeps_validate_storage)

lemma keeps_update_task:
  assumes "\<And>t d g u p. t \<noteq> [] \<Longrightarrow> keeps I (update_task_row (at_site 5 env) i t d g u p)"
  shows "keeps I (update_task env i title description goal due_at priority)"
  unfolding update_task_def Let_def using assms
  by (intro keeps_and_then keeps_require_task) (auto intro!: keeps_and_then keeps_validate_storage)

lemma keeps_transition_task:
  assumes "\<And>d u a. keeps I (transition_task_row i d u a)"
    and "\<And>c d. keeps I (on_lifecycle (assert_transition (at_site 5 env) i (StateEnum c) (StateEnum d)))"
    and "\<And>c d. keeps I (on_lifecycle (record_transition (at_site 5 env) i (StateEnum c) (StateEnum d)))"
  shows "keeps I (transition_task env i new_state)"
  unfolding transition_task_def Let_def using assms
  by (intro keeps_and_then keeps_require_task keeps_lift keeps_validate_memory keeps_fetch)

text \<open>The row statements keep the invariant.\<close>

lemma wf_row_iff:
  "wf_row key r \<longleftrightarrow> fits_int64 (row_priority r) \<and>
     (\<exists>t. row_to_record key r = Inr t \<and> task_title t \<noteq> [])"
  by (auto simp: wf_row_def split: sum.splits)

lemma row_to_record_written:
  assumes "decrypt key (Some (row_title_enc r)) = Inr (Some (of_text t))"
    and "decrypt key (row_description_enc r) = Inr (map_option of_text d)"
    and "decrypt key (row_goal_enc r) = Inr (map_option of_text g)"
    and "row_state r = state_value st"
  shows "row_to_record key r = Inr \<lparr>task_id = row_id r, task_title = t, task_description = d,
    task_goal = g, task_due_at = row_due_at r, task_priority = row_priority r, task_status = st,
    task_created_at = row_created_at r, task_updated_at = row_updated_at r,
    task_archived_at = row_archived_at r\<rparr>"
  using assms by (simp add: row_to_record_def)

text \<open>A row that can be shown, in terms of its columns.\<close>

lemma row_to_record_Inr:
  assumes "row_to_record key r = Inr t"
  shows "row_state r = state_value (task_status t)" "task_id t = row_id r"
    "task_created_at t = row_created_at r" "task_archived_at t = row_archived_at r"
    "task_due_at t = row_due_at r" "task_priority t = row_priority r"
    "task_updated_at t = row_updated_at r"
    "row_to_record key (r\<lparr>row_state := state_value d, row_updated_at := u, row_archived_at := a\<rparr>)
       = Inr (t\<lparr>task_status := d, task_updated_at := u, task_archived_at := a\<rparr>)"
  using assms
  by (auto simp: row_to_record_def result_bind_def task_state_of_Some split: option.splits sum.splits)

lemma db_check_Inr:
  "db_check s ints = Inr u \<longleftrightarrow> ts_open s \<and> (\<forall>i\<in>set ints. fits_int64 i)"
  by (auto simp: db_check_def)

lemma create_task_row_cases:
  obtains (raised) e where "create_task_row t d g due p ts s = (Inl e, s)"
  | (inserted) ct cd cg r where
      "encrypt_text (ts_key s) t = Inr ct" "encrypt_stripped (ts_key s) d = Inr cd"
      "encrypt_stripped (ts_key s) g = Inr cg" "fits_int64 p" "ts_open s" "ts_seq s < max_int64"
      "r = \<lparr>row_id = ts_seq s + 1, row_title_enc = ct, row_description_enc = cd, row_goal_enc = cg,
         row_due_at = due, row_priority = p, row_state = state_value CREATED,
         row_created_at = ts, row_updated_at = ts, row_archived_at = None\<rparr>"
      "create_task_row t d g due p ts s =
         (Inr (ts_seq s + 1), s\<lparr>ts_rows := ts_rows s @ [r], ts_seq := ts_seq s + 1\<rparr>)"
proof (cases "result_bind (encrypt_text (ts_key s) t) (\<lambda>t.
           result_bind (encrypt_stripped (ts_key s) d) (\<lambda>d.
           result_bind (encrypt_stripped (ts_key s) g) (\<lambda>g.
           result_bind (db_check s [p]) (\<lambda>_.
           if max_int64 \<le> ts_seq s then Inl (OtherError ''OperationalError'') else Inr (t, d, g)))))")
  case (Inl e)
  then show thesis by (intro raised [of e]) (simp add: create_task_row_def)
next
  case (Inr x)
  moreover obtain ct cd cg where x: "x = (ct, cd, cg)" by (cases x) auto
  ultimately have "encrypt_text (ts_key s) t = Inr ct" "encrypt_stripped (ts_key s) d = Inr cd"
    "encrypt_stripped (ts_key s) g = Inr cg" "fits_int64 p" "ts_open s" "ts_seq s < max_int64"
    by (auto simp: result_bind_Inr_iff db_check_Inr split: if_splits)
  then show thesis using Inr x by (intro inserted [OF _ _ _ _ _ _ refl]) (auto simp: create_task_row_def Let_def)
qed

lemma update_task_row_cases:
  obtains (raised) e where "update_task_row env i t d g due p s = (Inl e, s)"
  | (updated) ct cd cg where
      "encrypt_text (ts_key s) t = Inr ct" "encrypt_opt (ts_key s) d = Inr cd"
      "encrypt_opt (ts_key s) g = Inr cg" "fits_int64 p"
      "update_task_row env i t d g due p s =
         (Inr (), s\<lparr>ts_rows := update_rows i (\<lambda>r. r\<lparr>row_title_enc := ct, row_description_enc := cd,
             row_goal_enc := cg, row_due_at := due, row_priority := p,
             row_updated_at := env_now env 0\<rparr>) (ts_rows s)\<rparr>)"
proof (cases "result_bind (encrypt_text (ts_key s) t) (\<lambda>t.
           result_bind (encrypt_opt (ts_key s) d) (\<lambda>d.
           result_bind (encrypt_opt (ts_key s) g) (\<lambda>g.
           result_bind (db_check s [p, i]) (\<lambda>_. Inr (t, d, g)))))")
  case (Inl e)
  then show thesis by (intro raised [of e]) (simp add: update_task_row_def)
next
  case (Inr x)
  moreover obtain ct cd cg where x: "x = (ct, cd, cg)" by (cases x) auto
  ultimately have "encrypt_text (ts_key s) t = Inr ct" "encrypt_opt (ts_key s) d = Inr cd"
    "encrypt_opt (ts_key s) g = Inr cg" "fits_int64 p"
    by (auto simp: result_bind_Inr_iff db_check_Inr)
  then show thesis using Inr x by (intro updated) (auto simp: update_task_row_def)
qed

lemma transition_task_row_cases:
  obtains (raised) e where "transition_task_row i d u a s = (Inl e, s)"
  | (moved) "transition_task_row i d u a s =
      (Inr (), s\<lparr>ts_rows := update_rows i (\<lambda>r. r\<lparr>row_state := state_value d,
             row_updated_at := u, row_archived_at := a\<rparr>) (ts_rows s)\<rparr>)" "ts_open s" "fits_int64 i"
  by (cases "db_check s [i]") (auto simp: transition_task_row_def db_check_Inr [THEN iffD1])

lemma map_update_rows:
  "(\<And>r. h (f r) = h r) \<Longrightarrow> map h (update_rows i f rows) = map h rows"
  by (simp add: update_rows_def)

lemma wf_store_update:
  assumes wf: "wf_store s" and id: "\<And>r. row_id (f r) = row_id r"
    and row: "\<And>r. r \<in> set (ts_rows s) \<Longrightarrow> row_id r = i \<Longrightarrow> wf_row (ts_key s) r \<Longrightarrow> wf_row (ts_key s) (f r)"
  shows "wf_store (s\<lparr>ts_rows := update_rows i f (ts_rows s)\<rparr>)"
proof -
  have "map row_id (update_rows i f (ts_rows s)) = map row_id (ts_rows s)"
    by (rule map_update_rows) (rule id)
  moreover have "0 < row_id r' \<and> row_id r' \<le> ts_seq s \<and> wf_row (ts_key s) r'"
    if "r' \<in> set (update_rows i f (ts_rows s))" for r'
    using that wf row id by (auto simp: update_rows_def wf_store_def)
  ultimately show ?thesis using wf by (simp add: wf_store_def)
qed

lemma keeps_wf_create_row: "t \<noteq> [] \<Longrightarrow> keeps wf_store (create_task_row t d g due p ts)"
proof
  fix s
  assume t: "t \<noteq> []" and wf: "wf_store s"
  show "wf_store (snd (create_task_row t d g due p ts s))"
  proof (cases rule: create_task_row_cases [of t d g due p ts s])
    case raised
    with wf show ?thesis by simp
  next
    case (inserted ct cd cg r)
    have "wf_row (ts_key s) r"
      using row_to_record_written [of "ts_key s" r t "stored_text d" "stored_text g" CREATED] inserted t
      by (simp add: wf_row_iff encrypt_text_decrypt encrypt_stripped_decrypt)
    with wf inserted show ?thesis
      by (auto simp: wf_store_def sorted_wrt_append)
  qed
qed

lemma keeps_wf_update_row: "t \<noteq> [] \<Longrightarrow> keeps wf_store (update_task_row env i t d g due p)"
proof
  fix s
  assume t: "t \<noteq> []" and wf: "wf_store s"
  show "wf_store (snd (update_task_row env i t d g due p s))"
  proof (cases rule: update_task_row_cases [of env i t d g due p s])
    case raised
    with wf show ?thesis by simp
  next
    case (updated ct cd cg)
    let ?f = "\<lambda>r. r\<lparr>row_title_enc := ct, row_description_enc := cd, row_goal_enc := cg,
      row_due_at := due, row_priority := p, row_updated_at := env_now env 0\<rparr>"
    have "wf_row (ts_key s) (?f r)" if "wf_row (ts_key s) r" for r
    proof -
      from that obtain tr where "row_to_record (ts_key s) r = Inr tr" by (auto simp: wf_row_iff)
      from row_to_record_Inr(1) [OF this] show ?thesis
        using row_to_record_written [of "ts_key s" "?f r" t d g "task_status tr"] updated t
        by (simp add: wf_row_iff encrypt_text_decrypt encrypt_opt_decrypt)
    qed
    then show ?thesis using updated wf_store_update [OF wf, of ?f i] by simp
  qed
qed

lemma keeps_wf_transition_row: "keeps wf_store (transition_task_row i d u a)"
proof
  fix s
  assume wf: "wf_store s"
  show "wf_store (snd (transition_task_row i d u a s))"
  proof (cases rule: transition_task_row_cases [of i d u a s])
    case raised
    with wf show ?thesis by simp
  next
    case moved
    let ?f = "\<lambda>r. r\<lparr>row_state := state_value d, row_updated_at := u, row_archived_at := a\<rparr>"
    have "wf_row (ts_key s) (?f r)" if "wf_row (ts_key s) r" for r
      using that row_to_record_Inr(8) by (fastforce simp: wf_row_iff)
    then show ?thesis using moved wf_store_update [OF wf, of ?f i] by simp
  qed
qed

section \<open>Runs of operations\<close>

datatype store_op =
    CreateOp string pyval "string option" pyval int
  | UpdateOp int "string option" "string option" "string option" "string option" "int option"
  | TransitionOp int state_arg
  | DeleteOp int
  | CloseOp

text \<open>One operation, with its result or its exception dropped.\<close>

fun store_step :: "py_env \<times> store_op \<Rightarrow> task_store \<Rightarrow> task_store" where
  "store_step (env, CreateOp title description due_at goal priority) s =
     snd (create_task env title description due_at goal priority s)"
| "store_step (env, UpdateOp i title description goal due_at priority) s =
     snd (update_task env i title description goal due_at priority s)"
| "store_step (env, TransitionOp i new_state) s = snd (transition_task env i new_state s)"
| "store_step (env, DeleteOp i) s = snd (delete_task i s)"
| "store_step (env, CloseOp) s = snd (close_store s)"

lemma keeps_store_step:
  assumes "\<And>t d g due p ts. t \<noteq> [] \<Longrightarrow> keeps I (create_task_row t d g due p ts)"
    and "\<And>env i t d g due p. t \<noteq> [] \<Longrightarrow> keeps I (update_task_row env i t d g due p)"
    and "\<And>i d u a. keeps I (transition_task_row i d u a)"
    and "\<And>env i c d. keeps I (on_lifecycle (assert_transition env i (StateEnum c) (StateEnum d)))"
    and "\<And>env i c d. keeps I (on_lifecycle (append_transition_record env i c d))"
    and "keeps I close_store"
    and "I s"
  shows "I (store_step eo s)"
proof -
  obtain env e where eo: "eo = (env, e)" by (cases eo)
  show ?thesis
  proof (cases e)
    case (CreateOp t d due g p)
    then show ?thesis using keepsD [OF keeps_create_task [OF assms(1)] assms(7)] eo by simp
  next
    case (UpdateOp i t d g due p)
    then show ?thesis using keepsD [OF keeps_update_task [OF assms(2)] assms(7)] eo by simp
  next
    case (TransitionOp i st)
    have "keeps I (transition_task env i st)"
      by (rule keeps_transition_task) (simp_all add: assms)
    from keepsD [OF this assms(7)] TransitionOp eo show ?thesis by simp
  next
    case (DeleteOp i)
    then show ?thesis using eo assms(7) by (simp add: delete_task_def)
  next
    case CloseOp
    then show ?thesis using keepsD [OF assms(6,7)] eo by simp
  qed
qed

text \<open>
  What an operation may change: it appends rows, rewrites the mutable columns of a row, appends to
  the transition log, or closes the connection. Ids and creation times stay, in order; the
  configuration stays.
\<close>

definition row_identity :: "task_row \<Rightarrow> int \<times> string" where
  "row_identity r = (row_id r, row_created_at r)"

text \<open>The configuration: the store without its rows, counter, connection and log.\<close>

definition store_config :: "task_store \<Rightarrow> task_store" where
  "store_config s = s\<lparr>ts_rows := [], ts_seq := 0, ts_open := True,
     ts_lifecycle := (ts_lifecycle s)\<lparr>lm_transition_log := []\<rparr>\<rparr>"

definition store_extends :: "task_store \<Rightarrow> task_store \<Rightarrow> bool" where
  "store_extends s s' \<longleftrightarrow>
     prefix (map row_identity (ts_rows s)) (map row_identity (ts_rows s')) \<and>
     prefix (lm_transition_log (ts_lifecycle s)) (lm_transition_log (ts_lifecycle s')) \<and>
     ts_seq s \<le> ts_seq s' \<and> store_config s' = store_config s"

lemma store_config_simps [simp]:
  "store_config (s\<lparr>ts_rows := rows\<rparr>) = store_config s"
  "store_config (s\<lparr>ts_seq := n\<rparr>) = store_config s"
  "store_config (s\<lparr>ts_open := b\<rparr>) = store_config s"
  "store_config (s\<lparr>ts_lifecycle := (ts_lifecycle s)\<lparr>lm_transition_log := l\<rparr>\<rparr>) = store_config s"
  by (simp_all add: store_config_def)

lemma store_extends_refl [simp]: "store_extends s s"
  by (simp add: store_extends_def)

lemma store_extends_trans: "store_extends s t \<Longrightarrow> store_extends t u \<Longrightarrow> store_extends s u"
  unfolding store_extends_def by (auto intro: prefix_order.trans)

lemma assert_transition_log:
  "snd (assert_transition env i a b lm) = lm \<or>
   (\<exists>r. snd (assert_transition env i a b lm) = lm\<lparr>lm_transition_log := lm_transition_log lm @ [r]\<rparr>)"
  by (auto simp: assert_transition_def append_transition_record_def split: sum.splits)

lemma store_extends_log:
  "store_extends s (s\<lparr>ts_lifecycle := (ts_lifecycle s)\<lparr>lm_transition_log := lm_transition_log (ts_lifecycle s) @ rs\<rparr>\<rparr>)"
  by (simp add: store_extends_def)

lemma store_extends_rows:
  "map row_identity rows = map row_identity (ts_rows s) \<Longrightarrow> store_extends s (s\<lparr>ts_rows := rows\<rparr>)"
  by (simp add: store_extends_def)

definition extends_wf :: "task_store \<Rightarrow> task_store \<Rightarrow> bool" where
  "extends_wf s0 s \<longleftrightarrow> wf_store s \<and> store_extends s0 s"

lemma keeps_extends_wf:
  assumes "keeps wf_store p" and "\<And>s. wf_store s \<Longrightarrow> store_extends s (snd (p s))"
  shows "keeps (extends_wf s0) p"
  using assms by (auto simp: keeps_def extends_wf_def intro: store_extends_trans)

lemma wf_store_log [simp]: "wf_store (s\<lparr>ts_lifecycle := lm\<rparr>) = wf_store s"
  by (simp add: wf_store_def)

lemma wf_store_open [simp]: "wf_store (s\<lparr>ts_open := b\<rparr>) = wf_store s"
  by (simp add: wf_store_def)

lemma keeps_wf_log: "keeps wf_store (on_lifecycle p)"
  by (rule keeps_on_lifecycle) simp

lemma store_step_extends_wf: "wf_store s \<Longrightarrow> extends_wf s (store_step eo s)"
proof (rule keeps_store_step)
  show "wf_store s \<Longrightarrow> extends_wf s s" by (simp add: extends_wf_def)
  show "keeps (extends_wf s) (create_task_row t d g due p ts)" if "t \<noteq> []" for t d g due p ts
  proof (rule keeps_extends_wf [OF keeps_wf_create_row [OF that]])
    fix u
    show "store_extends u (snd (create_task_row t d g due p ts u))"
      by (cases rule: create_task_row_cases [of t d g due p ts u]) (auto simp: store_extends_def)
  qed
  show "keeps (extends_wf s) (update_task_row env i t d g due p)" if "t \<noteq> []" for env i t d g due p
  proof (rule keeps_extends_wf [OF keeps_wf_update_row [OF that]])
    fix u
    show "store_extends u (snd (update_task_row env i t d g due p u))"
      by (cases rule: update_task_row_cases [of env i t d g due p u])
        (auto intro!: store_extends_rows map_update_rows simp: row_identity_def)
  qed
  show "keeps (extends_wf s) (transition_task_row i d u a)" for i d u a
  proof (rule keeps_extends_wf [OF keeps_wf_transition_row])
    fix v
    show "store_extends v (snd (transition_task_row i d u a v))"
      by (cases rule: transition_task_row_cases [of i d u a v])
        (auto intro!: store_extends_rows map_update_rows simp: row_identity_def)
  qed
  show "keeps (extends_wf s) (on_lifecycle (assert_transition env i (StateEnum c) (StateEnum d)))"
    for env i c d
  proof (rule keeps_extends_wf [OF keeps_wf_log])
    fix v
    show "store_extends v (snd (on_lifecycle (assert_transition env i (StateEnum c) (StateEnum d)) v))"
      using assert_transition_log [of env i "StateEnum c" "StateEnum d" "ts_lifecycle v"]
      by (auto simp: on_lifecycle_def case_prod_unfold store_extends_log)
  qed
  show "keeps (extends_wf s) (on_lifecycle (append_transition_record env i c d))" for env i c d
    by (rule keeps_extends_wf [OF keeps_wf_log])
      (simp add: on_lifecycle_def append_transition_record_def store_extends_log)
  show "keeps (extends_wf s) close_store"
    by (rule keeps_extends_wf) (simp_all add: keeps_def close_store_def store_extends_def)
qed

interpretation store_run: machine store_step wf_store store_extends
proof
  fix s t u and i :: "py_env \<times> store_op"
  show "wf_store s \<Longrightarrow> wf_store (store_step i s)" and "wf_store s \<Longrightarrow> store_extends s (store_step i s)"
    using store_step_extends_wf [of s i] by (simp_all add: extends_wf_def)
  show "store_extends s s" by simp
  show "store_extends s t \<Longrightarrow> store_extends t u \<Longrightarrow> store_extends s u" by (rule store_extends_trans)
qed

section \<open>What the gates decide\<close>

definition storage_granted :: "py_env \<Rightarrow> string \<Rightarrow> string \<Rightarrow> task_store \<Rightarrow> bool" where
  "storage_granted env operation st s =
     (case ts_storage_bridge s of
        None \<Rightarrow> \<not> ts_enforce_storage_authority s
      | Some br \<Rightarrow> (case storage_verdict br env (store_request s operation st) (''storage-'' @ env_uuid env 0) of
          Inr (allowed, _) \<Rightarrow> allowed | Inl _ \<Rightarrow> False))"

lemma validate_storage_granted:
  assumes "storage_granted env operation st s"
  shows "store_validate_storage env operation st p s = p s"
proof (cases "ts_storage_bridge s")
  case None
  with assms show ?thesis by (simp add: storage_granted_def store_validate_storage_def)
next
  case (Some br)
  with assms obtain r where
    "storage_verdict br env (store_request s operation st) (''storage-'' @ env_uuid env 0) = Inr (True, r)"
    by (auto simp: storage_granted_def split: sum.splits)
  then show ?thesis
    by (simp add: store_validate_storage_def Some storage_gate_gated gated_def and_then_def
        split: prod.splits sum.splits)
qed

lemma validate_storage_refused:
  assumes "\<not> storage_granted env operation st s"
  shows "\<exists>e. store_validate_storage env operation st p s = (Inl e, s)"
proof (cases "ts_storage_bridge s")
  case None
  with assms show ?thesis by (simp add: storage_granted_def store_validate_storage_def)
next
  case (Some br)
  with assms show ?thesis
    by (auto simp: storage_granted_def store_validate_storage_def storage_gate_gated gated_def and_then_def
        split: prod.splits sum.splits)
qed

definition memory_granted :: "py_env \<Rightarrow> int \<Rightarrow> task_state \<Rightarrow> task_state \<Rightarrow> task_store \<Rightarrow> bool" where
  "memory_granted env i c d s =
     (case ts_memory_bridge s of
        None \<Rightarrow> \<not> ts_enforce_memory_authority s \<and>
          (case authorize_transition (ts_lifecycle s) i c d of Inr ld \<Rightarrow> ld_allowed ld | Inl _ \<Rightarrow> False)
      | Some br \<Rightarrow>
          (case request_storage_permission (at_site 3 env) s (storage_operation_for_destination d) (state_value c) of
             Inl _ \<Rightarrow> False
           | Inr flag \<Rightarrow>
              (case memory_verdict br (at_site 4 env)
                  (store_memory_request s c d (memory_operation_for_transition c d) flag)
                  (''memory-'' @ env_uuid (at_site 4 env) 0) of
                 Inr (allowed, _) \<Rightarrow> allowed | Inl _ \<Rightarrow> False)))"

definition log_transition :: "py_env \<Rightarrow> int \<Rightarrow> task_state \<Rightarrow> task_state \<Rightarrow> task_store \<Rightarrow> task_store" where
  "log_transition env i c d s =
     s\<lparr>ts_lifecycle := snd (append_transition_record (at_site 5 env) i c d (ts_lifecycle s))\<rparr>"

lemma log_transition_simps [simp]:
  "ts_rows (log_transition env i c d s) = ts_rows s" "ts_seq (log_transition env i c d s) = ts_seq s"
  "ts_open (log_transition env i c d s) = ts_open s" "ts_key (log_transition env i c d s) = ts_key s"
  "storage_granted env' operation st (log_transition env i c d s) = storage_granted env' operation st s"
  "wf_store (log_transition env i c d s) = wf_store s"
  by (simp_all add: log_transition_def storage_granted_def store_request_def split: option.splits)

lemma on_lifecycle_append [simp]:
  "on_lifecycle (append_transition_record (at_site 5 env) i c d) s = (Inr (), log_transition env i c d s)"
  by (simp add: on_lifecycle_def log_transition_def append_transition_record_def)

lemma on_lifecycle_assert:
  "on_lifecycle (assert_transition (at_site 5 env) i (StateEnum c) (StateEnum d)) s =
     (case authorize_transition (ts_lifecycle s) i c d of
        Inl e \<Rightarrow> (Inl e, s)
      | Inr ld \<Rightarrow> if ld_allowed ld then (Inr (), log_transition env i c d s)
                  else (Inl (InvalidStateTransitionError (ld_reason ld)), s))"
  by (simp add: on_lifecycle_def assert_transition_enum log_transition_def append_transition_record_def
      split: sum.splits)

lemma execute_authorized_eq:
  "execute_authorized_transition env i c d so ls p s =
     store_validate_storage (at_site 2 env) so ls p (log_transition env i c d s)"
  by (simp add: execute_authorized_transition_def and_then_def)

abbreviation (input) transition_gate_of where
  "transition_gate_of env i c d p \<equiv>
     store_validate_memory env i c d (memory_operation_for_transition c d)
       (storage_operation_for_destination d) (state_value c) p"

lemma validate_memory_granted:
  assumes "memory_granted env i c d s"
  shows "transition_gate_of env i c d p s =
    store_validate_storage (at_site 2 env) (storage_operation_for_destination d) (state_value c) p
      (log_transition env i c d s)"
proof (cases "ts_memory_bridge s")
  case None
  with assms obtain ld where "authorize_transition (ts_lifecycle s) i c d = Inr ld" "ld_allowed ld"
    "\<not> ts_enforce_memory_authority s"
    by (auto simp: memory_granted_def split: sum.splits)
  with None show ?thesis
    by (simp add: store_validate_memory_def on_lifecycle_assert and_then_def)
next
  case (Some br)
  with assms obtain flag r where
    "request_storage_permission (at_site 3 env) s (storage_operation_for_destination d) (state_value c) = Inr flag"
    "memory_verdict br (at_site 4 env)
        (store_memory_request s c d (memory_operation_for_transition c d) flag)
        (''memory-'' @ env_uuid (at_site 4 env) 0) = Inr (True, r)"
    by (auto simp: memory_granted_def split: sum.splits)
  with Some show ?thesis
    by (simp add: store_validate_memory_def memory_gate_gated gated_def and_then_def
        execute_authorized_eq split: prod.splits sum.splits)
qed

lemma validate_memory_refused:
  assumes "\<not> memory_granted env i c d s"
  shows "\<exists>e. transition_gate_of env i c d p s = (Inl e, s)"
proof (cases "ts_memory_bridge s")
  case None
  with assms show ?thesis
    by (auto simp: store_validate_memory_def memory_granted_def on_lifecycle_assert and_then_def
        split: sum.splits)
next
  case (Some br)
  let ?perm = "request_storage_permission (at_site 3 env) s (storage_operation_for_destination d) (state_value c)"
  show ?thesis
  proof (cases ?perm)
    case (Inl e)
    with Some show ?thesis by (simp add: store_validate_memory_def and_then_def)
  next
    case (Inr flag)
    let ?v = "memory_verdict br (at_site 4 env)
        (store_memory_request s c d (memory_operation_for_transition c d) flag)
        (''memory-'' @ env_uuid (at_site 4 env) 0)"
    have "(\<exists>e. ?v = Inl e) \<or> (\<exists>r. ?v = Inr (False, r))"
      using assms Some Inr by (cases ?v) (auto simp: memory_granted_def)
    then show ?thesis
      by (elim disjE exE) (simp_all add: store_validate_memory_def Some Inr memory_gate_gated gated_def and_then_def)
  qed
qed

section \<open>The abstract store\<close>

text \<open>Specification: a finite map from ids to task records.\<close>

fun result_option :: "exc + 'a \<Rightarrow> 'a option" where
  "result_option (Inl _) = None"
| "result_option (Inr x) = Some x"

lemma result_option_Some: "result_option r = Some x \<longleftrightarrow> r = Inr x"
  by (cases r) auto

definition abs_tasks :: "task_store \<Rightarrow> int \<Rightarrow> task_record option" where
  "abs_tasks s i = Option.bind (find_row (ts_rows s) i) (\<lambda>r. result_option (row_to_record (ts_key s) r))"

lemma wf_fits: "wf_store s \<Longrightarrow> r \<in> set (ts_rows s) \<Longrightarrow> fits_int64 (row_id r)"
  by (auto simp: wf_store_def fits_int64_def max_int64_def)

lemma wf_row_record: "wf_store s \<Longrightarrow> r \<in> set (ts_rows s) \<Longrightarrow>
    \<exists>t. row_to_record (ts_key s) r = Inr t \<and> task_title t \<noteq> [] \<and> task_id t = row_id r"
  using row_to_record_Inr(2) by (fastforce simp: wf_store_def wf_row_iff)

lemma get_task_abs:
  assumes "wf_store s"
  shows "get_task s i = (case db_check s [i] of Inl e \<Rightarrow> Inl e | Inr _ \<Rightarrow> Inr (abs_tasks s i))"
proof (cases "find_row (ts_rows s) i")
  case None
  then show ?thesis by (cases "db_check s [i]") (simp_all add: get_task_def abs_tasks_def)
next
  case (Some r)
  then obtain t where "row_to_record (ts_key s) r = Inr t"
    using find_row_Some wf_row_record [OF assms] by blast
  with Some show ?thesis by (cases "db_check s [i]") (simp_all add: get_task_def abs_tasks_def)
qed

lemma abs_tasks_Some:
  "abs_tasks s i = Some t \<longleftrightarrow> (\<exists>r. find_row (ts_rows s) i = Some r \<and> row_to_record (ts_key s) r = Inr t)"
  by (auto simp: abs_tasks_def bind_eq_Some_conv result_option_Some)

lemma abs_tasks_log [simp]: "abs_tasks (log_transition env i c d s) = abs_tasks s"
  by (rule ext) (simp add: abs_tasks_def)

lemma require_task_eq:
  assumes "wf_store s"
  shows "require_task i s = (case db_check s [i] of Inl e \<Rightarrow> (Inl e, s)
     | Inr _ \<Rightarrow> (case abs_tasks s i of None \<Rightarrow> (Inl KeyError, s) | Some t \<Rightarrow> (Inr t, s)))"
  by (cases "db_check s [i]"; cases "abs_tasks s i")
    (simp_all add: require_task_def fetch_def and_then_def get_task_abs [OF assms])

lemma abs_tasks_update:
  assumes wf: "wf_store s" and old: "abs_tasks s i = Some t"
    and id: "\<And>r. row_id (f r) = row_id r"
    and new: "\<And>r. row_id r = i \<Longrightarrow> row_to_record (ts_key s) r = Inr t \<Longrightarrow> row_to_record (ts_key s) (f r) = Inr t'"
  shows "abs_tasks (s\<lparr>ts_rows := update_rows i f (ts_rows s)\<rparr>) = (abs_tasks s)(i \<mapsto> t')"
proof
  fix j
  have find: "find_row (update_rows i f (ts_rows s)) j =
      map_option (\<lambda>r. if row_id r = i then f r else r) (find_row (ts_rows s) j)"
    by (rule find_update_rows) (rule id)
  show "abs_tasks (s\<lparr>ts_rows := update_rows i f (ts_rows s)\<rparr>) j = ((abs_tasks s)(i \<mapsto> t')) j"
  proof (cases "j = i")
    case True
    from old obtain r where r: "find_row (ts_rows s) i = Some r" "row_to_record (ts_key s) r = Inr t"
      by (auto simp: abs_tasks_Some)
    then have "row_id r = i" using find_row_Some by blast
    with r new True show ?thesis by (simp add: abs_tasks_def find [unfolded True])
  next
    case False
    then show ?thesis
      by (cases "find_row (ts_rows s) j") (auto simp: abs_tasks_def find dest: find_row_Some)
  qed
qed

text \<open>
  The outcome of an operation on the abstract store: it raises and the tasks are as before, or it
  stores the record it returns under the record's id.
\<close>

definition refines_put :: "task_store \<Rightarrow> (exc + task_record option) \<times> task_store \<Rightarrow> (task_record \<Rightarrow> bool) \<Rightarrow> bool" where
  "refines_put s out good = (case out of
      (Inl _, s') \<Rightarrow> ts_rows s' = ts_rows s
    | (Inr None, _) \<Rightarrow> False
    | (Inr (Some t), s') \<Rightarrow> good t \<and> abs_tasks s' = (abs_tasks s)(task_id t \<mapsto> t))"

lemma transition_task_eq:
  assumes wf: "wf_store s"
  shows "transition_task env i (StateEnum d) s =
    (case db_check s [i] of Inl e \<Rightarrow> (Inl e, s)
     | Inr _ \<Rightarrow> (case abs_tasks s i of None \<Rightarrow> (Inl KeyError, s)
        | Some t \<Rightarrow> and_then (transition_gate_of env i (task_status t) d
            (transition_task_row i d (env_now env 0)
              (if d = ARCHIVED then Some (env_now env 0) else task_archived_at t))) (\<lambda>_. fetch i) s))"
  by (cases "db_check s [i]"; cases "abs_tasks s i")
    (simp_all add: transition_task_def and_then_def require_task_eq [OF wf] Let_def)

definition transitioned :: "py_env \<Rightarrow> task_state \<Rightarrow> task_record \<Rightarrow> task_record" where
  "transitioned env d t = t\<lparr>task_status := d, task_updated_at := env_now env 0,
     task_archived_at := (if d = ARCHIVED then Some (env_now env 0) else task_archived_at t)\<rparr>"

text \<open>The three outcomes of a transition that found its task.\<close>

lemma transition_task_outcome:
  assumes wf: "wf_store s" and t: "abs_tasks s i = Some t" and s_open: "ts_open s"
  shows
    "\<not> memory_granted env i (task_status t) d s \<Longrightarrow>
       \<exists>e. transition_task env i (StateEnum d) s = (Inl e, s)"
    "memory_granted env i (task_status t) d s \<Longrightarrow>
     \<not> storage_granted (at_site 2 env) (storage_operation_for_destination d) (state_value (task_status t)) s \<Longrightarrow>
       \<exists>e. transition_task env i (StateEnum d) s = (Inl e, log_transition env i (task_status t) d s)"
    "memory_granted env i (task_status t) d s \<Longrightarrow>
     storage_granted (at_site 2 env) (storage_operation_for_destination d) (state_value (task_status t)) s \<Longrightarrow>
       \<exists>s'. transition_task env i (StateEnum d) s = (Inr (Some (transitioned env d t)), s')
         \<and> abs_tasks s' = (abs_tasks s)(i \<mapsto> transitioned env d t)
         \<and> ts_lifecycle s' = ts_lifecycle (log_transition env i (task_status t) d s)
         \<and> ts_seq s' = ts_seq s"
proof -
  obtain r where r: "find_row (ts_rows s) i = Some r" "row_to_record (ts_key s) r = Inr t"
    using t by (auto simp: abs_tasks_Some)
  then have rs: "r \<in> set (ts_rows s)" "row_id r = i" using find_row_Some by auto
  with wf have fits: "fits_int64 i" using wf_fits by blast
  let ?a = "if d = ARCHIVED then Some (env_now env 0) else task_archived_at t"
  let ?p = "transition_task_row i d (env_now env 0) ?a"
  let ?c = "task_status t"
  have eq: "transition_task env i (StateEnum d) s =
      and_then (transition_gate_of env i ?c d ?p) (\<lambda>_. fetch i) s"
    using t s_open fits by (simp add: transition_task_eq [OF wf] db_check_def)
  show "\<exists>e. transition_task env i (StateEnum d) s = (Inl e, s)" if "\<not> memory_granted env i ?c d s"
    using validate_memory_refused [OF that, of ?p] by (auto simp: eq and_then_def)
  assume m: "memory_granted env i ?c d s"
  show "\<exists>e. transition_task env i (StateEnum d) s = (Inl e, log_transition env i ?c d s)"
    if "\<not> storage_granted (at_site 2 env) (storage_operation_for_destination d) (state_value ?c) s"
    using validate_storage_refused [of "at_site 2 env" "storage_operation_for_destination d" "state_value ?c"
        "log_transition env i ?c d s" ?p] that
    by (auto simp: eq and_then_def validate_memory_granted [OF m] simp del: split_paired_Ex if_split)
  assume g: "storage_granted (at_site 2 env) (storage_operation_for_destination d) (state_value ?c) s"
  let ?l = "log_transition env i ?c d s"
  let ?s' = "?l\<lparr>ts_rows := update_rows i (\<lambda>r. r\<lparr>row_state := state_value d,
             row_updated_at := env_now env 0, row_archived_at := ?a\<rparr>) (ts_rows ?l)\<rparr>"
  have run: "transition_gate_of env i ?c d ?p s = (Inr (), ?s')"
    using g s_open fits
    by (simp add: validate_memory_granted [OF m] validate_storage_granted transition_task_row_def db_check_def)
  have abs: "abs_tasks ?s' = (abs_tasks ?l)(i \<mapsto> transitioned env d t)"
    by (rule abs_tasks_update [of _ _ t])
      (use wf t row_to_record_Inr(8) in \<open>simp_all add: transitioned_def\<close>)
  have "wf_store ?s'"
    using keepsD [OF keeps_wf_transition_row [of i d "env_now env 0" ?a], of ?l] wf s_open fits
    by (simp add: transition_task_row_def db_check_def)
  then have "fetch i ?s' = (Inr (Some (transitioned env d t)), ?s')"
    using abs fits s_open by (simp add: fetch_def get_task_abs db_check_def)
  then show "\<exists>s'. transition_task env i (StateEnum d) s = (Inr (Some (transitioned env d t)), s')
         \<and> abs_tasks s' = (abs_tasks s)(i \<mapsto> transitioned env d t)
         \<and> ts_lifecycle s' = ts_lifecycle ?l \<and> ts_seq s' = ts_seq s"
    using run abs by (simp add: eq and_then_def)
qed

definition created_record ::
  "py_env \<Rightarrow> int \<Rightarrow> string \<Rightarrow> pyval \<Rightarrow> string option \<Rightarrow> pyval \<Rightarrow> int \<Rightarrow> task_record" where
  "created_record env i title description due_at goal priority =
     \<lparr>task_id = i, task_title = strip title, task_description = stored_text description,
      task_goal = stored_text goal, task_due_at = due_at, task_priority = priority,
      task_status = CREATED, task_created_at = env_now env 0, task_updated_at = env_now env 0,
      task_archived_at = None\<rparr>"

lemma find_row_fresh: "wf_store s \<Longrightarrow> find_row (ts_rows s) (ts_seq s + 1) = None"
  by (force simp: find_row_None wf_store_def)

lemma abs_tasks_append:
  assumes "wf_store s" and "row_id r = ts_seq s + 1" and "row_to_record (ts_key s) r = Inr t"
  shows "abs_tasks (s\<lparr>ts_rows := ts_rows s @ [r], ts_seq := n\<rparr>) = (abs_tasks s)(ts_seq s + 1 \<mapsto> t)"
proof
  fix j
  show "abs_tasks (s\<lparr>ts_rows := ts_rows s @ [r], ts_seq := n\<rparr>) j = ((abs_tasks s)(ts_seq s + 1 \<mapsto> t)) j"
    using assms find_row_fresh [OF assms(1)]
    by (cases "find_row (ts_rows s) j") (auto simp: abs_tasks_def find_row_append)
qed

lemma create_row_outcome:
  assumes wf: "wf_store s" and t: "strip title \<noteq> []"
  shows "(\<exists>e. create_task_row (strip title) d g due p (env_now env 0) s = (Inl e, s)) \<or>
    (\<exists>s'. create_task_row (strip title) d g due p (env_now env 0) s = (Inr (ts_seq s + 1), s')
       \<and> fetch (ts_seq s + 1) s' = (Inr (Some (created_record env (ts_seq s + 1) title d due g p)), s')
       \<and> abs_tasks s' = (abs_tasks s)(ts_seq s + 1 \<mapsto> created_record env (ts_seq s + 1) title d due g p)
       \<and> ts_seq s' = ts_seq s + 1 \<and> ts_lifecycle s' = ts_lifecycle s)"
proof (cases rule: create_task_row_cases [of "strip title" d g due p "env_now env 0" s])
  case raised
  then show ?thesis by blast
next
  case (inserted ct cd cg r)
  let ?s' = "s\<lparr>ts_rows := ts_rows s @ [r], ts_seq := ts_seq s + 1\<rparr>"
  let ?t = "created_record env (ts_seq s + 1) title d due g p"
  have "row_to_record (ts_key s) r = Inr ?t"
    using row_to_record_written [of "ts_key s" r "strip title" "stored_text d" "stored_text g" CREATED] inserted
    by (simp add: encrypt_text_decrypt encrypt_stripped_decrypt created_record_def)
  then have abs: "abs_tasks ?s' = (abs_tasks s)(ts_seq s + 1 \<mapsto> ?t)"
    using inserted by (intro abs_tasks_append [OF wf]) auto
  have wf': "wf_store ?s'"
    using keepsD [OF keeps_wf_create_row [OF t] wf, of d g due p "env_now env 0"] inserted by simp
  have "fits_int64 (ts_seq s + 1)"
    using wf inserted by (auto simp: wf_store_def fits_int64_def max_int64_def)
  then have "fetch (ts_seq s + 1) ?s' = (Inr (Some ?t), ?s')"
    using abs inserted(5) by (simp add: fetch_def get_task_abs [OF wf'] db_check_def)
  with abs inserted(8) show ?thesis by simp
qed

lemma create_task_outcome:
  assumes wf: "wf_store s"
  shows "(\<exists>e. create_task env title d due g p s = (Inl e, s)) \<or>
    (\<exists>s'. create_task env title d due g p s =
         (Inr (Some (created_record env (ts_seq s + 1) title d due g p)), s')
       \<and> abs_tasks s' = (abs_tasks s)(ts_seq s + 1 \<mapsto> created_record env (ts_seq s + 1) title d due g p)
       \<and> ts_seq s' = ts_seq s + 1 \<and> ts_lifecycle s' = ts_lifecycle s
       \<and> storage_granted env ''WRITE_TASK'' (state_value CREATED) s)"
proof (cases "strip title = [] \<or> \<not> storage_granted env ''WRITE_TASK'' (state_value CREATED) s")
  case True
  then show ?thesis
    using validate_storage_refused [of env "''WRITE_TASK''" "state_value CREATED" s
        "create_task_row (strip title) d g due p (env_now env 0)"]
    by (auto simp: create_task_def and_then_def Let_def)
next
  case False
  then show ?thesis
    using create_row_outcome [OF wf, of title d g due p env]
    by (auto simp: create_task_def and_then_def validate_storage_granted Let_def)
qed

definition updated_record ::
  "py_env \<Rightarrow> string option \<Rightarrow> string option \<Rightarrow> string option \<Rightarrow> string option \<Rightarrow> int option
   \<Rightarrow> task_record \<Rightarrow> task_record" where
  "updated_record env title description goal due_at priority t =
     t\<lparr>task_title := (case title of Some x \<Rightarrow> strip x | None \<Rightarrow> task_title t),
       task_description := (case description of Some x \<Rightarrow> Some (strip x) | None \<Rightarrow> task_description t),
       task_goal := (case goal of Some x \<Rightarrow> Some (strip x) | None \<Rightarrow> task_goal t),
       task_due_at := (case due_at of Some x \<Rightarrow> Some x | None \<Rightarrow> task_due_at t),
       task_priority := (case priority of Some n \<Rightarrow> n | None \<Rightarrow> task_priority t),
       task_updated_at := env_now (at_site 5 env) 0\<rparr>"

lemma update_row_outcome:
  assumes wf: "wf_store s" and t: "abs_tasks s i = Some t" and title: "title \<noteq> []"
  shows "(\<exists>e. update_task_row env i title d g due p s = (Inl e, s)) \<or>
    (\<exists>s' t'. update_task_row env i title d g due p s = (Inr (), s')
       \<and> t' = t\<lparr>task_title := title, task_description := d, task_goal := g, task_due_at := due,
           task_priority := p, task_updated_at := env_now env 0\<rparr>
       \<and> fetch i s' = (Inr (Some t'), s') \<and> abs_tasks s' = (abs_tasks s)(i \<mapsto> t')
       \<and> ts_seq s' = ts_seq s \<and> ts_lifecycle s' = ts_lifecycle s)"
proof (cases "\<exists>e. update_task_row env i title d g due p s = (Inl e, s)")
  case False
  then obtain ct cd cg where
    enc: "encrypt_text (ts_key s) title = Inr ct" "encrypt_opt (ts_key s) d = Inr cd"
      "encrypt_opt (ts_key s) g = Inr cg" "fits_int64 p" and s_open: "ts_open s"
    and run: "update_task_row env i title d g due p s =
         (Inr (), s\<lparr>ts_rows := update_rows i (\<lambda>r. r\<lparr>row_title_enc := ct, row_description_enc := cd,
             row_goal_enc := cg, row_due_at := due, row_priority := p,
             row_updated_at := env_now env 0\<rparr>) (ts_rows s)\<rparr>)" (is "_ = (Inr (), ?s')")
    by (cases rule: update_task_row_cases [of env i title d g due p s])
      (auto simp: update_task_row_def db_check_def split: if_splits)
  let ?t' = "t\<lparr>task_title := title, task_description := d, task_goal := g, task_due_at := due,
           task_priority := p, task_updated_at := env_now env 0\<rparr>"
  have abs: "abs_tasks ?s' = (abs_tasks s)(i \<mapsto> ?t')"
  proof (rule abs_tasks_update [OF wf t])
    fix r
    assume "row_to_record (ts_key s) r = Inr t"
    note cols = row_to_record_Inr [OF this]
    show "row_to_record (ts_key s) (r\<lparr>row_title_enc := ct, row_description_enc := cd,
        row_goal_enc := cg, row_due_at := due, row_priority := p, row_updated_at := env_now env 0\<rparr>) = Inr ?t'"
      using cols enc
      by (subst row_to_record_written [of _ _ title d g "task_status t"])
        (auto simp: encrypt_text_decrypt encrypt_opt_decrypt)
  qed simp
  have wf': "wf_store ?s'"
    using keepsD [OF keeps_wf_update_row [OF title] wf, of env i d g due p] run by simp
  have "fits_int64 i"
    using t wf_fits [OF wf] by (auto simp: abs_tasks_Some dest: find_row_Some)
  then have "fetch i ?s' = (Inr (Some ?t'), ?s')"
    using abs s_open by (simp add: fetch_def get_task_abs [OF wf'] db_check_def)
  then show ?thesis using run abs by simp
qed simp

lemma update_task_outcome:
  assumes wf: "wf_store s"
  shows "(\<exists>e. update_task env i title d g due p s = (Inl e, s)) \<or>
    (\<exists>s' t. abs_tasks s i = Some t \<and>
       update_task env i title d g due p s = (Inr (Some (updated_record env title d g due p t)), s')
       \<and> abs_tasks s' = (abs_tasks s)(i \<mapsto> updated_record env title d g due p t)
       \<and> ts_seq s' = ts_seq s \<and> ts_lifecycle s' = ts_lifecycle s
       \<and> storage_granted env ''UPDATE_TASK'' (state_value (task_status t)) s)"
proof (cases "abs_tasks s i")
  case None
  then show ?thesis
    by (cases "db_check s [i]") (simp_all add: update_task_def and_then_def require_task_eq [OF wf])
next
  case (Some t)
  let ?title = "case title of Some x \<Rightarrow> strip x | None \<Rightarrow> task_title t"
  let ?p = "update_task_row (at_site 5 env) i ?title
    (case d of Some x \<Rightarrow> Some (strip x) | None \<Rightarrow> task_description t)
    (case g of Some x \<Rightarrow> Some (strip x) | None \<Rightarrow> task_goal t)
    (case due of Some x \<Rightarrow> Some x | None \<Rightarrow> task_due_at t)
    (case p of Some n \<Rightarrow> n | None \<Rightarrow> task_priority t)"
  let ?gate = "store_validate_storage env ''UPDATE_TASK'' (state_value (task_status t)) ?p"
  show ?thesis
  proof (cases "(\<exists>e. db_check s [i] = Inl e) \<or> ?title = []")
    case True
    then show ?thesis using Some
      by (cases "db_check s [i]") (auto simp: update_task_def and_then_def require_task_eq [OF wf] Let_def)
  next
    case False
    then obtain u where "db_check s [i] = Inr u" by (cases "db_check s [i]") auto
    with False Some have eq: "update_task env i title d g due p s = and_then ?gate (\<lambda>_. fetch i) s"
      by (simp add: update_task_def and_then_def require_task_eq [OF wf] Let_def)
    show ?thesis
    proof (cases "storage_granted env ''UPDATE_TASK'' (state_value (task_status t)) s")
      case g: False
      from validate_storage_refused [OF this, of ?p] show ?thesis by (auto simp: eq and_then_def)
    next
      case g: True
      have gate: "?gate s = ?p s" by (rule validate_storage_granted [OF g])
      consider e where "?p s = (Inl e, s)"
        | s' where "?p s = (Inr (), s')"
          "fetch i s' = (Inr (Some (updated_record env title d g due p t)), s')"
          "abs_tasks s' = (abs_tasks s)(i \<mapsto> updated_record env title d g due p t)"
          "ts_seq s' = ts_seq s" "ts_lifecycle s' = ts_lifecycle s"
        using update_row_outcome [OF wf Some, of ?title "at_site 5 env"] False
        unfolding updated_record_def by metis
      then show ?thesis
      proof cases
        case 1
        then show ?thesis by (simp add: eq and_then_def gate)
      next
        case 2
        then have "update_task env i title d g due p s = (Inr (Some (updated_record env title d g due p t)), s')"
          by (simp add: eq and_then_def gate)
        with 2 Some g show ?thesis by blast
      qed
    qed
  qed
qed

end
