(* ===== verification/Task_History.thy ===== *)
theory Task_History
  imports Task_Store
begin

text \<open>
  What the task store guarantees over whole runs: no task is lost, an operation puts the record it
  returns or leaves the table alone, rows change only with the approval of the storage authority,
  and in the default configuration every task has followed the lifecycle matrix and its history is in
  the log. Two observations about gated stores are theorems as well: the log runs ahead of the
  table when storage refuses, and an approving memory authority replaces the matrix.
\<close>

section \<open>Fresh stores\<close>

lemma init_store_wf: "init_store key lm opts [] 0 = Inr s \<Longrightarrow> wf_store s"
  by (auto simp: init_store_def result_bind_Inr_iff wf_store_def max_int64_def)

lemma init_store_ok: "key \<noteq> [] \<Longrightarrow> \<exists>s. init_store key lm opts [] 0 = Inr s"
proof -
  assume "key \<noteq> []"
  then have "of_text key \<noteq> []" by (simp add: of_text_def)
  moreover obtain raw where "utf8_encode (of_text key) = Inr raw"
    using utf8_encode_ok of_text_scalar by blast
  ultimately show ?thesis by (simp add: init_store_def init_layer_def)
qed

lemma init_store_fields:
  assumes "init_store key None default_options [] 0 = Inr s"
  shows "ts_rows s = []" "ts_seq s = 0" "ts_open s" "ts_memory_bridge s = None" "ts_storage_bridge s = None"
    "\<not> ts_enforce_memory_authority s" "\<not> ts_enforce_storage_authority s"
    "ts_lifecycle s = init_lifecycle None True"
  using assms by (auto simp: init_store_def default_options_def result_bind_Inr_iff)

section \<open>Histories in the default configuration\<close>

definition legacy_config :: "task_store \<Rightarrow> bool" where
  "legacy_config s \<longleftrightarrow>
     ts_memory_bridge s = None \<and> \<not> ts_enforce_memory_authority s \<and>
     ts_storage_bridge s = None \<and> \<not> ts_enforce_storage_authority s \<and>
     lm_transition_authorizer (ts_lifecycle s) = None \<and> lm_allow_legacy_fallback (ts_lifecycle s)"

definition history :: "task_store \<Rightarrow> int \<Rightarrow> transition_record list" where
  "history s i = filter (\<lambda>r. tr_task_id r = i) (lm_transition_log (ts_lifecycle s))"

definition states_of :: "task_store \<Rightarrow> int \<Rightarrow> task_state list" where
  "states_of s i = CREATED # map tr_to_state (history s i)"

definition hist_ok :: "task_store \<Rightarrow> bool" where
  "hist_ok s \<longleftrightarrow>
     (\<forall>i t. abs_tasks s i = Some t \<longrightarrow>
        successively legacy_allowed (states_of s i) \<and>
        map tr_from_state (history s i) = butlast (states_of s i) \<and>
        task_status t = last (states_of s i)) \<and>
     (\<forall>e\<in>set (lm_transition_log (ts_lifecycle s)). tr_task_id e \<le> ts_seq s)"

lemma legacy_config_cong: "store_config s' = store_config s \<Longrightarrow> legacy_config s' = legacy_config s"
proof -
  assume c: "store_config s' = store_config s"
  have "ts_memory_bridge (store_config s') = ts_memory_bridge (store_config s)"
    "ts_enforce_memory_authority (store_config s') = ts_enforce_memory_authority (store_config s)"
    "ts_storage_bridge (store_config s') = ts_storage_bridge (store_config s)"
    "ts_enforce_storage_authority (store_config s') = ts_enforce_storage_authority (store_config s)"
    "lm_transition_authorizer (ts_lifecycle (store_config s')) = lm_transition_authorizer (ts_lifecycle (store_config s))"
    "lm_allow_legacy_fallback (ts_lifecycle (store_config s')) = lm_allow_legacy_fallback (ts_lifecycle (store_config s))"
    by (simp_all only: c)
  then show ?thesis by (simp add: legacy_config_def store_config_def)
qed

lemma legacy_memory_granted:
  "legacy_config s \<Longrightarrow> memory_granted env i c d s = legacy_allowed c d"
  by (simp add: legacy_config_def memory_granted_def authorize_legacy)

lemma legacy_storage_granted: "legacy_config s \<Longrightarrow> storage_granted env operation st s"
  by (simp add: legacy_config_def storage_granted_def)

lemma history_same: "ts_lifecycle s' = ts_lifecycle s \<Longrightarrow> history s' = history s \<and> states_of s' = states_of s"
  by (auto simp: history_def states_of_def fun_eq_iff)

lemma history_logged:
  "ts_lifecycle s' = ts_lifecycle (log_transition env i c d s) \<Longrightarrow>
   history s' j = history s j @ (if j = i then
     [\<lparr>tr_task_id = i, tr_from_state = c, tr_to_state = d, tr_changed_at_utc = env_now (at_site 5 env) 0\<rparr>] else [])"
  by (simp add: history_def log_transition_def append_transition_record_def)

lemma abs_tasks_range: "wf_store s \<Longrightarrow> abs_tasks s i = Some t \<Longrightarrow> i \<le> ts_seq s"
  by (auto simp: abs_tasks_Some wf_store_def dest: find_row_Some)

lemma hist_ok_create:
  assumes "wf_store s" "hist_ok s"
    and abs: "abs_tasks s' = (abs_tasks s)(ts_seq s + 1 \<mapsto> t)" and t: "task_status t = CREATED"
    and seq: "ts_seq s' = ts_seq s + 1" and lm: "ts_lifecycle s' = ts_lifecycle s"
  shows "hist_ok s'"
proof -
  have "history s (ts_seq s + 1) = []"
    using assms(2) by (force simp: hist_ok_def history_def filter_empty_conv)
  with history_same [OF lm] t assms(2) show ?thesis
    by (force simp: hist_ok_def abs seq lm states_of_def)
qed

lemma hist_ok_update:
  assumes "hist_ok s" and "abs_tasks s i = Some t"
    and abs: "abs_tasks s' = (abs_tasks s)(i \<mapsto> t')" and t: "task_status t' = task_status t"
    and seq: "ts_seq s' = ts_seq s" and lm: "ts_lifecycle s' = ts_lifecycle s"
  shows "hist_ok s'"
  using assms history_same [OF lm] by (auto simp: hist_ok_def)

lemma hist_ok_transition:
  assumes wf: "wf_store s" and ok: "hist_ok s" and i: "abs_tasks s i = Some t"
    and abs: "abs_tasks s' = (abs_tasks s)(i \<mapsto> t')" and t: "task_status t' = d"
    and allowed: "legacy_allowed (task_status t) d" and seq: "ts_seq s' = ts_seq s"
    and lm: "ts_lifecycle s' = ts_lifecycle (log_transition env i (task_status t) d s)"
  shows "hist_ok s'"
proof -
  note h = history_logged [OF lm]
  have states: "states_of s' j = states_of s j @ (if j = i then [d] else [])" for j
    by (simp add: states_of_def h)
  have "successively legacy_allowed (states_of s' j) \<and>
      map tr_from_state (history s' j) = butlast (states_of s' j) \<and> task_status u = last (states_of s' j)"
    if u: "abs_tasks s' j = Some u" for j u
  proof (cases "j = i")
    case True
    from ok i have old: "successively legacy_allowed (states_of s i)"
      "map tr_from_state (history s i) = butlast (states_of s i)" "task_status t = last (states_of s i)"
      by (auto simp: hist_ok_def)
    have ne: "states_of s i \<noteq> []" by (simp add: states_of_def)
    have "u = t'" using u True abs by simp
    with old allowed t ne True show ?thesis
      by (simp add: states h successively_append_iff append_butlast_last_id)
  next
    case False
    with u ok abs show ?thesis by (simp add: states h hist_ok_def)
  qed
  moreover have "tr_task_id e \<le> ts_seq s'" if "e \<in> set (lm_transition_log (ts_lifecycle s'))" for e
    using that ok abs_tasks_range [OF wf i]
    by (auto simp: lm seq log_transition_def append_transition_record_def hist_ok_def)
  ultimately show ?thesis by (simp add: hist_ok_def)
qed

lemma transition_task_arg:
  assumes "wf_store s"
  shows "(\<exists>e. transition_task env i a s = (Inl e, s)) \<or>
    (\<exists>t d. abs_tasks s i = Some t \<and> ts_open s \<and> normalize_state a = Inr d
       \<and> transition_task env i a s = transition_task env i (StateEnum d) s)"
proof (cases "db_check s [i]")
  case (Inl e)
  then show ?thesis by (simp add: transition_task_def and_then_def require_task_eq [OF assms])
next
  case (Inr u)
  then have "ts_open s" by (simp add: db_check_Inr)
  show ?thesis
  proof (cases "abs_tasks s i")
    case None
    with Inr show ?thesis by (simp add: transition_task_def and_then_def require_task_eq [OF assms])
  next
    case (Some t)
    with Inr \<open>ts_open s\<close> show ?thesis
      by (cases "normalize_state a")
        (auto simp: transition_task_def and_then_def require_task_eq [OF assms])
  qed
qed

lemma transition_task_total:
  assumes wf: "wf_store s"
  shows "(\<exists>e s'. transition_task env i a s = (Inl e, s') \<and> ts_rows s' = ts_rows s) \<or>
    (\<exists>t dst s'. abs_tasks s i = Some t \<and> normalize_state a = Inr dst
      \<and> memory_granted env i (task_status t) dst s
      \<and> transition_task env i a s = (Inr (Some (transitioned env dst t)), s')
      \<and> abs_tasks s' = (abs_tasks s)(i \<mapsto> transitioned env dst t))"
proof (cases "\<exists>e. transition_task env i a s = (Inl e, s)")
  case True
  then show ?thesis by blast
next
  case False
  then obtain t dst where t: "abs_tasks s i = Some t" and s_open: "ts_open s"
    and dst: "normalize_state a = Inr dst"
    and eq: "transition_task env i a s = transition_task env i (StateEnum dst) s"
    using transition_task_arg [OF wf, of env i a] by blast
  from transition_task_outcome [OF wf t s_open, of env dst] show ?thesis
    unfolding eq using t dst log_transition_simps(1) by metis
qed

lemma transitioned_simps [simp]:
  "task_id (transitioned env d t) = task_id t" "task_status (transitioned env d t) = d"
  by (simp_all add: transitioned_def)

lemma abs_tasks_id: "abs_tasks s i = Some t \<Longrightarrow> task_id t = i"
  using row_to_record_Inr(2) find_row_Some by (fastforce simp: abs_tasks_Some)

definition legacy_inv :: "task_store \<Rightarrow> bool" where
  "legacy_inv s \<longleftrightarrow> wf_store s \<and> legacy_config s \<and> hist_ok s"

lemma hist_ok_create_task:
  assumes "wf_store s" "hist_ok s"
  shows "hist_ok (snd (create_task env title d due g p s))"
proof -
  from create_task_outcome [OF assms(1), of env title d due g p]
  consider e where "create_task env title d due g p s = (Inl e, s)"
    | s' where "create_task env title d due g p s =
         (Inr (Some (created_record env (ts_seq s + 1) title d due g p)), s')"
       "abs_tasks s' = (abs_tasks s)(ts_seq s + 1 \<mapsto> created_record env (ts_seq s + 1) title d due g p)"
       "ts_seq s' = ts_seq s + 1" "ts_lifecycle s' = ts_lifecycle s" by blast
  then show ?thesis
  proof cases
    case 1
    with assms show ?thesis by simp
  next
    case 2
    have "task_status (created_record env (ts_seq s + 1) title d due g p) = CREATED"
      by (simp add: created_record_def)
    from hist_ok_create [OF assms 2(2) this 2(3,4)] 2(1) show ?thesis by simp
  qed
qed

lemma hist_ok_update_task:
  assumes "wf_store s" "hist_ok s"
  shows "hist_ok (snd (update_task env i title d g due p s))"
proof -
  from update_task_outcome [OF assms(1), of env i title d g due p]
  consider e where "update_task env i title d g due p s = (Inl e, s)"
    | s' t where "abs_tasks s i = Some t"
      "update_task env i title d g due p s = (Inr (Some (updated_record env title d g due p t)), s')"
      "abs_tasks s' = (abs_tasks s)(i \<mapsto> updated_record env title d g due p t)"
      "ts_seq s' = ts_seq s" "ts_lifecycle s' = ts_lifecycle s" by blast
  then show ?thesis
  proof cases
    case 1
    with assms show ?thesis by simp
  next
    case 2
    have "task_status (updated_record env title d g due p t) = task_status t"
      by (simp add: updated_record_def)
    from hist_ok_update [OF assms(2) 2(1,3) this 2(4,5)] 2(2) show ?thesis by simp
  qed
qed

lemma hist_ok_transition_task:
  assumes "wf_store s" "legacy_config s" "hist_ok s"
  shows "hist_ok (snd (transition_task env i a s))"
proof -
  from transition_task_arg [OF assms(1), of env i a]
  consider e where "transition_task env i a s = (Inl e, s)"
    | t d where "abs_tasks s i = Some t" "ts_open s"
      "transition_task env i a s = transition_task env i (StateEnum d) s" by blast
  then show ?thesis
  proof cases
    case 1
    with assms show ?thesis by simp
  next
    case 2
    note out = transition_task_outcome [OF assms(1) 2(1,2), of env d]
    show ?thesis
    proof (cases "legacy_allowed (task_status t) d")
      case False
      with out(1) assms 2(3) show ?thesis by (fastforce simp: legacy_memory_granted)
    next
      case True
      with out(3) assms(2) obtain s' where
        s': "transition_task env i (StateEnum d) s = (Inr (Some (transitioned env d t)), s')"
        "abs_tasks s' = (abs_tasks s)(i \<mapsto> transitioned env d t)"
        "ts_lifecycle s' = ts_lifecycle (log_transition env i (task_status t) d s)" "ts_seq s' = ts_seq s"
        by (auto simp: legacy_memory_granted legacy_storage_granted)
      have "task_status (transitioned env d t) = d" by (simp add: transitioned_def)
      from hist_ok_transition [OF assms(1,3) 2(1) s'(2) this True s'(4,3)] s'(1) 2(3) show ?thesis by simp
    qed
  qed
qed

lemma hist_ok_open: "hist_ok (s\<lparr>ts_open := b\<rparr>) = hist_ok s"
proof -
  have "abs_tasks (s\<lparr>ts_open := b\<rparr>) = abs_tasks s" by (rule ext) (simp add: abs_tasks_def)
  then show ?thesis by (simp add: hist_ok_def history_def states_of_def)
qed

lemma legacy_inv_step: "legacy_inv s \<Longrightarrow> legacy_inv (store_step eo s)"
proof -
  assume inv: "legacy_inv s"
  then have wf: "wf_store s" and lc: "legacy_config s" and ok: "hist_ok s" by (auto simp: legacy_inv_def)
  have "legacy_config (store_step eo s)"
  proof -
    have "store_config (store_step eo s) = store_config s"
      using store_run.step_after [OF wf, of eo] by (simp add: store_extends_def)
    from legacy_config_cong [OF this] lc show ?thesis by simp
  qed
  moreover have "hist_ok (store_step eo s)"
  proof -
    obtain env e where eo: "eo = (env, e)" by (cases eo)
    show ?thesis
    proof (cases e)
      case CreateOp
      then show ?thesis unfolding eo by (simp only: store_step.simps hist_ok_create_task [OF wf ok])
    next
      case UpdateOp
      then show ?thesis unfolding eo by (simp only: store_step.simps hist_ok_update_task [OF wf ok])
    next
      case TransitionOp
      then show ?thesis unfolding eo by (simp only: store_step.simps hist_ok_transition_task [OF wf lc ok])
    next
      case DeleteOp
      with ok show ?thesis by (simp add: eo delete_task_def)
    next
      case CloseOp
      with ok show ?thesis by (simp add: eo close_store_def hist_ok_open)
    qed
  qed
  ultimately show ?thesis using store_run.step_inv [OF wf] by (simp add: legacy_inv_def)
qed

interpretation legacy_run: machine store_step legacy_inv store_extends
proof
  fix s t u and i :: "py_env \<times> store_op"
  show "legacy_inv s \<Longrightarrow> legacy_inv (store_step i s)" by (rule legacy_inv_step)
  show "legacy_inv s \<Longrightarrow> store_extends s (store_step i s)"
    by (simp add: legacy_inv_def store_run.step_after)
  show "store_extends s s" by simp
  show "store_extends s t \<Longrightarrow> store_extends t u \<Longrightarrow> store_extends s u" by (rule store_extends_trans)
qed

lemma legacy_inv_init: "init_store key None default_options [] 0 = Inr s \<Longrightarrow> legacy_inv s"
  using init_store_wf [of key None default_options s] init_store_fields [of key s]
  by (simp add: legacy_inv_def legacy_config_def hist_ok_def init_lifecycle_def abs_tasks_def find_row_def)

section \<open>Properties\<close>

text \<open>
  C1. Whatever sequence of operations runs on a well-formed store, with whatever results, exceptions
  and authority answers: the table stays well-formed (ids ascend and stay within the counter, every
  row decrypts and shows a valid state), every task that was there is still there with the same id
  and creation time, and the transition log only grows.
\<close>

theorem no_task_is_ever_lost:
  assumes "wf_store s"
  shows "wf_store (fold store_step ops s)
    \<and> (\<forall>r\<in>set (ts_rows s). \<exists>r'\<in>set (ts_rows (fold store_step ops s)).
         row_id r' = row_id r \<and> row_created_at r' = row_created_at r)
    \<and> prefix (lm_transition_log (ts_lifecycle s)) (lm_transition_log (ts_lifecycle (fold store_step ops s)))"
proof -
  note ext = store_run.run_after [OF assms, of ops]
  have "set (map row_identity (ts_rows s)) \<subseteq> set (map row_identity (ts_rows (fold store_step ops s)))"
    using ext by (intro set_mono_prefix) (simp add: store_extends_def)
  then have "\<exists>r'\<in>set (ts_rows (fold store_step ops s)). row_id r' = row_id r \<and> row_created_at r' = row_created_at r"
    if "r \<in> set (ts_rows s)" for r
    using that by (fastforce simp: row_identity_def)
  with store_run.run_inv [OF assms, of ops] ext show ?thesis by (simp add: store_extends_def)
qed

theorem no_task_is_ever_lost_witness:
  "\<exists>s. init_store ''k'' None default_options [] 0 = Inr s \<and>
     wf_store (fold store_step [(stub_env, CreateOp ''Buy milk'' PNone None PNone 0), (stub_env, DeleteOp 1)] s)"
proof -
  obtain s where s: "init_store ''k'' None default_options [] 0 = Inr s" using init_store_ok [of "''k''"] by auto
  from no_task_is_ever_lost [OF init_store_wf [OF s]] s show ?thesis by blast
qed

text \<open>
  C2. The store refines a map from ids to task records. Creating, updating and transitioning either
  raise, and then the table is untouched, or return a record and store exactly that record under its
  id. The record created is the stripped input under a fresh id in state CREATED; the record updated
  keeps the id, state and creation time; a transition changes the state, the update time and, on
  archiving, the archive time.
\<close>

theorem operations_refine_map:
  assumes wf: "wf_store s"
  shows "refines_put s (create_task env title d due g p s)
      (\<lambda>t. abs_tasks s (task_id t) = None \<and> t = created_record env (task_id t) title d due g p)
    \<and> refines_put s (update_task env i title' d' g' due' p' s)
      (\<lambda>t. \<exists>t0. abs_tasks s i = Some t0 \<and> t = updated_record env title' d' g' due' p' t0)
    \<and> refines_put s (transition_task env i a s)
      (\<lambda>t. \<exists>t0 dst. abs_tasks s i = Some t0 \<and> normalize_state a = Inr dst \<and> t = transitioned env dst t0)"
proof (intro conjI)
  have fresh: "abs_tasks s (ts_seq s + 1) = None"
    using find_row_fresh [OF wf] by (simp add: abs_tasks_def)
  have id: "task_id t = i" if "abs_tasks s i = Some t" for t
    using that by (rule abs_tasks_id)
  show "refines_put s (create_task env title d due g p s)
      (\<lambda>t. abs_tasks s (task_id t) = None \<and> t = created_record env (task_id t) title d due g p)"
    using create_task_outcome [OF wf, of env title d due g p] fresh
    by (auto simp: refines_put_def created_record_def)
  show "refines_put s (update_task env i title' d' g' due' p' s)
      (\<lambda>t. \<exists>t0. abs_tasks s i = Some t0 \<and> t = updated_record env title' d' g' due' p' t0)"
    using update_task_outcome [OF wf, of env i title' d' g' due' p'] id
    by (auto simp: refines_put_def updated_record_def)
  show "refines_put s (transition_task env i a s)
      (\<lambda>t. \<exists>t0 dst. abs_tasks s i = Some t0 \<and> normalize_state a = Inr dst \<and> t = transitioned env dst t0)"
    using transition_task_total [OF wf, of env i a] id by (auto simp: refines_put_def)
qed

theorem operations_refine_map_witness:
  "\<exists>s. init_store ''k'' None default_options [] 0 = Inr s \<and>
     refines_put s (create_task stub_env '' milk '' PNone None PNone 0 s)
       (\<lambda>t. abs_tasks s (task_id t) = None \<and> t = created_record stub_env (task_id t) '' milk '' PNone None PNone 0)"
proof -
  obtain s where s: "init_store ''k'' None default_options [] 0 = Inr s" using init_store_ok [of "''k''"] by auto
  from operations_refine_map [OF init_store_wf [OF s]] s show ?thesis by blast
qed

text \<open>
  C5. In the default configuration, after any run of operations on a new store, the log holds the
  legal history of every task: its transitions form a chain from CREATED along the lifecycle matrix,
  each starting where the one before ended, the last one ending in the state the table shows; no
  state is visited twice and there are at most three transitions.
\<close>

theorem task_history_is_legal:
  assumes "init_store key None default_options [] 0 = Inr s0"
    and "s = fold store_step ops s0" and "abs_tasks s i = Some t"
  shows "successively legacy_allowed (states_of s i)
    \<and> map tr_from_state (history s i) = butlast (states_of s i)
    \<and> last (states_of s i) = task_status t
    \<and> distinct (states_of s i) \<and> length (history s i) \<le> 3"
proof -
  have "legacy_inv s"
    unfolding assms(2) by (rule legacy_run.run_inv [OF legacy_inv_init [OF assms(1)]])
  with assms(3) have h: "successively legacy_allowed (states_of s i)"
    "map tr_from_state (history s i) = butlast (states_of s i)" "task_status t = last (states_of s i)"
    by (auto simp: legacy_inv_def hist_ok_def)
  from legacy.history_length [OF h(1)] legacy.history_distinct [OF h(1)] h show ?thesis
    by (simp add: states_of_def)
qed

text \<open>A store with one task, for the witnesses.\<close>

lemma one_task:
  obtains s0 s where "init_store ''k'' None default_options [] 0 = Inr s0"
    "s = fold store_step [(stub_env, CreateOp ''milk'' PNone None PNone 0)] s0" "legacy_inv s" "ts_open s"
    "abs_tasks s 1 = Some (created_record stub_env 1 ''milk'' PNone None PNone 0)"
proof -
  obtain s0 where s0: "init_store ''k'' None default_options [] 0 = Inr s0"
    using init_store_ok [of "''k''"] by auto
  note f = init_store_fields [OF s0] and wf = init_store_wf [OF s0] and inv = legacy_inv_init [OF s0]
  let ?s = "store_step (stub_env, CreateOp ''milk'' PNone None PNone 0) s0"
  have strip: "strip ''milk'' = ''milk''" by (simp add: strip_def is_space_def)
  have granted: "storage_granted stub_env ''WRITE_TASK'' (state_value CREATED) s0"
    using f by (simp add: storage_granted_def)
  obtain c where c: "encrypt_text (ts_key s0) ''milk'' = Inr c" using encrypt_text_ok by blast
  have create: "create_task stub_env ''milk'' PNone None PNone 0 s0 \<noteq> (Inl e, s0)" for e
    using f strip granted create_row_outcome [OF wf, of "''milk''" PNone PNone None 0 stub_env] c
    by (auto simp: create_task_def and_then_def Let_def validate_storage_granted create_task_row_def
        encrypt_stripped_def db_check_def fits_int64_def max_int64_def)
  with create_task_outcome [OF wf, of stub_env "''milk''" PNone None PNone 0] f
  have abs: "abs_tasks ?s 1 = Some (created_record stub_env 1 ''milk'' PNone None PNone 0)"
    by auto
  have "legacy_inv ?s" by (rule legacy_inv_step [OF inv])
  moreover have "ts_open ?s"
    using f strip granted c
    by (simp add: create_task_def and_then_def Let_def validate_storage_granted create_task_row_def
        encrypt_stripped_def db_check_def fits_int64_def max_int64_def fetch_def split: sum.splits)
  ultimately show thesis using that [OF s0, of ?s] abs by simp
qed

theorem task_history_is_legal_witness:
  "\<exists>s0 s t. init_store ''k'' None default_options [] 0 = Inr s0
     \<and> s = fold store_step [(stub_env, CreateOp ''milk'' PNone None PNone 0)] s0
     \<and> abs_tasks s 1 = Some t \<and> last (states_of s 1) = task_status t \<and> length (history s 1) \<le> 3"
proof -
  obtain s0 s where s: "init_store ''k'' None default_options [] 0 = Inr s0"
    "s = fold store_step [(stub_env, CreateOp ''milk'' PNone None PNone 0)] s0"
    "abs_tasks s 1 = Some (created_record stub_env 1 ''milk'' PNone None PNone 0)"
    by (rule one_task)
  from task_history_is_legal [OF s] s show ?thesis by blast
qed

text \<open>
  Archiving is final in the default configuration: a task that a run has archived stays archived
  through every later operation, and its history does not grow.
\<close>

theorem archived_tasks_stay_archived:
  assumes "init_store key None default_options [] 0 = Inr s0"
    and "s = fold store_step ops s0" and "abs_tasks s i = Some t" and "task_status t = ARCHIVED"
  shows "\<exists>t'. abs_tasks (fold store_step later s) i = Some t' \<and> task_status t' = ARCHIVED
    \<and> history (fold store_step later s) i = history s i"
proof -
  let ?s' = "fold store_step later s"
  have inv: "legacy_inv s"
    unfolding assms(2) by (rule legacy_run.run_inv [OF legacy_inv_init [OF assms(1)]])
  have inv': "legacy_inv ?s'" by (rule legacy_run.run_inv [OF inv])
  note ext = legacy_run.run_after [OF inv, of later]
  obtain hs where hs: "history ?s' i = history s i @ hs"
    using ext by (auto simp: store_extends_def history_def prefix_def)
  from assms(3) obtain r where "r \<in> set (ts_rows s)" "row_id r = i"
    by (auto simp: abs_tasks_Some dest: find_row_Some)
  then have "(i, row_created_at r) \<in> set (map row_identity (ts_rows ?s'))"
    using ext set_mono_prefix [of "map row_identity (ts_rows s)" "map row_identity (ts_rows ?s')"]
    by (auto simp: store_extends_def row_identity_def)
  then have "i \<in> row_id ` set (ts_rows ?s')" by (auto simp: row_identity_def)
  then have "find_row (ts_rows ?s') i \<noteq> None" unfolding find_row_None by blast
  then obtain t' where t': "abs_tasks ?s' i = Some t'"
    using inv' wf_row_record find_row_Some by (fastforce simp: legacy_inv_def abs_tasks_Some)
  have "last (states_of s i) = ARCHIVED" using inv assms(3,4) by (auto simp: legacy_inv_def hist_ok_def)
  moreover have "states_of s i \<noteq> []" by (simp add: states_of_def)
  ultimately have split: "states_of ?s' i = butlast (states_of s i) @ [ARCHIVED] @ map tr_to_state hs"
    using append_butlast_last_id [of "states_of s i"] by (simp add: states_of_def hs)
  from inv' t' have "successively legacy_allowed (states_of ?s' i)" "task_status t' = last (states_of ?s' i)"
    by (auto simp: legacy_inv_def hist_ok_def)
  with legacy.terminal_last [of "butlast (states_of s i)" "map tr_to_state hs"] split have
    "hs = []" "task_status t' = ARCHIVED" by auto
  with hs t' show ?thesis by simp
qed

lemma one_archived_task:
  obtains s0 s t where "init_store ''k'' None default_options [] 0 = Inr s0"
    "s = fold store_step [(stub_env, CreateOp ''milk'' PNone None PNone 0), (stub_env, TransitionOp 1 (StateEnum ARCHIVED))] s0"
    "abs_tasks s 1 = Some t" "task_status t = ARCHIVED"
proof -
  obtain s0 s1 where s: "init_store ''k'' None default_options [] 0 = Inr s0"
    "s1 = fold store_step [(stub_env, CreateOp ''milk'' PNone None PNone 0)] s0" "legacy_inv s1" "ts_open s1"
    "abs_tasks s1 1 = Some (created_record stub_env 1 ''milk'' PNone None PNone 0)"
    by (rule one_task)
  let ?t = "transitioned stub_env ARCHIVED (created_record stub_env 1 ''milk'' PNone None PNone 0)"
  have lc: "legacy_config s1" and wf: "wf_store s1" using s(3) by (auto simp: legacy_inv_def)
  have "abs_tasks (snd (transition_task stub_env 1 (StateEnum ARCHIVED) s1)) = (abs_tasks s1)(1 \<mapsto> ?t)"
    using transition_task_outcome(3) [OF wf s(5,4), of stub_env ARCHIVED] lc
    by (auto simp: legacy_memory_granted legacy_storage_granted created_record_def legacy_allowed_def)
  then show thesis using that [OF s(1) refl, of ?t] s(2) by (simp add: transitioned_def)
qed

theorem archived_tasks_stay_archived_witness:
  "\<exists>s0 s t'. init_store ''k'' None default_options [] 0 = Inr s0
     \<and> s = fold store_step [(stub_env, CreateOp ''milk'' PNone None PNone 0), (stub_env, TransitionOp 1 (StateEnum ARCHIVED))] s0
     \<and> abs_tasks (fold store_step [(stub_env, TransitionOp 1 (StateEnum ACTIVE))] s) 1 = Some t'
     \<and> task_status t' = ARCHIVED"
proof -
  obtain s0 s t where s: "init_store ''k'' None default_options [] 0 = Inr s0"
    "s = fold store_step [(stub_env, CreateOp ''milk'' PNone None PNone 0), (stub_env, TransitionOp 1 (StateEnum ARCHIVED))] s0"
    "abs_tasks s 1 = Some t" "task_status t = ARCHIVED"
    by (rule one_archived_task)
  from archived_tasks_stay_archived [OF s, of "[(stub_env, TransitionOp 1 (StateEnum ACTIVE))]"] s(1,2)
  show ?thesis by blast
qed

text \<open>
  C3. No row is written without the storage authority: if an operation changes the table, storage was
  granted for that very operation and task state (a storage bridge approved the request, or there is
  none and enforcement is off); a transition also needed the memory authority or the lifecycle
  manager.
\<close>

theorem rows_change_needs_approval:
  assumes wf: "wf_store s"
  shows "(ts_rows (snd (create_task env title d due g p s)) \<noteq> ts_rows s \<longrightarrow>
      storage_granted env ''WRITE_TASK'' ''CREATED'' s)
    \<and> (ts_rows (snd (update_task env i title' d' g' due' p' s)) \<noteq> ts_rows s \<longrightarrow>
      (\<exists>t. abs_tasks s i = Some t \<and> storage_granted env ''UPDATE_TASK'' (state_value (task_status t)) s))
    \<and> (ts_rows (snd (transition_task env i (StateEnum dst) s)) \<noteq> ts_rows s \<longrightarrow>
      (\<exists>t. abs_tasks s i = Some t \<and> memory_granted env i (task_status t) dst s
        \<and> storage_granted (at_site 2 env) (storage_operation_for_destination dst) (state_value (task_status t)) s))"
proof (intro conjI impI)
  show "storage_granted env ''WRITE_TASK'' ''CREATED'' s"
    if "ts_rows (snd (create_task env title d due g p s)) \<noteq> ts_rows s"
    using that create_task_outcome [OF wf, of env title d due g p] by auto
  show "\<exists>t. abs_tasks s i = Some t \<and> storage_granted env ''UPDATE_TASK'' (state_value (task_status t)) s"
    if "ts_rows (snd (update_task env i title' d' g' due' p' s)) \<noteq> ts_rows s"
    using that update_task_outcome [OF wf, of env i title' d' g' due' p'] by auto
  assume changed: "ts_rows (snd (transition_task env i (StateEnum dst) s)) \<noteq> ts_rows s"
  then obtain t where t: "abs_tasks s i = Some t" "ts_open s"
    using transition_task_arg [OF wf, of env i "StateEnum dst"] by auto
  from changed transition_task_outcome(1,2) [OF wf t, of env dst] t(1)
  show "\<exists>t. abs_tasks s i = Some t \<and> memory_granted env i (task_status t) dst s
        \<and> storage_granted (at_site 2 env) (storage_operation_for_destination dst) (state_value (task_status t)) s"
    by (metis log_transition_simps(1) snd_conv)
qed

theorem rows_change_needs_approval_witness:
  "\<exists>s. wf_store s \<and> ts_enforce_storage_authority s \<and> ts_storage_bridge s = None \<and> abs_tasks s 1 \<noteq> None
     \<and> ts_rows (snd (transition_task stub_env 1 (StateEnum ARCHIVED) s)) = ts_rows s"
proof -
  obtain s where s: "legacy_inv s" "abs_tasks s 1 = Some (created_record stub_env 1 ''milk'' PNone None PNone 0)"
    by (rule one_task)
  let ?s = "s\<lparr>ts_enforce_storage_authority := True\<rparr>"
  have wf: "wf_store ?s" and br: "ts_storage_bridge s = None" and abs: "abs_tasks ?s 1 \<noteq> None"
    using s by (auto simp: legacy_inv_def wf_store_def legacy_config_def abs_tasks_def)
  have "\<not> storage_granted env operation st ?s" for env operation st
    using br by (simp add: storage_granted_def)
  then have "ts_rows (snd (transition_task stub_env 1 (StateEnum ARCHIVED) ?s)) = ts_rows ?s"
    using rows_change_needs_approval [OF wf, of stub_env _ _ _ _ _ 1 _ _ _ _ _ ARCHIVED] by blast
  with wf br abs show ?thesis by (intro exI [of _ ?s]) simp
qed

text \<open>
  C40. The log runs ahead of the table: when the lifecycle or memory authority grants a transition and
  the storage authority then refuses it, the call raises and the table is unchanged, but the
  transition log has gained a record of a transition that did not happen.
\<close>

theorem refused_storage_leaves_log_record:
  assumes "wf_store s" and "abs_tasks s i = Some t" and "ts_open s"
    and "memory_granted env i (task_status t) dst s"
    and "\<not> storage_granted (at_site 2 env) (storage_operation_for_destination dst) (state_value (task_status t)) s"
  shows "\<exists>e s'. transition_task env i (StateEnum dst) s = (Inl e, s') \<and> ts_rows s' = ts_rows s
    \<and> lm_transition_log (ts_lifecycle s') = lm_transition_log (ts_lifecycle s) @
        [\<lparr>tr_task_id = i, tr_from_state = task_status t, tr_to_state = dst,
          tr_changed_at_utc = env_now (at_site 5 env) 0\<rparr>]"
  using transition_task_outcome(2) [OF assms]
  by (auto simp: log_transition_def append_transition_record_def)

theorem refused_storage_leaves_log_record_witness:
  "\<exists>s e s'. transition_task stub_env 1 (StateEnum ARCHIVED) s = (Inl e, s') \<and> ts_rows s' = ts_rows s
     \<and> length (lm_transition_log (ts_lifecycle s')) = length (lm_transition_log (ts_lifecycle s)) + 1"
proof -
  let ?t = "created_record stub_env 1 ''milk'' PNone None PNone 0"
  obtain s where s: "legacy_inv s" "ts_open s" "abs_tasks s 1 = Some ?t"
    by (rule one_task)
  let ?s = "s\<lparr>ts_enforce_storage_authority := True\<rparr>"
  have wf: "wf_store ?s" and br: "ts_storage_bridge s = None" and abs: "abs_tasks ?s 1 = Some ?t" and o: "ts_open ?s"
    using s by (auto simp: legacy_inv_def wf_store_def legacy_config_def abs_tasks_def)
  have "memory_granted stub_env 1 CREATED ARCHIVED ?s"
    using s(1) by (simp add: legacy_inv_def legacy_config_def memory_granted_def authorize_legacy legacy_allowed_def)
  then have m: "memory_granted stub_env 1 (task_status ?t) ARCHIVED ?s" by (simp add: created_record_def)
  have "\<not> storage_granted env operation st ?s" for env operation st
    using br by (simp add: storage_granted_def)
  from refused_storage_leaves_log_record [OF wf abs o m this] show ?thesis by fastforce
qed

text \<open>
  With a memory bridge the lifecycle matrix is not consulted: whatever transition the memory
  authority approves is carried out and logged, one that the matrix forbids included.
\<close>

theorem memory_authority_replaces_matrix:
  assumes "wf_store s" and "abs_tasks s i = Some t" and "ts_open s"
    and "ts_memory_bridge s = Some br" and "memory_granted env i (task_status t) dst s"
    and "storage_granted (at_site 2 env) (storage_operation_for_destination dst) (state_value (task_status t)) s"
    and "\<not> legacy_allowed (task_status t) dst"
  shows "\<exists>s' t'. transition_task env i (StateEnum dst) s = (Inr (Some t'), s') \<and> task_status t' = dst
    \<and> abs_tasks s' i = Some t'
    \<and> (\<exists>r. lm_transition_log (ts_lifecycle s') = lm_transition_log (ts_lifecycle s) @ [r]
          \<and> \<not> legacy_allowed (tr_from_state r) (tr_to_state r))"
proof -
  obtain s' where s': "transition_task env i (StateEnum dst) s = (Inr (Some (transitioned env dst t)), s')"
    "abs_tasks s' = (abs_tasks s)(i \<mapsto> transitioned env dst t)"
    "ts_lifecycle s' = ts_lifecycle (log_transition env i (task_status t) dst s)"
    using transition_task_outcome(3) [OF assms(1,2,3,5,6)] by blast
  then show ?thesis using assms(7)
    by (intro exI [of _ s'] exI [of _ "transitioned env dst t"])
      (simp add: transitioned_def log_transition_def append_transition_record_def)
qed

text \<open>A memory transport that approves everything, for the witness.\<close>

definition approving_memory_bridge :: rust_bridge where
  "approving_memory_bridge = \<lparr>rb_auth_transport = None, rb_transition_transport = None,
     rb_energy_transport = None, rb_storage_transport = None,
     rb_memory_transport = Some (\<lambda>m. Inr (PDict (build_memory_result 0
       (py_str stub_env (dict_get m ''correlation_id'')) True None None False True))),
     rb_max_message_bytes = MAX_MESSAGE_BYTES\<rparr>"

theorem memory_authority_replaces_matrix_witness:
  "\<exists>s s' t'. transition_task stub_env 1 (StateEnum COMPLETED) s = (Inr (Some t'), s')
     \<and> abs_tasks s 1 = Some (created_record stub_env 1 ''milk'' PNone None PNone 0) \<and> task_status t' = COMPLETED"
proof -
  let ?t = "created_record stub_env 1 ''milk'' PNone None PNone 0"
  obtain s where s: "legacy_inv s" "ts_open s" "abs_tasks s 1 = Some ?t"
    by (rule one_task)
  let ?s = "s\<lparr>ts_memory_bridge := Some approving_memory_bridge\<rparr>"
  have wf: "wf_store ?s" and lc: "legacy_config s" and abs: "abs_tasks ?s 1 = Some ?t" and o: "ts_open ?s"
    and b: "ts_memory_bridge ?s = Some approving_memory_bridge"
    using s by (auto simp: legacy_inv_def wf_store_def abs_tasks_def)
  have m: "memory_granted stub_env 1 (task_status ?t) COMPLETED ?s"
    using lc by (simp add: memory_granted_def legacy_config_def request_storage_permission_def
        memory_verdict_def consult_def first_transport_def approving_memory_bridge_def
        memory_message_def build_memory_validate_def envelope_def parse_build_results)
  have g: "storage_granted (at_site 2 stub_env) (storage_operation_for_destination COMPLETED) (state_value (task_status ?t)) ?s"
    using lc by (simp add: storage_granted_def legacy_config_def)
  have "\<not> legacy_allowed (task_status ?t) COMPLETED" by (simp add: created_record_def legacy_allowed_def)
  from memory_authority_replaces_matrix [OF wf abs o b m g this] abs show ?thesis by blast
qed

lemma create_task_ok:
  assumes wf: "wf_store s" and "strip title \<noteq> []" and "is_str d \<or> d = PNone" and "is_str g \<or> g = PNone"
    and "fits_int64 p" and "ts_open s" and "ts_seq s < max_int64"
    and "storage_granted env ''WRITE_TASK'' ''CREATED'' s"
  obtains s' where "create_task env title d due g p s = (Inr (Some (created_record env (ts_seq s + 1) title d due g p)), s')"
    "abs_tasks s' = (abs_tasks s)(ts_seq s + 1 \<mapsto> created_record env (ts_seq s + 1) title d due g p)"
    "get_task s' (ts_seq s + 1) = Inr (Some (created_record env (ts_seq s + 1) title d due g p))"
proof -
  obtain ct where "encrypt_text (ts_key s) (strip title) = Inr ct" using encrypt_text_ok by blast
  moreover obtain cd where "encrypt_stripped (ts_key s) d = Inr cd" using encrypt_stripped_ok assms(3) by blast
  moreover obtain cg where "encrypt_stripped (ts_key s) g = Inr cg" using encrypt_stripped_ok assms(4) by blast
  ultimately have "\<nexists>e. create_task_row (strip title) d g due p (env_now env 0) s = (Inl e, s)"
    using assms by (simp add: create_task_row_def db_check_def Let_def)
  then obtain s' where
    "create_task_row (strip title) d g due p (env_now env 0) s = (Inr (ts_seq s + 1), s')"
    "fetch (ts_seq s + 1) s' = (Inr (Some (created_record env (ts_seq s + 1) title d due g p)), s')"
    "abs_tasks s' = (abs_tasks s)(ts_seq s + 1 \<mapsto> created_record env (ts_seq s + 1) title d due g p)"
    using create_row_outcome [OF wf assms(2), of d g due p env] by blast
  then show thesis using assms(2,8)
    by (intro that [of s']) (simp_all add: create_task_def and_then_def Let_def validate_storage_granted fetch_def)
qed

text \<open>
  C12. Creating a task succeeds whenever its inputs are sensible: a title that is not blank, text or
  nothing for description and goal, a priority that fits the column, an open connection, a grant of
  the storage authority and a free id. The record returned has the stripped texts, and reading the
  new id gives the same record back, through encryption and decryption.
\<close>

theorem create_task_then_get_task:
  assumes wf: "wf_store s" and "strip title \<noteq> []" and "is_str d \<or> d = PNone" and "is_str g \<or> g = PNone"
    and "fits_int64 p" and "ts_open s" and "ts_seq s < max_int64"
    and "storage_granted env ''WRITE_TASK'' ''CREATED'' s"
  shows "\<exists>t s'. create_task env title d due g p s = (Inr (Some t), s')
    \<and> t = created_record env (ts_seq s + 1) title d due g p
    \<and> get_task s' (ts_seq s + 1) = Inr (Some t)
    \<and> (\<forall>j. j \<noteq> ts_seq s + 1 \<longrightarrow> abs_tasks s' j = abs_tasks s j)"
proof -
  obtain s' where "create_task env title d due g p s = (Inr (Some (created_record env (ts_seq s + 1) title d due g p)), s')"
    "abs_tasks s' = (abs_tasks s)(ts_seq s + 1 \<mapsto> created_record env (ts_seq s + 1) title d due g p)"
    "get_task s' (ts_seq s + 1) = Inr (Some (created_record env (ts_seq s + 1) title d due g p))"
    by (rule create_task_ok [OF assms])
  then show ?thesis by simp
qed

theorem create_task_then_get_task_witness:
  "\<exists>s t s'. init_store ''k'' None default_options [] 0 = Inr s
     \<and> create_task stub_env '' milk '' (PStr ''2 l'') None PNone 3 s = (Inr (Some t), s')
     \<and> get_task s' 1 = Inr (Some t) \<and> task_title t = ''milk'' \<and> task_description t = Some ''2 l''"
proof -
  obtain s where s: "init_store ''k'' None default_options [] 0 = Inr s" using init_store_ok [of "''k''"] by auto
  note f = init_store_fields [OF s]
  have e: "strip '' milk '' = ''milk''" "strip ''2 l'' = ''2 l''" by (simp_all add: strip_def is_space_def)
  have "\<exists>t s'. create_task stub_env '' milk '' (PStr ''2 l'') None PNone 3 s = (Inr (Some t), s')
    \<and> t = created_record stub_env (ts_seq s + 1) '' milk '' (PStr ''2 l'') None PNone 3
    \<and> get_task s' (ts_seq s + 1) = Inr (Some t)
    \<and> (\<forall>j. j \<noteq> ts_seq s + 1 \<longrightarrow> abs_tasks s' j = abs_tasks s j)"
    by (rule create_task_then_get_task [OF init_store_wf [OF s]])
      (simp_all add: e f fits_int64_def max_int64_def storage_granted_def)
  with s f e show ?thesis by (force simp: created_record_def)
qed

text \<open>Reading all rows of a well-formed table.\<close>

lemma map_result_ok:
  "(\<And>x. x \<in> set xs \<Longrightarrow> f x = Inr (h x)) \<Longrightarrow> map_result f xs = Inr (map h xs)"
  by (induction xs) auto

lemma sort_descending:
  assumes "sorted_wrt (<) (map row_id rows)"
  shows "sorted_wrt (>) (map row_id (sort_key (\<lambda>r. - row_id r) rows))"
proof -
  let ?xs = "sort_key (\<lambda>r. - row_id r) rows"
  have "distinct (map row_id ?xs)"
    using assms by (simp add: strict_sorted_iff distinct_map)
  moreover have "sorted_wrt (\<ge>) (map row_id ?xs)"
    using sorted_sort_key [of "\<lambda>r. - row_id r" rows] by (simp add: sorted_wrt_map)
  ultimately show ?thesis
    by (simp add: sorted_wrt_iff_nth_less distinct_conv_nth order_less_le)
qed

lemma list_tasks_spec:
  assumes wf: "wf_store s" and "ts_open s"
  shows "\<exists>ts. list_tasks s include_archived = Inr ts \<and> sorted_wrt (>) (map task_id ts)
    \<and> (\<forall>t. t \<in> set ts \<longleftrightarrow> (\<exists>i. abs_tasks s i = Some t) \<and> (include_archived \<or> task_status t \<noteq> ARCHIVED))"
proof -
  let ?rec = "\<lambda>r. projr (row_to_record (ts_key s) r)"
  let ?sel = "if include_archived then ts_rows s
    else filter (\<lambda>r. row_state r \<noteq> state_value ARCHIVED) (ts_rows s)"
  let ?xs = "sort_key (\<lambda>r. - row_id r) ?sel"
  have rec: "row_to_record (ts_key s) r = Inr (?rec r)" if "r \<in> set (ts_rows s)" for r
    using wf_row_record [OF wf that] by auto
  have "list_tasks s include_archived = map_result (row_to_record (ts_key s)) ?xs"
    using assms(2) by (simp add: list_tasks_def db_check_def Let_def)
  also have "\<dots> = Inr (map ?rec ?xs)"
    by (rule map_result_ok) (auto intro: rec split: if_splits)
  finally have list: "list_tasks s include_archived = Inr (map ?rec ?xs)" .
  have "sorted_wrt (<) (map row_id ?sel)"
    using wf by (auto simp: wf_store_def sorted_wrt_filter sorted_wrt_map)
  from sort_descending [OF this] have "sorted_wrt (>) (map task_id (map ?rec ?xs))"
    unfolding sorted_wrt_map
    by (rule sorted_wrt_mono_rel [rotated]) (auto simp: row_to_record_Inr(2) [OF rec] split: if_splits)
  moreover have "t \<in> set (map ?rec ?xs) \<longleftrightarrow>
      (\<exists>i. abs_tasks s i = Some t) \<and> (include_archived \<or> task_status t \<noteq> ARCHIVED)" for t
  proof -
    have "(\<exists>i. abs_tasks s i = Some t) \<longleftrightarrow> (\<exists>r\<in>set (ts_rows s). t = ?rec r)"
    proof
      assume "\<exists>i. abs_tasks s i = Some t"
      then obtain i r where r: "find_row (ts_rows s) i = Some r" "row_to_record (ts_key s) r = Inr t"
        by (auto simp: abs_tasks_Some)
      then show "\<exists>r\<in>set (ts_rows s). t = ?rec r"
        using find_row_Some [OF r(1)] by (intro bexI [of _ r]) auto
    next
      assume "\<exists>r\<in>set (ts_rows s). t = ?rec r"
      then show "\<exists>i. abs_tasks s i = Some t"
        using find_row_distinct [OF wf_distinct [OF wf]] rec by (auto simp: abs_tasks_Some)
    qed
    moreover have "row_state r = state_value ARCHIVED \<longleftrightarrow> task_status (?rec r) = ARCHIVED"
      if "r \<in> set (ts_rows s)" for r
      using row_to_record_Inr(1) [OF rec [OF that]] state_value_inj by metis
    ultimately show ?thesis by auto
  qed
  ultimately show ?thesis using list by blast
qed

text \<open>
  Listing an open well-formed store never raises: it returns every task of the store, newest
  first and each once, or every one that is not archived when archived tasks are not asked for.
\<close>

theorem list_tasks_newest_first:
  assumes wf: "wf_store s" and "ts_open s"
  shows "\<exists>ts. list_tasks s include_archived = Inr ts \<and> sorted_wrt (>) (map task_id ts)
    \<and> (\<forall>t. t \<in> set ts \<longleftrightarrow> (\<exists>i. abs_tasks s i = Some t) \<and> (include_archived \<or> task_status t \<noteq> ARCHIVED))"
  by (rule list_tasks_spec [OF assms])

theorem list_tasks_newest_first_witness:
  "\<exists>s ts. list_tasks s False = Inr ts \<and> created_record stub_env 1 ''milk'' PNone None PNone 0 \<in> set ts"
proof -
  obtain s where s: "legacy_inv s" "ts_open s"
    "abs_tasks s 1 = Some (created_record stub_env 1 ''milk'' PNone None PNone 0)"
    by (rule one_task)
  have "wf_store s" using s(1) by (simp add: legacy_inv_def)
  from list_tasks_newest_first [OF this s(2), of False] s(3) show ?thesis
    by (fastforce simp: created_record_def)
qed

end
