(* ===== verification/Challenge_Logic.thy ===== *)
theory Challenge_Logic
  imports Encryption_Layer
begin

text \<open>
  \<open>core/cognition/challenge_logic.py\<close>: the advisory challenge of misaligned actions, with the memory
  of what was challenged and rejected, and the guardrail that a task and action are challenged at
  most once over any sequence of calls.
\<close>

record challenge_logic =
  cl_challenge_threshold :: pyfloat
  cl_challenged_keys :: "(int \<times> string) set"
  cl_rejected_keys :: "(int \<times> string) set"

definition init_challenge :: "pyfloat \<Rightarrow> exc + challenge_logic" where
  "init_challenge challenge_threshold =
     (if outside_unit challenge_threshold
      then Inl (ValueError ''challenge_threshold must be between 0 and 1'')
      else Inr \<lparr>cl_challenge_threshold = challenge_threshold, cl_challenged_keys = {},
                cl_rejected_keys = {}\<rparr>)"

definition normalize_action :: "string \<Rightarrow> string" where
  "normalize_action action = join '' '' (words (strip (lower action)))"

definition make_challenge_id :: "int \<Rightarrow> string \<Rightarrow> exc + string" where
  "make_challenge_id task_id action_key =
     result_bind (utf8_encode (of_text (dec_int task_id @ '':'' @ action_key))) (\<lambda>token.
       Inr (''challenge-'' @ take 12 (hexdigest (sha1 (map of_nat token)))))"

definition challenge_message :: string where
  "challenge_message = ''This action appears misaligned with your stated goal. Continue anyway?''"

definition evaluate_challenge_logic ::
  "py_env \<Rightarrow> int \<Rightarrow> string \<Rightarrow> string \<Rightarrow> pyfloat \<Rightarrow> bool \<Rightarrow> (challenge_logic, pydict option) prog" where
  "evaluate_challenge_logic env task_id proposed_action declared_goal alignment_score user_overrode cl =
     (let action_key = normalize_action proposed_action; cache_key = (task_id, action_key) in
      if user_overrode then (Inr None, cl)
      else if cache_key \<in> cl_rejected_keys cl then (Inr None, cl)
      else if cache_key \<in> cl_challenged_keys cl then (Inr None, cl)
      else if float_ge alignment_score (cl_challenge_threshold cl) then (Inr None, cl)
      else let cl' = cl\<lparr>cl_challenged_keys := insert cache_key (cl_challenged_keys cl)\<rparr> in
        case make_challenge_id task_id action_key of
          Inl e \<Rightarrow> (Inl e, cl')
        | Inr challenge_id \<Rightarrow>
            (Inr (Some [(''challenge_id'', PStr challenge_id), (''task_id'', PInt task_id),
               (''action'', PStr proposed_action), (''goal'', PStr declared_goal),
               (''alignment_score'', PFloat alignment_score), (''message'', PStr challenge_message),
               (''timestamp'', PStr (env_now env 0))]), cl'))"

definition record_response :: "int \<Rightarrow> string \<Rightarrow> bool \<Rightarrow> challenge_logic \<Rightarrow> challenge_logic" where
  "record_response task_id proposed_action accepted cl =
     (let cache_key = (task_id, normalize_action proposed_action) in
      if accepted then cl else cl\<lparr>cl_rejected_keys := insert cache_key (cl_rejected_keys cl)\<rparr>)"

section \<open>One call\<close>

lemma make_challenge_id_ok: "\<exists>c. make_challenge_id i k = Inr c"
proof -
  obtain bs where "utf8_encode (of_text (dec_int i @ '':'' @ k)) = Inr bs"
    using utf8_encode_ok of_text_scalar by blast
  then show ?thesis by (simp add: make_challenge_id_def)
qed

definition challenges ::
  "challenge_logic \<Rightarrow> int \<Rightarrow> string \<Rightarrow> pyfloat \<Rightarrow> bool \<Rightarrow> bool" where
  "challenges cl i action score overrode \<longleftrightarrow>
     \<not> overrode \<and> (i, normalize_action action) \<notin> cl_rejected_keys cl \<union> cl_challenged_keys cl \<and>
     \<not> float_ge score (cl_challenge_threshold cl)"

lemma evaluate_not_challenged:
  "\<not> challenges cl i action score overrode \<Longrightarrow>
   evaluate_challenge_logic env i action goal score overrode cl = (Inr None, cl)"
  by (auto simp: challenges_def evaluate_challenge_logic_def Let_def)

lemma evaluate_challenged:
  "challenges cl i action score overrode \<Longrightarrow>
   \<exists>d. evaluate_challenge_logic env i action goal score overrode cl =
     (Inr (Some d), cl\<lparr>cl_challenged_keys := insert (i, normalize_action action) (cl_challenged_keys cl)\<rparr>)
     \<and> dict_get d ''task_id'' = PInt i \<and> dict_get d ''alignment_score'' = PFloat score"
  using make_challenge_id_ok [of i "normalize_action action"]
  by (auto simp: challenges_def evaluate_challenge_logic_def Let_def dict_get_def)

lemma evaluate_never_raises: "\<exists>r. fst (evaluate_challenge_logic env i action goal score overrode cl) = Inr r"
  by (cases "challenges cl i action score overrode")
    (auto simp: evaluate_not_challenged dest: evaluate_challenged [of _ _ _ _ _ env goal])

section \<open>Sequences of calls\<close>

datatype challenge_op =
    Evaluate py_env int string string pyfloat bool
  | Respond int string bool

text \<open>The state with the keys of the challenges that were issued, in order.\<close>

fun challenge_step ::
  "challenge_op \<Rightarrow> challenge_logic \<times> (int \<times> string) list \<Rightarrow> challenge_logic \<times> (int \<times> string) list" where
  "challenge_step (Evaluate env i action goal score overrode) (cl, issued) =
     (case evaluate_challenge_logic env i action goal score overrode cl of
        (Inr (Some _), cl') \<Rightarrow> (cl', issued @ [(i, normalize_action action)])
      | (_, cl') \<Rightarrow> (cl', issued))"
| "challenge_step (Respond i action accepted) (cl, issued) = (record_response i action accepted cl, issued)"

fun challenge_inv :: "challenge_logic \<times> (int \<times> string) list \<Rightarrow> bool" where
  "challenge_inv (cl, issued) \<longleftrightarrow> distinct issued \<and> set issued = cl_challenged_keys cl"

fun challenge_after ::
  "challenge_logic \<times> (int \<times> string) list \<Rightarrow> challenge_logic \<times> (int \<times> string) list \<Rightarrow> bool" where
  "challenge_after (cl, issued) (cl', issued') \<longleftrightarrow>
     cl_challenge_threshold cl' = cl_challenge_threshold cl \<and> cl_rejected_keys cl \<subseteq> cl_rejected_keys cl' \<and>
     (\<exists>ks. issued' = issued @ ks \<and> set ks \<inter> cl_rejected_keys cl = {})"

interpretation challenge_run: machine challenge_step challenge_inv challenge_after
proof
  fix s t u :: "challenge_logic \<times> (int \<times> string) list" and x
  obtain cl issued where s: "s = (cl, issued)" by (cases s)
  show "challenge_inv s \<Longrightarrow> challenge_inv (challenge_step x s)"
  proof (cases x)
    case (Evaluate env i action goal score overrode)
    assume "challenge_inv s"
    then show ?thesis
      using evaluate_challenged [of cl i action score overrode env goal]
      by (cases "challenges cl i action score overrode")
        (auto simp: s Evaluate evaluate_not_challenged challenges_def)
  qed (auto simp: s record_response_def Let_def)
  show "challenge_after s (challenge_step x s)"
  proof (cases x)
    case (Evaluate env i action goal score overrode)
    then show ?thesis
      using evaluate_challenged [of cl i action score overrode env goal]
      by (cases "challenges cl i action score overrode")
        (auto simp: s evaluate_not_challenged challenges_def)
  qed (auto simp: s record_response_def Let_def)
  show "challenge_after s s" by (simp add: s)
  obtain cl1 issued1 cl2 issued2 where tu: "t = (cl1, issued1)" "u = (cl2, issued2)" by (cases t; cases u)
  assume "challenge_after s t" "challenge_after t u"
  then obtain ks ks' where
    "issued1 = issued @ ks" "issued2 = issued1 @ ks'"
    "set ks \<inter> cl_rejected_keys cl = {}" "set ks' \<inter> cl_rejected_keys cl1 = {}"
    "cl_rejected_keys cl \<subseteq> cl_rejected_keys cl1" "cl_rejected_keys cl1 \<subseteq> cl_rejected_keys cl2"
    "cl_challenge_threshold cl1 = cl_challenge_threshold cl" "cl_challenge_threshold cl2 = cl_challenge_threshold cl1"
    by (auto simp: s tu)
  then have "issued2 = issued @ (ks @ ks')" "set (ks @ ks') \<inter> cl_rejected_keys cl = {}"
    "cl_rejected_keys cl \<subseteq> cl_rejected_keys cl2" "cl_challenge_threshold cl2 = cl_challenge_threshold cl"
    by (simp_all add: Int_Un_distrib2) blast+
  then show "challenge_after s u" unfolding s tu challenge_after.simps by blast
qed

section \<open>Properties\<close>

text \<open>
  C24. The challenge guardrail: over any sequence of evaluations and recorded responses on a new
  challenge logic, the pairs of task and normalised action that were challenged are pairwise
  distinct (at most one challenge each), and a pair that has been rejected is never challenged
  afterwards.
\<close>

theorem at_most_one_challenge:
  assumes "init_challenge threshold = Inr cl"
    and "(cl', issued) = fold challenge_step ops (cl, [])"
    and "(cl'', issued') = fold challenge_step later (cl', issued)"
  shows "distinct issued' \<and> (\<exists>ks. issued' = issued @ ks \<and> set ks \<inter> cl_rejected_keys cl' = {})"
proof -
  have "challenge_inv (cl, [])"
    using assms(1) by (auto simp: init_challenge_def split: if_splits)
  from challenge_run.run_inv [OF this, of ops] have inv: "challenge_inv (cl', issued)"
    by (simp flip: assms(2))
  show ?thesis
    using challenge_run.run_inv [OF inv, of later] challenge_run.run_after [OF inv, of later]
    by (simp flip: assms(3))
qed

theorem at_most_one_challenge_witness:
  "\<exists>cl cl' issued cl'' issued'. init_challenge (Fin (1/2)) = Inr cl
     \<and> (cl', issued) = fold challenge_step [Evaluate stub_env 1 ''cancel_task'' [] (Fin 0) False] (cl, [])
     \<and> (cl'', issued') = fold challenge_step [Evaluate stub_env 1 ''Cancel_Task '' [] (Fin 0) False] (cl', issued)
     \<and> length issued = 1 \<and> issued' = issued"
proof -
  obtain cl where cl: "init_challenge (Fin (1/2)) = Inr cl"
    by (simp add: init_challenge_def outside_unit_def)
  let ?a = "fold challenge_step [Evaluate stub_env 1 ''cancel_task'' [] (Fin 0) False] (cl, [])"
  obtain cl' issued where a: "?a = (cl', issued)" by (cases ?a)
  let ?b = "fold challenge_step [Evaluate stub_env 1 ''Cancel_Task '' [] (Fin 0) False] (cl', issued)"
  obtain cl'' issued' where b: "?b = (cl'', issued')" by (cases ?b)
  have norm: "normalize_action ''Cancel_Task '' = normalize_action ''cancel_task''"
    by code_simp
  have ch: "challenges cl 1 ''cancel_task'' (Fin 0) False"
    using cl by (auto simp: init_challenge_def challenges_def outside_unit_def)
  have one: "issued = [(1, normalize_action ''cancel_task'')]"
    using a evaluate_challenged [OF ch, of stub_env "[]"] by auto
  then have "set issued' \<subseteq> {(1, normalize_action ''cancel_task'')}"
    using b norm by (auto split: prod.splits sum.splits option.splits)
  moreover obtain ks where "distinct issued'" "issued' = issued @ ks"
    using at_most_one_challenge [OF cl a [symmetric] b [symmetric]] by blast
  ultimately have "issued' = issued" using one by (cases ks) auto
  with cl a b one show ?thesis by (metis One_nat_def length_Cons list.size(3))
qed

end
