(* ===== verification/Command_Router.thy ===== *)
theory Command_Router
  imports Task_History Challenge_Logic "HOL-Library.Char_ord" "HOL-Library.List_Lexorder"
begin

text \<open>
  \<open>core/cognition/command_router.py\<close>: the single gateway from structured intents to task operations.
  \<open>route\<close> is modelled with every branch, exception and audit event; the registry maps intent types to
  handlers that act on the task store. The logger output and the lock are left out: the lock protects
  single appends only.
\<close>

section \<open>Results, executions, audit events\<close>

record command_result =
  res_status :: string
  res_action :: string
  res_audit_id :: string
  res_message_key :: string
  res_metadata :: pydict
  res_error_code :: "string option"
  res_challenge_payload :: "pydict option"

record action_execution =
  ax_action_type :: string
  ax_lifecycle_before :: "string option"
  ax_lifecycle_after :: "string option"
  ax_metadata :: pydict

record audit_event =
  ae_audit_id :: string
  ae_intent_id :: pyval
  ae_timestamp :: string
  ae_intent_timestamp :: string
  ae_identity_tier :: string
  ae_action_type :: string
  ae_lifecycle_before :: "string option"
  ae_lifecycle_after :: "string option"
  ae_success_flag :: bool
  ae_entities :: pydict

type_synonym action_handler = "py_env \<Rightarrow> pydict \<Rightarrow> (task_store, action_execution) prog"
type_synonym entity_validator = "py_env \<Rightarrow> pydict \<Rightarrow> exc + unit"

record action_definition =
  ad_action_type :: string
  ad_handler :: action_handler
  ad_validator :: entity_validator
  ad_challengeable :: bool

record command_router =
  rt_task_store :: task_store
  rt_challenge_logic :: challenge_logic
  rt_min_confidence :: pyfloat
  rt_enable_challenge_gate :: bool
  rt_registry :: "string \<Rightarrow> action_definition option"
  rt_audit_events :: "audit_event list"

record intent =
  in_intent_id :: string
  in_intent_type :: string
  in_entities :: pydict
  in_timestamp :: string
  in_confidence_score :: pyfloat

section \<open>Validation\<close>

definition REQUIRED_INTENT_KEYS :: "string list" where
  "REQUIRED_INTENT_KEYS = [''intent_type'', ''entities'', ''timestamp'', ''confidence_score'']"

fun normalize_intent_type :: "pyval \<Rightarrow> exc + string" where
  "normalize_intent_type (PStr s) =
     (if strip s = [] then Inl (ValueError ''intent_type must be a non-empty string'')
      else Inr (lower (strip s)))"
| "normalize_intent_type _ = Inl (ValueError ''intent_type must be a non-empty string'')"

definition normalize_timestamp :: "py_env \<Rightarrow> pyval \<Rightarrow> exc + string" where
  "normalize_timestamp env timestamp =
     result_bind
       (case timestamp of
          PDateTime d \<Rightarrow> Inr d
        | PStr s \<Rightarrow> (case env_fromiso env (replace_char (CHR ''Z'') ''+00:00'' s) of
             None \<Rightarrow> Inl (ValueError ''Invalid isoformat string'') | Some d \<Rightarrow> Inr d)
        | _ \<Rightarrow> Inl (ValueError ''timestamp must be ISO string or datetime''))
       (\<lambda>value. result_bind (astimezone_utc (replace_naive_with_utc value)) (\<lambda>u. Inr (env_iso env u)))"

definition safe_timestamp :: "py_env \<Rightarrow> pyval \<Rightarrow> exc + string" where
  "safe_timestamp env timestamp =
     (case normalize_timestamp env timestamp of
        Inr t \<Rightarrow> Inr t
      | Inl e \<Rightarrow> if is_value_error e then Inr (env_now env 1) else Inl e)"

definition validate_and_normalize_intent :: "py_env \<Rightarrow> pyval \<Rightarrow> exc + intent" where
  "validate_and_normalize_intent env intent_object =
     (case intent_object of
        PDict d \<Rightarrow>
          if \<not> list_all (dict_has d) REQUIRED_INTENT_KEYS
          then Inl (ValueError ''Missing required intent fields'')
          else
            result_bind (normalize_intent_type (dict_get d ''intent_type'')) (\<lambda>intent_type.
            case dict_get d ''entities'' of
              PDict entities \<Rightarrow>
                (let confidence = dict_get d ''confidence_score'' in
                 if \<not> is_number confidence then Inl (ValueError ''confidence_score must be numeric'')
                 else
                   result_bind (py_float env confidence) (\<lambda>confidence_float.
                   if outside_unit confidence_float
                   then Inl (ValueError ''confidence_score must be in [0.0, 1.0]'')
                   else
                     result_bind (normalize_timestamp env (dict_get d ''timestamp'')) (\<lambda>timestamp.
                     Inr \<lparr>in_intent_id = py_str env (dict_get_or d ''intent_id'' (PStr (env_uuid env 1))),
                          in_intent_type = intent_type, in_entities = entities,
                          in_timestamp = timestamp, in_confidence_score = confidence_float\<rparr>)))
            | _ \<Rightarrow> Inl (ValueError ''entities must be a mapping''))
      | _ \<Rightarrow> Inl (ValueError ''Intent must be a mapping''))"

definition validate_passthrough :: entity_validator where
  "validate_passthrough _ _ = Inr ()"

text \<open>\<open>entities.get("task", entities.get("title"))\<close>.\<close>

definition title_entity :: "pydict \<Rightarrow> pyval" where
  "title_entity entities = dict_get_or entities ''task'' (dict_get entities ''title'')"

definition blank_text :: "pyval \<Rightarrow> bool" where
  "blank_text v = (case v of PStr s \<Rightarrow> strip s = [] | _ \<Rightarrow> True)"

definition validate_create_task_entities :: entity_validator where
  "validate_create_task_entities env entities =
     (let title = title_entity entities; due_at = dict_get entities ''due_at'';
          priority = dict_get entities ''priority''
      in if blank_text title then Inl (ValueError ''create_task requires non-empty task/title'')
      else if due_at \<noteq> PNone \<and> blank_text due_at
        then Inl (ValueError ''due_at must be an ISO string when supplied'')
      else result_bind (if is_str due_at then normalize_timestamp env due_at else Inr []) (\<lambda>_.
        if priority \<noteq> PNone \<and> \<not> is_int priority then Inl (ValueError ''priority must be integer'')
        else Inr ()))"

definition validate_task_reference_entities :: entity_validator where
  "validate_task_reference_entities env entities =
     (let task_id = dict_get entities ''task_id''; task_name = dict_get entities ''task'';
          alignment = dict_get entities ''alignment_score''
      in if task_id = PNone \<and> blank_text task_name then Inl (ValueError ''task_id or task is required'')
      else if task_id \<noteq> PNone \<and> (\<not> is_int task_id \<or> int_of task_id \<le> 0)
        then Inl (ValueError ''task_id must be a positive integer'')
      else if alignment = PNone then Inr ()
      else if \<not> is_number alignment then Inl (ValueError ''alignment_score must be numeric'')
      else result_bind (py_float env alignment) (\<lambda>x.
        if outside_unit x then Inl (ValueError ''alignment_score must be in [0.0, 1.0]'') else Inr ()))"

section \<open>Handlers\<close>

definition resolve_task_reference :: "py_env \<Rightarrow> task_store \<Rightarrow> pydict \<Rightarrow> exc + task_record" where
  "resolve_task_reference env s entities =
     (let task_id = dict_get entities ''task_id'' in
      if is_int task_id then
        result_bind (get_task s (int_of task_id)) (\<lambda>r. case r of None \<Rightarrow> Inl KeyError | Some t \<Rightarrow> Inr t)
      else
        (let task_name = lower (strip (py_str env (dict_get_or entities ''task'' (PStr [])))) in
         if task_name = [] then Inl (ValueError ''Task reference not provided'')
         else result_bind (list_tasks s True) (\<lambda>ts.
           case filter (\<lambda>t. lower (task_title t) = task_name) ts of
             [] \<Rightarrow> Inl KeyError
           | [t] \<Rightarrow> Inr t
           | _ \<Rightarrow> Inl (ValueError ''Ambiguous task reference''))))"

text \<open>
  The arguments of \<open>create_task\<close>: \<open>int(entities.get("priority", 0))\<close> is evaluated before the call. The
  validator has let only \<open>None\<close> and strings through as \<open>due_at\<close>.
\<close>

fun due_argument :: "pyval \<Rightarrow> string option" where
  "due_argument (PStr s) = Some s"
| "due_argument _ = None"

text \<open>An attribute of an optional record: \<open>None\<close> has none.\<close>

definition attribute_of :: "task_record option \<Rightarrow> (task_store, task_record) prog" where
  "attribute_of r = (case r of None \<Rightarrow> raise_exc AttributeError | Some t \<Rightarrow> ret t)"

definition handle_create_task :: action_handler where
  "handle_create_task env entities =
     and_then (lift_result (py_int env (dict_get_or entities ''priority'' (PInt 0)))) (\<lambda>priority.
     case title_entity entities of
       PStr title \<Rightarrow>
         and_then (create_task env title (dict_get entities ''description'')
             (due_argument (dict_get entities ''due_at'')) (dict_get entities ''goal'') priority) (\<lambda>r.
         and_then (attribute_of r) (\<lambda>record.
         and_then (lift_result (normalize_state (StateEnum (task_status record)))) (\<lambda>state.
         if state \<noteq> CREATED then raise_exc (InvalidStateTransitionError None)
         else ret \<lparr>ax_action_type = ''CREATE_TASK'', ax_lifecycle_before = None,
                   ax_lifecycle_after = Some (state_value (task_status record)),
                   ax_metadata = [(''task_id'', PInt (task_id record))]\<rparr>)))
     | _ \<Rightarrow> raise_exc AttributeError)"

definition handle_complete_task :: action_handler where
  "handle_complete_task env entities s =
     (case resolve_task_reference env s entities of
        Inl e \<Rightarrow> (Inl e, s)
      | Inr task \<Rightarrow>
          (let before = state_value (task_status task) in
           if task_status task = COMPLETED then
             (Inr \<lparr>ax_action_type = ''COMPLETE_TASK'', ax_lifecycle_before = Some before,
                   ax_lifecycle_after = Some before,
                   ax_metadata = [(''task_id'', PInt (task_id task)), (''idempotent'', PBool True)]\<rparr>, s)
           else
             and_then (complete_task env (task_id task)) (\<lambda>r. and_then (attribute_of r) (\<lambda>updated.
               ret \<lparr>ax_action_type = ''COMPLETE_TASK'', ax_lifecycle_before = Some before,
                    ax_lifecycle_after = Some (state_value (task_status updated)),
                    ax_metadata = [(''task_id'', PInt (task_id task))]\<rparr>)) s))"

definition handle_cancel_task :: action_handler where
  "handle_cancel_task env entities s =
     (case resolve_task_reference env s entities of
        Inl e \<Rightarrow> (Inl e, s)
      | Inr task \<Rightarrow>
          (let before = state_value (task_status task) in
           if task_status task = ARCHIVED then
             (Inr \<lparr>ax_action_type = ''CANCEL_TASK'', ax_lifecycle_before = Some before,
                   ax_lifecycle_after = Some before,
                   ax_metadata = [(''task_id'', PInt (task_id task)), (''idempotent'', PBool True)]\<rparr>, s)
           else
             and_then (archive_task env (task_id task)) (\<lambda>r. and_then (attribute_of r) (\<lambda>updated.
               ret \<lparr>ax_action_type = ''CANCEL_TASK'', ax_lifecycle_before = Some before,
                    ax_lifecycle_after = Some (state_value (task_status updated)),
                    ax_metadata = [(''task_id'', PInt (task_id task))]\<rparr>)) s))"

section \<open>Registration and construction\<close>

definition register_action_handler ::
  "pyval \<Rightarrow> action_handler \<Rightarrow> string option \<Rightarrow> entity_validator option \<Rightarrow> bool \<Rightarrow> (command_router, unit) prog" where
  "register_action_handler intent_type handler action_type validator challengeable rt =
     (case normalize_intent_type intent_type of
        Inl e \<Rightarrow> (Inl e, rt)
      | Inr normalized_intent \<Rightarrow>
          (Inr (), rt\<lparr>rt_registry := (rt_registry rt)(normalized_intent \<mapsto>
             \<lparr>ad_action_type = or_else action_type (upper normalized_intent), ad_handler = handler,
              ad_validator = (case validator of None \<Rightarrow> validate_passthrough | Some v \<Rightarrow> v),
              ad_challengeable = challengeable\<rparr>)\<rparr>))"

definition default_definition :: "string \<Rightarrow> action_definition option" where
  "default_definition intent_type =
     (let create = \<lparr>ad_action_type = ''CREATE_TASK'', ad_handler = handle_create_task,
             ad_validator = validate_create_task_entities, ad_challengeable = False\<rparr>;
          complete = \<lparr>ad_action_type = ''COMPLETE_TASK'', ad_handler = handle_complete_task,
             ad_validator = validate_task_reference_entities, ad_challengeable = True\<rparr>;
          cancel = \<lparr>ad_action_type = ''CANCEL_TASK'', ad_handler = handle_cancel_task,
             ad_validator = validate_task_reference_entities, ad_challengeable = True\<rparr>
      in map_of [(''create_task'', create), (''schedule_task'', create), (''complete_task'', complete),
           (''mark_completed'', complete), (''cancel_task'', cancel), (''archive_task'', cancel)] intent_type)"

definition register_default_handlers :: "(command_router, unit) prog" where
  "register_default_handlers =
     and_then (register_action_handler (PStr ''create_task'') handle_create_task (Some ''CREATE_TASK'')
       (Some validate_create_task_entities) False) (\<lambda>_.
     and_then (register_action_handler (PStr ''schedule_task'') handle_create_task (Some ''CREATE_TASK'')
       (Some validate_create_task_entities) False) (\<lambda>_.
     and_then (register_action_handler (PStr ''complete_task'') handle_complete_task (Some ''COMPLETE_TASK'')
       (Some validate_task_reference_entities) True) (\<lambda>_.
     and_then (register_action_handler (PStr ''mark_completed'') handle_complete_task (Some ''COMPLETE_TASK'')
       (Some validate_task_reference_entities) True) (\<lambda>_.
     and_then (register_action_handler (PStr ''cancel_task'') handle_cancel_task (Some ''CANCEL_TASK'')
       (Some validate_task_reference_entities) True) (\<lambda>_.
     register_action_handler (PStr ''archive_task'') handle_cancel_task (Some ''CANCEL_TASK'')
       (Some validate_task_reference_entities) True)))))"

text \<open>
  \<open>_load_settings\<close>: the parsed YAML document is \<open>None\<close> when the file does not exist or the YAML
  package is missing.
\<close>

definition load_router_settings :: "pyval option \<Rightarrow> exc + pyval \<times> pyval" where
  "load_router_settings parsed_document =
     (let defaults = (PFloat (float_round (65 / 100)), PBool True) in
      case parsed_document of
        None \<Rightarrow> Inr defaults
      | Some v \<Rightarrow>
          (case (if truthy v then v else PDict []) of
             PDict parsed \<Rightarrow>
               (case dict_get_or parsed ''command_router'' (PDict []) of
                  PDict router_cfg \<Rightarrow> Inr (dict_get_or router_cfg ''min_confidence'' (fst defaults),
                    dict_get_or router_cfg ''enable_challenge_gate'' (snd defaults))
                | _ \<Rightarrow> Inr defaults)
           | _ \<Rightarrow> Inl AttributeError))"

definition init_router ::
  "py_env \<Rightarrow> task_store \<Rightarrow> challenge_logic option \<Rightarrow> pyval option \<Rightarrow> exc + command_router" where
  "init_router env task_store challenge_logic parsed_document =
     result_bind (case challenge_logic of Some c \<Rightarrow> Inr c | None \<Rightarrow> init_challenge (Fin (1/2))) (\<lambda>cl.
     result_bind (load_router_settings parsed_document) (\<lambda>(min_confidence, gate).
     result_bind (py_float env min_confidence) (\<lambda>m.
     case register_default_handlers
         \<lparr>rt_task_store = task_store, rt_challenge_logic = cl, rt_min_confidence = m,
          rt_enable_challenge_gate = truthy gate, rt_registry = Map.empty, rt_audit_events = []\<rparr> of
       (Inl e, _) \<Rightarrow> Inl e
     | (Inr _, rt) \<Rightarrow> Inr rt)))"

section \<open>Audit events and the challenge hook\<close>

definition safe_entities_for_audit :: "pyval \<Rightarrow> pydict" where
  "safe_entities_for_audit entities =
     (case entities of
        PDict d \<Rightarrow>
          if truthy (dict_get_or d ''sensitive'' (PBool False))
          then [(''sensitive'', PBool True), (''entity_keys'', PList (map PStr (sort (map fst d))))]
          else d
      | _ \<Rightarrow> [])"

definition emit_audit_event ::
  "py_env \<Rightarrow> string \<Rightarrow> pyval \<Rightarrow> string \<Rightarrow> string \<Rightarrow> string option \<Rightarrow> string option \<Rightarrow> bool \<Rightarrow> pydict
   \<Rightarrow> command_router \<Rightarrow> command_router" where
  "emit_audit_event env audit_id intent_id intent_timestamp action_type lifecycle_before
      lifecycle_after success_flag entities rt =
     rt\<lparr>rt_audit_events := rt_audit_events rt @
       [\<lparr>ae_audit_id = audit_id, ae_intent_id = intent_id, ae_timestamp = env_now env 0,
         ae_intent_timestamp = intent_timestamp, ae_identity_tier = ''TIER_UNKNOWN'',
         ae_action_type = action_type, ae_lifecycle_before = lifecycle_before,
         ae_lifecycle_after = lifecycle_after, ae_success_flag = success_flag,
         ae_entities = entities\<rparr>]\<rparr>"

definition evaluate_challenge ::
  "py_env \<Rightarrow> intent \<Rightarrow> action_definition \<Rightarrow> (command_router, pydict option) prog" where
  "evaluate_challenge env intent defn rt =
     (if \<not> rt_enable_challenge_gate rt \<or> \<not> ad_challengeable defn then (Inr None, rt)
      else let entities = in_entities intent in
        case resolve_task_reference env (rt_task_store rt) entities of
          Inl e \<Rightarrow> if e = KeyError \<or> is_value_error e then (Inr None, rt) else (Inl e, rt)
        | Inr task \<Rightarrow>
            (case py_float env (dict_get_or entities ''alignment_score'' (PFloat (Fin 1))) of
               Inl e \<Rightarrow> (Inl e, rt)
             | Inr alignment_score \<Rightarrow>
                 (let declared_goal = py_str env (dict_get_or entities ''declared_goal''
                        (PStr (case task_goal task of None \<Rightarrow> [] | Some g \<Rightarrow> g)));
                      proposed_action = lower (ad_action_type defn);
                      user_overrode = truthy (dict_get_or entities ''user_overrode'' (PBool False))
                  in case evaluate_challenge_logic env (task_id task) proposed_action declared_goal
                       alignment_score user_overrode (rt_challenge_logic rt) of
                     (r, cl) \<Rightarrow> (r, rt\<lparr>rt_challenge_logic := cl\<rparr>))))"

section \<open>Routing\<close>

definition rejected :: "string \<Rightarrow> string \<Rightarrow> string \<Rightarrow> pydict \<Rightarrow> command_result" where
  "rejected audit_id action error_code metadata =
     \<lparr>res_status = ''rejected'', res_action = action, res_audit_id = audit_id,
      res_message_key = ''COMMAND_REJECTED'', res_metadata = metadata,
      res_error_code = Some error_code, res_challenge_payload = None\<rparr>"

text \<open>A rejection after the intent was normalised, with its audit event.\<close>

definition reject_intent ::
  "py_env \<Rightarrow> intent \<Rightarrow> string \<Rightarrow> string \<Rightarrow> pydict \<Rightarrow> (command_router, command_result) prog" where
  "reject_intent env intent action error_code metadata rt =
     (Inr (rejected (env_uuid env 0) action error_code metadata),
      emit_audit_event env (env_uuid env 0) (PStr (in_intent_id intent)) (in_timestamp intent) action
        None None False (safe_entities_for_audit (PDict (in_entities intent))) rt)"

text \<open>The \<open>except\<close> clauses around the handler.\<close>

definition handler_error_code :: "exc \<Rightarrow> string" where
  "handler_error_code e =
     (case e of
        InvalidStateTransitionError _ \<Rightarrow> ''INVALID_TRANSITION''
      | _ \<Rightarrow> if e = KeyError \<or> e = TypeError \<or> is_value_error e then ''INVALID_ENTITY''
             else ''INTERNAL_ERROR'')"

definition execute_action ::
  "py_env \<Rightarrow> intent \<Rightarrow> action_definition \<Rightarrow> (command_router, command_result) prog" where
  "execute_action env intent defn rt =
     (case ad_handler defn (at_site 8 env) (in_entities intent) (rt_task_store rt) of
        (Inl e, s) \<Rightarrow>
          reject_intent env intent (ad_action_type defn) (handler_error_code e) [] (rt\<lparr>rt_task_store := s\<rparr>)
      | (Inr execution, s) \<Rightarrow>
          (Inr \<lparr>res_status = ''executed'', res_action = ax_action_type execution,
                res_audit_id = env_uuid env 0, res_message_key = ''COMMAND_EXECUTED'',
                res_metadata = ax_metadata execution, res_error_code = None, res_challenge_payload = None\<rparr>,
           emit_audit_event env (env_uuid env 0) (PStr (in_intent_id intent)) (in_timestamp intent)
             (ax_action_type execution) (ax_lifecycle_before execution) (ax_lifecycle_after execution)
             True (safe_entities_for_audit (PDict (in_entities intent))) (rt\<lparr>rt_task_store := s\<rparr>)))"

definition challenge_result :: "py_env \<Rightarrow> intent \<Rightarrow> action_definition \<Rightarrow> pydict \<Rightarrow> (command_router, command_result) prog" where
  "challenge_result env intent defn payload rt =
     (Inr \<lparr>res_status = ''challenge_required'', res_action = ad_action_type defn,
           res_audit_id = env_uuid env 0, res_message_key = ''CHALLENGE_REQUIRED'',
           res_metadata = [], res_error_code = None, res_challenge_payload = Some payload\<rparr>,
      emit_audit_event env (env_uuid env 0) (PStr (in_intent_id intent)) (in_timestamp intent)
        (ad_action_type defn) None None False (safe_entities_for_audit (PDict (in_entities intent))) rt)"

text \<open>The \<open>except ValueError\<close> branch of the intent check reads \<open>intent_object.get\<close>.\<close>

definition reject_shape :: "py_env \<Rightarrow> pyval \<Rightarrow> (command_router, command_result) prog" where
  "reject_shape env intent_object rt =
     (case intent_object of
        PDict d \<Rightarrow>
          (case safe_timestamp env (dict_get d ''timestamp'') of
             Inl e \<Rightarrow> (Inl e, rt)
           | Inr ts \<Rightarrow>
               (Inr (rejected (env_uuid env 0) ''UNKNOWN'' ''INVALID_INTENT_SHAPE'' []),
                emit_audit_event env (env_uuid env 0) (dict_get_or d ''intent_id'' (PStr ''unknown'')) ts
                  ''UNKNOWN'' None None False (safe_entities_for_audit (dict_get d ''entities'')) rt))
      | _ \<Rightarrow> (Inl AttributeError, rt))"

definition route :: "py_env \<Rightarrow> pyval \<Rightarrow> (command_router, command_result) prog" where
  "route env intent_object rt =
     (case validate_and_normalize_intent env intent_object of
        Inl e \<Rightarrow> if is_value_error e then reject_shape env intent_object rt else (Inl e, rt)
      | Inr intent \<Rightarrow>
          if float_lt (in_confidence_score intent) (rt_min_confidence rt) then
            reject_intent env intent ''UNKNOWN'' ''LOW_CONFIDENCE''
              [(''min_confidence'', PFloat (rt_min_confidence rt))] rt
          else case rt_registry rt (in_intent_type intent) of
            None \<Rightarrow> reject_intent env intent ''UNKNOWN'' ''UNSUPPORTED_INTENT''
              [(''intent_type'', PStr (in_intent_type intent))] rt
          | Some defn \<Rightarrow>
              (case ad_validator defn env (in_entities intent) of
                 Inl e \<Rightarrow> if is_value_error e
                   then reject_intent env intent (ad_action_type defn) ''INVALID_ENTITY'' [] rt
                   else (Inl e, rt)
               | Inr _ \<Rightarrow>
                   (case evaluate_challenge (at_site 7 env) intent defn rt of
                      (Inl e, rt') \<Rightarrow> (Inl e, rt')
                    | (Inr (Some payload), rt') \<Rightarrow> challenge_result env intent defn payload rt'
                    | (Inr None, rt') \<Rightarrow> execute_action env intent defn rt')))"

definition get_audit_events :: "command_router \<Rightarrow> audit_event list" where
  "get_audit_events rt = rt_audit_events rt"

section \<open>Lemmas on routing\<close>

lemma default_registry:
  "register_default_handlers rt = (Inr (), rt\<lparr>rt_registry := rt_registry rt ++ default_definition\<rparr>)"
proof -
  have "strip ''create_task'' = ''create_task''" "strip ''schedule_task'' = ''schedule_task''"
    "strip ''complete_task'' = ''complete_task''" "strip ''mark_completed'' = ''mark_completed''"
    "strip ''cancel_task'' = ''cancel_task''" "strip ''archive_task'' = ''archive_task''"
    "lower ''create_task'' = ''create_task''" "lower ''schedule_task'' = ''schedule_task''"
    "lower ''complete_task'' = ''complete_task''" "lower ''mark_completed'' = ''mark_completed''"
    "lower ''cancel_task'' = ''cancel_task''" "lower ''archive_task'' = ''archive_task''"
    by code_simp+
  then show ?thesis
    by (simp add: register_default_handlers_def register_action_handler_def and_then_def
        default_definition_def Let_def map_add_def fun_eq_iff command_router.equality)
qed

text \<open>One audit event that matches a result was appended.\<close>

definition audited :: "command_router \<Rightarrow> command_result \<Rightarrow> command_router \<Rightarrow> bool" where
  "audited rt res rt' \<longleftrightarrow>
     (\<exists>ev. rt_audit_events rt' = rt_audit_events rt @ [ev] \<and> ae_audit_id ev = res_audit_id res
        \<and> ae_action_type ev = res_action res \<and> (ae_success_flag ev \<longleftrightarrow> res_status res = ''executed''))"

text \<open>Nothing but the challenge memory differs.\<close>

definition same_but_challenge :: "command_router \<Rightarrow> command_router \<Rightarrow> bool" where
  "same_but_challenge rt rt' \<longleftrightarrow> rt_task_store rt' = rt_task_store rt \<and> rt_registry rt' = rt_registry rt
     \<and> rt_audit_events rt' = rt_audit_events rt"

text \<open>A result without execution: store and registry stay, one event is appended.\<close>

definition stopped :: "command_router \<Rightarrow> (exc + command_result) \<times> command_router \<Rightarrow> bool" where
  "stopped rt out \<longleftrightarrow> (\<exists>res rt'. out = (Inr res, rt') \<and> res_status res \<noteq> ''executed''
     \<and> rt_task_store rt' = rt_task_store rt \<and> rt_registry rt' = rt_registry rt \<and> audited rt res rt')"

lemma same_refl [simp]: "same_but_challenge rt rt"
  by (simp add: same_but_challenge_def)

lemma evaluate_challenge_same:
  "evaluate_challenge env i defn rt = (r, rt') \<Longrightarrow> same_but_challenge rt rt'"
  by (auto simp: evaluate_challenge_def same_but_challenge_def Let_def
      split: if_splits sum.splits prod.splits)

lemma reject_intent_stopped: "same_but_challenge rt rt1 \<Longrightarrow> stopped rt (reject_intent env i a c m rt1)"
  by (simp add: stopped_def reject_intent_def rejected_def emit_audit_event_def audited_def
      same_but_challenge_def)

lemma challenge_result_stopped:
  "same_but_challenge rt rt1 \<Longrightarrow> stopped rt (challenge_result env i defn p rt1)"
  by (simp add: stopped_def challenge_result_def emit_audit_event_def audited_def same_but_challenge_def)

lemma reject_shape_stopped:
  "stopped rt (reject_shape env x rt) \<or> (\<exists>e. reject_shape env x rt = (Inl e, rt))"
  by (cases x)
    (auto simp: stopped_def reject_shape_def rejected_def emit_audit_event_def audited_def split: sum.splits)

text \<open>A handler ran on the store.\<close>

definition ran :: "py_env \<Rightarrow> intent \<Rightarrow> action_definition \<Rightarrow> command_router
    \<Rightarrow> (exc + command_result) \<times> command_router \<Rightarrow> bool" where
  "ran env i defn rt out \<longleftrightarrow>
     (case ad_handler defn (at_site 8 env) (in_entities i) (rt_task_store rt) of (r, s) \<Rightarrow>
       \<exists>res rt'. out = (Inr res, rt') \<and> rt_task_store rt' = s \<and> rt_registry rt' = rt_registry rt
         \<and> audited rt res rt' \<and>
         (case r of
            Inl e \<Rightarrow> res = rejected (env_uuid env 0) (ad_action_type defn) (handler_error_code e) []
          | Inr a \<Rightarrow> res_status res = ''executed'' \<and> res_action res = ax_action_type a
                     \<and> res_metadata res = ax_metadata a))"

lemma execute_action_ran:
  "same_but_challenge rt rt1 \<Longrightarrow> ran env i defn rt (execute_action env i defn rt1)"
  by (auto simp: ran_def execute_action_def reject_intent_def rejected_def emit_audit_event_def
      audited_def same_but_challenge_def split: prod.splits sum.splits)

text \<open>The outcomes of \<open>route\<close>.\<close>

lemma route_cases:
  obtains (raised) e rt' where "route env x rt = (Inl e, rt')" "same_but_challenge rt rt'"
  | (stopped) "stopped rt (route env x rt)"
  | (ran) intent defn where "validate_and_normalize_intent env x = Inr intent"
      "rt_registry rt (in_intent_type intent) = Some defn"
      "ad_validator defn env (in_entities intent) = Inr ()" "ran env intent defn rt (route env x rt)"
proof (cases "validate_and_normalize_intent env x")
  case (Inl e)
  then show thesis
    using reject_shape_stopped [of rt env x] raised [of e rt] raised [of _ rt] stopped
    by (cases "is_value_error e") (auto simp: route_def)
next
  case (Inr intent)
  show thesis
  proof (cases "rt_registry rt (in_intent_type intent)")
    case None
    with Inr show thesis by (intro stopped) (simp add: route_def reject_intent_stopped)
  next
    case (Some defn)
    show thesis
    proof (cases "float_lt (in_confidence_score intent) (rt_min_confidence rt)")
      case True
      with Inr show thesis by (intro stopped) (simp add: route_def reject_intent_stopped)
    next
      case False
      note up = Inr Some False
      show thesis
      proof (cases "ad_validator defn env (in_entities intent)")
        case (Inl e)
        with up show thesis using raised [of e rt]
          by (cases "is_value_error e") (auto intro!: stopped simp: route_def reject_intent_stopped)
      next
        case valid: (Inr u)
        obtain c rt1 where ev: "evaluate_challenge (at_site 7 env) intent defn rt = (c, rt1)" by fastforce
        note same = evaluate_challenge_same [OF ev]
        consider e where "c = Inl e" | p where "c = Inr (Some p)" | "c = Inr None"
          by (metis option.exhaust sum.exhaust)
        then show thesis
        proof cases
          case 1
          with up valid ev same show thesis by (intro raised) (auto simp: route_def)
        next
          case 2
          with up valid ev same show thesis by (intro stopped) (simp add: route_def challenge_result_stopped)
        next
          case 3
          with up valid ev have "route env x rt = execute_action env intent defn rt1" by (simp add: route_def)
          with Inr Some valid execute_action_ran [OF same] show thesis by (intro ran) auto
        qed
      qed
    qed
  qed
qed

section \<open>What the default handlers do to the store\<close>

lemmas default_definitions = default_definition_def Let_def

text \<open>The operations a default handler may perform.\<close>

fun router_op :: "store_op \<Rightarrow> bool" where
  "router_op (CreateOp _ _ _ _ _) = True"
| "router_op (TransitionOp _ (StateEnum d)) \<longleftrightarrow> d = COMPLETED \<or> d = ARCHIVED"
| "router_op _ = False"

lemma snd_and_then_attribute:
  "snd (and_then p (\<lambda>r. and_then (attribute_of r) (\<lambda>x. ret (f x))) s) = snd (p s)"
  by (auto simp: and_then_def attribute_of_def split: prod.splits sum.splits option.splits)

lemma handle_create_snd:
  "snd (handle_create_task env ents s) = s \<or>
   (\<exists>op. router_op op \<and> snd (handle_create_task env ents s) = store_step (env, op) s)"
proof (cases "title_entity ents")
  case (PStr title)
  show ?thesis
  proof (cases "py_int env (dict_get_or ents ''priority'' (PInt 0))")
    case (Inl e)
    then show ?thesis by (simp add: handle_create_task_def and_then_def)
  next
    case (Inr p)
    let ?op = "CreateOp title (dict_get ents ''description'')
      (due_argument (dict_get ents ''due_at'')) (dict_get ents ''goal'') p"
    have "snd (handle_create_task env ents s) = store_step (env, ?op) s"
      using Inr PStr
      by (auto simp: handle_create_task_def and_then_def attribute_of_def split: prod.splits sum.splits option.splits)
    then show ?thesis by (metis router_op.simps(1))
  qed
qed (simp_all add: handle_create_task_def and_then_def split: sum.splits)

lemma handle_complete_snd:
  "snd (handle_complete_task env ents s) = s \<or>
   (\<exists>op. router_op op \<and> snd (handle_complete_task env ents s) = store_step (env, op) s)"
proof (cases "resolve_task_reference env s ents")
  case (Inr t)
  have "snd (handle_complete_task env ents s) = s \<or>
    snd (handle_complete_task env ents s) = store_step (env, TransitionOp (task_id t) (StateEnum COMPLETED)) s"
    using Inr by (simp add: handle_complete_task_def Let_def snd_and_then_attribute complete_task_def)
  moreover have "router_op (TransitionOp (task_id t) (StateEnum COMPLETED))" by simp
  ultimately show ?thesis by metis
qed (simp add: handle_complete_task_def)

lemma handle_cancel_snd:
  "snd (handle_cancel_task env ents s) = s \<or>
   (\<exists>op. router_op op \<and> snd (handle_cancel_task env ents s) = store_step (env, op) s)"
proof (cases "resolve_task_reference env s ents")
  case (Inr t)
  have "snd (handle_cancel_task env ents s) = s \<or>
    snd (handle_cancel_task env ents s) = store_step (env, TransitionOp (task_id t) (StateEnum ARCHIVED)) s"
    using Inr by (simp add: handle_cancel_task_def Let_def snd_and_then_attribute archive_task_def)
  moreover have "router_op (TransitionOp (task_id t) (StateEnum ARCHIVED))" by simp
  ultimately show ?thesis by metis
qed (simp add: handle_cancel_task_def)

lemma default_handler_cases:
  assumes "default_definition it = Some defn"
  obtains "ad_handler defn = handle_create_task" "ad_action_type defn = ''CREATE_TASK''"
      "ad_validator defn = validate_create_task_entities" "\<not> ad_challengeable defn"
    | "ad_handler defn = handle_complete_task" "ad_action_type defn = ''COMPLETE_TASK''"
      "ad_validator defn = validate_task_reference_entities" "ad_challengeable defn"
    | "ad_handler defn = handle_cancel_task" "ad_action_type defn = ''CANCEL_TASK''"
      "ad_validator defn = validate_task_reference_entities" "ad_challengeable defn"
  using assms by (auto simp: default_definitions split: if_splits)

lemma default_handler_snd:
  assumes "default_definition it = Some defn"
  shows "snd (ad_handler defn env ents s) = s \<or>
   (\<exists>op. router_op op \<and> snd (ad_handler defn env ents s) = store_step (env, op) s)"
  using assms
  by (cases rule: default_handler_cases) (simp_all only: handle_create_snd handle_complete_snd handle_cancel_snd)

text \<open>A handler that raises has not touched the table.\<close>

lemma transition_then_ret_raise:
  assumes "wf_store s"
    and "and_then (transition_task env i a) (\<lambda>r. and_then (attribute_of r) (\<lambda>x. ret (f x))) s = (Inl e, s')"
  shows "ts_rows s' = ts_rows s"
  using transition_task_total [OF assms(1), of env i a] assms(2)
  by (auto simp: and_then_def attribute_of_def)

lemma create_task_returns:
  assumes "wf_store s" and "create_task env title d due g p s = (Inr r, s')"
  shows "r = Some (created_record env (ts_seq s + 1) title d due g p)"
  using create_task_outcome [OF assms(1), of env title d due g p] assms(2) by auto

lemma create_task_raises:
  assumes "wf_store s" and "create_task env title d due g p s = (Inl e, s')"
  shows "s' = s"
  using create_task_outcome [OF assms(1), of env title d due g p] assms(2) by auto

lemma default_handler_raise:
  assumes defn: "default_definition it = Some defn" and wf: "wf_store s"
    and raise: "ad_handler defn env ents s = (Inl e, s')"
  shows "ts_rows s' = ts_rows s"
  using defn
proof (cases rule: default_handler_cases)
  case 1
  with raise create_task_returns [OF wf] create_task_raises [OF wf] show ?thesis
    by (fastforce simp: handle_create_task_def and_then_def attribute_of_def created_record_def
        split: sum.splits pyval.splits prod.splits if_splits option.splits)
next
  case 2
  with raise transition_then_ret_raise [OF wf] show ?thesis
    by (auto simp: handle_complete_task_def complete_task_def Let_def split: sum.splits if_splits)
next
  case 3
  with raise transition_then_ret_raise [OF wf] show ?thesis
    by (auto simp: handle_cancel_task_def archive_task_def Let_def split: sum.splits if_splits)
qed

section \<open>Runs of commands\<close>

definition router_wf :: "command_router \<Rightarrow> bool" where
  "router_wf rt \<longleftrightarrow> wf_store (rt_task_store rt) \<and> rt_registry rt = default_definition"

definition router_extends :: "command_router \<Rightarrow> command_router \<Rightarrow> bool" where
  "router_extends rt rt' \<longleftrightarrow> store_extends (rt_task_store rt) (rt_task_store rt') \<and>
     prefix (rt_audit_events rt) (rt_audit_events rt')"

fun router_step :: "py_env \<times> pyval \<Rightarrow> command_router \<Rightarrow> command_router" where
  "router_step (env, x) rt = snd (route env x rt)"

text \<open>What one command does to the store: nothing, or one operation of a default handler.\<close>

lemma router_step_store:
  assumes "rt_registry rt = default_definition"
  obtains "rt_task_store (router_step ex rt) = rt_task_store rt"
    | env op where "router_op op" "rt_task_store (router_step ex rt) = store_step (env, op) (rt_task_store rt)"
proof -
  obtain env x where ex: "ex = (env, x)" by (cases ex)
  show thesis
  proof (cases rule: route_cases [of env x rt])
    case raised
    then show thesis using that(1) by (simp add: ex same_but_challenge_def)
  next
    case stopped
    then show thesis using that(1) by (auto simp: ex stopped_def)
  next
    case (ran intent defn)
    then have "rt_task_store (router_step ex rt) =
        snd (ad_handler defn (at_site 8 env) (in_entities intent) (rt_task_store rt))"
      by (auto simp: ex ran_def split: prod.splits)
    moreover have "default_definition (in_intent_type intent) = Some defn" using ran assms by simp
    ultimately show thesis
      using default_handler_snd [of _ defn "at_site 8 env" "in_entities intent" "rt_task_store rt"] that by metis
  qed
qed

lemma router_step_frame:
  "rt_registry (router_step ex rt) = rt_registry rt"
  "prefix (rt_audit_events rt) (rt_audit_events (router_step ex rt))"
proof -
  obtain env x where ex: "ex = (env, x)" by (cases ex)
  have "rt_registry (router_step ex rt) = rt_registry rt \<and>
    prefix (rt_audit_events rt) (rt_audit_events (router_step ex rt))"
    by (cases rule: route_cases [of env x rt])
      (auto simp: ex stopped_def same_but_challenge_def audited_def ran_def split: prod.splits)
  then show "rt_registry (router_step ex rt) = rt_registry rt"
    "prefix (rt_audit_events rt) (rt_audit_events (router_step ex rt))" by auto
qed

interpretation router_run: machine router_step router_wf router_extends
proof
  fix s t u :: command_router and x
  show "router_wf (router_step x s)" if inv: "router_wf s"
  proof (cases rule: router_step_store [of s x])
    case 1
    show ?case using inv by (simp add: router_wf_def)
  qed (use inv store_run.step_inv router_step_frame in \<open>auto simp: router_wf_def\<close>)
  show "router_extends s (router_step x s)" if inv: "router_wf s"
  proof (cases rule: router_step_store [of s x])
    case 1
    show ?case using inv by (simp add: router_wf_def)
  qed (use inv store_run.step_after router_step_frame in \<open>auto simp: router_wf_def router_extends_def\<close>)
  show "router_extends s s" by (simp add: router_extends_def)
  show "router_extends s t \<Longrightarrow> router_extends t u \<Longrightarrow> router_extends s u"
    by (auto simp: router_extends_def intro: store_extends_trans prefix_order.trans)
qed

text \<open>Through the router no task of the default configuration becomes active.\<close>

definition never_active :: "task_store \<Rightarrow> bool" where
  "never_active s \<longleftrightarrow> (\<forall>i t. abs_tasks s i = Some t \<longrightarrow> task_status t = CREATED \<or> task_status t = ARCHIVED)"

lemma abs_tasks_cong: "store_extends s s' \<Longrightarrow> ts_rows s' = ts_rows s \<Longrightarrow> abs_tasks s' = abs_tasks s"
proof
  fix i
  assume "store_extends s s'" and rows: "ts_rows s' = ts_rows s"
  then have "ts_key (store_config s') = ts_key (store_config s)" by (simp add: store_extends_def)
  then show "abs_tasks s' i = abs_tasks s i" by (simp add: abs_tasks_def rows store_config_def)
qed

lemma never_active_put:
  "never_active s \<Longrightarrow> abs_tasks s' = (abs_tasks s)(i \<mapsto> t) \<Longrightarrow> task_status t = CREATED \<or> task_status t = ARCHIVED
   \<Longrightarrow> never_active s'"
  by (simp add: never_active_def)

lemma created_record_status [simp]: "task_status (created_record env i title d due g p) = CREATED"
  by (simp add: created_record_def)

lemma never_active_step:
  assumes inv: "legacy_inv s" and na: "never_active s" and op: "router_op op"
  shows "never_active (store_step (env, op) s)"
proof -
  have wf: "wf_store s" and lc: "legacy_config s" using inv by (auto simp: legacy_inv_def)
  note ext = store_run.step_after [OF wf, of "(env, op)"]
  show ?thesis
  proof (cases op)
    case (CreateOp title d due g p)
    from create_task_outcome [OF wf, of env title d due g p] show ?thesis
    proof (elim disjE exE conjE)
      fix e
      assume "create_task env title d due g p s = (Inl e, s)"
      with na CreateOp show ?thesis by simp
    next
      fix s'
      assume "create_task env title d due g p s =
          (Inr (Some (created_record env (ts_seq s + 1) title d due g p)), s')"
        and abs: "abs_tasks s' = (abs_tasks s)(ts_seq s + 1 \<mapsto> created_record env (ts_seq s + 1) title d due g p)"
      with never_active_put [OF na abs] CreateOp show ?thesis by simp
    qed
  next
    case (TransitionOp i a)
    then obtain d where a: "a = StateEnum d" and d: "d = COMPLETED \<or> d = ARCHIVED"
      using op by (cases a) auto
    from transition_task_total [OF wf, of env i a] show ?thesis
    proof (elim disjE exE conjE)
      fix e s'
      assume "transition_task env i a s = (Inl e, s')" "ts_rows s' = ts_rows s"
      then have "abs_tasks (store_step (env, op) s) = abs_tasks s"
        using ext abs_tasks_cong TransitionOp by simp
      with na show ?thesis by (simp add: never_active_def)
    next
      fix t dst s'
      assume t: "abs_tasks s i = Some t" "normalize_state a = Inr dst" "memory_granted env i (task_status t) dst s"
        "transition_task env i a s = (Inr (Some (transitioned env dst t)), s')"
        "abs_tasks s' = (abs_tasks s)(i \<mapsto> transitioned env dst t)"
      have "task_status t = CREATED \<or> task_status t = ARCHIVED" using na t(1) by (simp add: never_active_def)
      moreover have "dst = d" using a t(2) by simp
      moreover have "legacy_allowed (task_status t) dst" using t(3) lc by (simp add: legacy_memory_granted)
      ultimately have "task_status (transitioned env dst t) = CREATED \<or> task_status (transitioned env dst t) = ARCHIVED"
        using d by (auto simp: legacy_allowed_def)
      from never_active_put [OF na t(5) this] t(4) TransitionOp show ?thesis by simp
    qed
  qed (use op in auto)
qed

definition router_legacy :: "command_router \<Rightarrow> bool" where
  "router_legacy rt \<longleftrightarrow> legacy_inv (rt_task_store rt) \<and> never_active (rt_task_store rt)
     \<and> rt_registry rt = default_definition"

interpretation router_legacy_run: machine router_step router_legacy router_extends
proof
  fix s t u :: command_router and x
  show "router_legacy (router_step x s)" if inv: "router_legacy s"
  proof (cases rule: router_step_store [of s x])
    case 1
    show ?case using inv by (simp add: router_legacy_def)
  qed (use inv legacy_inv_step never_active_step router_step_frame in \<open>auto simp: router_legacy_def\<close>)
  show "router_extends s (router_step x s)" if inv: "router_legacy s"
    using inv by (intro router_run.step_after) (simp add: router_legacy_def router_wf_def legacy_inv_def)
  show "router_extends s s" by (rule router_run.after_refl)
  show "router_extends s t \<Longrightarrow> router_extends t u \<Longrightarrow> router_extends s u" by (rule router_run.after_trans)
qed

lemma init_router_facts:
  assumes "init_router env s cl doc = Inr rt"
  shows "rt_task_store rt = s" "rt_registry rt = default_definition" "rt_audit_events rt = []"
  using assms by (auto simp: init_router_def result_bind_Inr_iff default_registry map_add_def
      split: option.splits prod.splits)

end
