(* ===== verification/Router_Properties.thy ===== *)
theory Router_Properties
  imports Command_Router
begin

text \<open>
  The guarantees of the command router over single commands and runs of commands, for a router with
  the default handlers: one audit event per answer, the task table changes only through executed
  commands, when a command is answered and when it raises, challenges at most once, redaction of
  sensitive entities, and the completion command in the default configuration.
\<close>

section \<open>Resolving tasks\<close>

lemma single_match:
  "(case xs of [] \<Rightarrow> Inl a | [t] \<Rightarrow> Inr t | _ \<Rightarrow> Inl b) = Inr u \<longleftrightarrow> xs = [u]"
  by (auto split: list.splits)

lemma resolve_abs:
  assumes wf: "wf_store s" and r: "resolve_task_reference env s ents = Inr t"
  shows "abs_tasks s (task_id t) = Some t"
proof (cases "is_int (dict_get ents ''task_id'')")
  case True
  with r have "get_task s (int_of (dict_get ents ''task_id'')) = Inr (Some t)"
    by (auto simp: resolve_task_reference_def Let_def result_bind_Inr_iff split: option.splits)
  then have "abs_tasks s (int_of (dict_get ents ''task_id'')) = Some t"
    by (auto simp: get_task_abs [OF wf] split: sum.splits)
  then show ?thesis using abs_tasks_id by metis
next
  case False
  with r obtain ts P where ts: "list_tasks s True = Inr ts" "filter P ts = [t]"
    by (auto simp: resolve_task_reference_def Let_def result_bind_Inr_iff single_match split: if_splits)
  then have "t \<in> set ts" by (auto simp: filter_eq_Cons_iff)
  moreover have "ts_open s" using ts(1) by (auto simp: list_tasks_def db_check_def split: if_splits)
  ultimately obtain i where "abs_tasks s i = Some t"
    using list_tasks_spec [OF wf, of True] ts(1) by auto
  then show ?thesis using abs_tasks_id by metis
qed

lemma resolve_errors:
  assumes wf: "wf_store s" and s_open: "ts_open s"
    and fits: "is_int (dict_get ents ''task_id'') \<Longrightarrow> fits_int64 (int_of (dict_get ents ''task_id''))"
    and r: "resolve_task_reference env s ents = Inl e"
  shows "e = KeyError \<or> is_value_error e"
proof (cases "is_int (dict_get ents ''task_id'')")
  case True
  with fits s_open have "db_check s [int_of (dict_get ents ''task_id'')] = Inr ()" by (simp add: db_check_def)
  with True r show ?thesis
    by (auto simp: resolve_task_reference_def Let_def get_task_abs [OF wf] split: option.splits)
next
  case False
  obtain ts where "list_tasks s True = Inr ts" using list_tasks_spec [OF wf s_open] by blast
  with False r show ?thesis
    by (auto simp: resolve_task_reference_def Let_def split: list.splits if_splits)
qed

section \<open>Properties\<close>

text \<open>
  C8. Every answer is audited: a command that returns a result has appended exactly one audit event,
  with the audit id and the action of the result, whose success flag says whether the command was
  executed; a command that raises has appended none and has not touched the task store.
\<close>

theorem every_answer_is_audited:
  "case route env x rt of
     (Inl e, rt') \<Rightarrow> rt_audit_events rt' = rt_audit_events rt \<and> rt_task_store rt' = rt_task_store rt
   | (Inr res, rt') \<Rightarrow> \<exists>ev. rt_audit_events rt' = rt_audit_events rt @ [ev]
       \<and> ae_audit_id ev = res_audit_id res \<and> ae_action_type ev = res_action res
       \<and> (ae_success_flag ev \<longleftrightarrow> res_status res = ''executed'')"
  by (cases rule: route_cases [of env x rt])
    (auto simp: stopped_def same_but_challenge_def audited_def ran_def split: prod.splits)

text \<open>
  C7. Only executed commands change tasks: with the default handlers, when the task table differs
  after a command, the command returned a result with status executed. Rejected and challenged
  commands, and commands that raise, leave the table as it was.
\<close>

theorem only_executed_commands_change_tasks:
  assumes "router_wf rt"
    and "ts_rows (rt_task_store (snd (route env x rt))) \<noteq> ts_rows (rt_task_store rt)"
  shows "\<exists>res. fst (route env x rt) = Inr res \<and> res_status res = ''executed''"
proof (cases rule: route_cases [of env x rt])
  case raised
  with assms(2) show ?thesis by (simp add: same_but_challenge_def)
next
  case stopped
  with assms(2) show ?thesis by (auto simp: stopped_def)
next
  case (ran intent defn)
  obtain r s where h: "ad_handler defn (at_site 8 env) (in_entities intent) (rt_task_store rt) = (r, s)"
    by fastforce
  have "default_definition (in_intent_type intent) = Some defn" "wf_store (rt_task_store rt)"
    using ran(2) assms(1) by (auto simp: router_wf_def)
  then have "ts_rows s = ts_rows (rt_task_store rt)" if "r = Inl e" for e
    using default_handler_raise h that by blast
  with ran(4) h assms(2) show ?thesis by (cases r) (auto simp: ran_def)
qed

text \<open>Sample commands for the witnesses.\<close>

definition sample_create :: pyval where
  "sample_create = PDict [(''intent_type'', PStr ''create_task''),
     (''entities'', PDict [(''task'', PStr ''milk'')]), (''timestamp'', PStr ''t''),
     (''confidence_score'', PFloat (Fin 1))]"

definition sample_config :: pyval where
  "sample_config = PDict [(''command_router'', PDict [(''min_confidence'', PFloat (Fin (1 / 2)))])]"

lemma load_sample_config: "load_router_settings (Some sample_config) = Inr (PFloat (Fin (1 / 2)), PBool True)"
  by (simp add: load_router_settings_def sample_config_def dict_get_or_def)

lemma fresh_router:
  obtains s rt where "init_store ''k'' None default_options [] 0 = Inr s"
    "init_router stub_env s None (Some sample_config) = Inr rt" "rt_task_store rt = s" "router_legacy rt"
    "rt_min_confidence rt = Fin (1 / 2)" "rt_enable_challenge_gate rt"
proof -
  obtain s where s: "init_store ''k'' None default_options [] 0 = Inr s" using init_store_ok [of "''k''"] by auto
  obtain rt where rt: "init_router stub_env s None (Some sample_config) = Inr rt" "rt_min_confidence rt = Fin (1 / 2)"
    "rt_enable_challenge_gate rt"
    by (simp add: init_router_def init_challenge_def outside_unit_def load_sample_config default_registry)
  note f = init_router_facts [OF rt(1)]
  have "never_active s"
    using init_store_fields [OF s] by (simp add: never_active_def abs_tasks_def find_row_def)
  then have "router_legacy rt" using f legacy_inv_init [OF s] by (simp add: router_legacy_def)
  then show thesis using that s rt f by blast
qed

lemma validate_sample:
  "validate_and_normalize_intent stub_env sample_create =
     Inr \<lparr>in_intent_id = ''u'', in_intent_type = ''create_task'', in_entities = [(''task'', PStr ''milk'')],
          in_timestamp = ''iso'', in_confidence_score = Fin 1\<rparr>"
proof -
  have "lower (strip ''create_task'') = ''create_task''" "strip ''create_task'' \<noteq> []"
    "replace_char (CHR ''Z'') ''+00:00'' ''t'' = ''t''"
    by code_simp+
  then show ?thesis
    by (simp add: validate_and_normalize_intent_def sample_create_def REQUIRED_INTENT_KEYS_def dict_has_def
        Let_def outside_unit_def normalize_timestamp_def stub_env_def replace_naive_with_utc_def
        astimezone_utc_def in_datetime_range_def max_ordinal_def day_micros_def dict_get_or_def)
qed

lemma sample_create_runs:
  assumes rt: "router_legacy rt" "ts_open (rt_task_store rt)" "ts_seq (rt_task_store rt) < max_int64"
    and "rt_min_confidence rt = Fin (1 / 2)"
  shows "\<exists>res. route stub_env sample_create rt =
      (Inr res, snd (route stub_env sample_create rt)) \<and> res_status res = ''executed''
    \<and> abs_tasks (rt_task_store (snd (route stub_env sample_create rt))) =
      (abs_tasks (rt_task_store rt))(ts_seq (rt_task_store rt) + 1 \<mapsto>
        created_record (at_site 8 stub_env) (ts_seq (rt_task_store rt) + 1) ''milk'' PNone None PNone 0)"
proof -
  let ?s = "rt_task_store rt"
  let ?t = "created_record (at_site 8 stub_env) (ts_seq ?s + 1) ''milk'' PNone None PNone 0"
  have wf: "wf_store ?s" and lc: "legacy_config ?s" using rt(1) by (auto simp: router_legacy_def legacy_inv_def)
  have strip: "strip ''milk'' = ''milk''" by code_simp
  obtain s' where s': "create_task (at_site 8 stub_env) ''milk'' PNone None PNone 0 ?s = (Inr (Some ?t), s')"
    "abs_tasks s' = (abs_tasks ?s)(ts_seq ?s + 1 \<mapsto> ?t)"
    by (rule create_task_ok [OF wf, of "''milk''" PNone PNone 0 "at_site 8 stub_env" None])
      (use rt legacy_storage_granted [OF lc] strip in \<open>simp_all add: fits_int64_def max_int64_def\<close>)
  have h: "handle_create_task (at_site 8 stub_env) [(''task'', PStr ''milk'')] ?s =
      (Inr \<lparr>ax_action_type = ''CREATE_TASK'', ax_lifecycle_before = None,
        ax_lifecycle_after = Some ''CREATED'', ax_metadata = [(''task_id'', PInt (ts_seq ?s + 1))]\<rparr>, s')"
    using s'(1) by (simp add: handle_create_task_def and_then_def title_entity_def dict_get_or_def
        attribute_of_def created_record_def)
  have v: "validate_create_task_entities stub_env [(''task'', PStr ''milk'')] = Inr ()"
    using strip by (simp add: validate_create_task_entities_def title_entity_def dict_get_or_def blank_text_def Let_def)
  have reg: "rt_registry rt = default_definition" using rt(1) by (simp add: router_legacy_def)
  have "route stub_env sample_create rt = execute_action stub_env
      \<lparr>in_intent_id = ''u'', in_intent_type = ''create_task'', in_entities = [(''task'', PStr ''milk'')],
        in_timestamp = ''iso'', in_confidence_score = Fin 1\<rparr>
      \<lparr>ad_action_type = ''CREATE_TASK'', ad_handler = handle_create_task,
        ad_validator = validate_create_task_entities, ad_challengeable = False\<rparr> rt"
    using assms(4) v by (simp add: route_def validate_sample reg default_definition_def Let_def evaluate_challenge_def)
  then show ?thesis using h s'(2) by (simp add: execute_action_def emit_audit_event_def)
qed

theorem only_executed_commands_change_tasks_witness:
  "\<exists>rt res. router_wf rt \<and> ts_rows (rt_task_store rt) = []
     \<and> ts_rows (rt_task_store (snd (route stub_env sample_create rt))) \<noteq> []
     \<and> fst (route stub_env sample_create rt) = Inr res \<and> res_status res = ''executed''"
proof -
  obtain s rt where s: "init_store ''k'' None default_options [] 0 = Inr s"
    and rt: "rt_task_store rt = s" "router_legacy rt" "rt_min_confidence rt = Fin (1 / 2)"
    by (rule fresh_router)
  note f = init_store_fields [OF s]
  have empty: "ts_rows (rt_task_store rt) = []" using f rt(1) by simp
  have "abs_tasks (rt_task_store (snd (route stub_env sample_create rt))) 1 \<noteq> None"
    using sample_create_runs [OF rt(2) _ _ rt(3)] rt(1) f by (auto simp: max_int64_def)
  then have ne: "ts_rows (rt_task_store (snd (route stub_env sample_create rt))) \<noteq> []"
    by (auto simp: abs_tasks_def find_row_def)
  have wf: "router_wf rt" using rt(2) by (simp add: router_legacy_def router_wf_def legacy_inv_def)
  from only_executed_commands_change_tasks [OF wf, of stub_env sample_create] ne empty wf
  show ?thesis by auto
qed

text \<open>In the default configuration the completion handler raises and writes nothing.\<close>

lemma legacy_complete_raises:
  assumes "router_legacy rt"
  shows "\<exists>e. fst (handle_complete_task env ents (rt_task_store rt)) = Inl e"
proof -
  let ?s = "rt_task_store rt"
  have na: "never_active ?s" and wf: "wf_store ?s" and lc: "legacy_config ?s"
    using assms by (auto simp: router_legacy_def legacy_inv_def)
  show ?thesis
  proof (cases "resolve_task_reference env ?s ents")
    case (Inr t)
    then have t: "abs_tasks ?s (task_id t) = Some t" by (rule resolve_abs [OF wf])
    then have st: "task_status t = CREATED \<or> task_status t = ARCHIVED" using na by (auto simp: never_active_def)
    then have "\<not> memory_granted env (task_id t) (task_status t) COMPLETED ?s"
      by (auto simp: legacy_memory_granted [OF lc] legacy_allowed_def)
    then have "\<exists>e s'. transition_task env (task_id t) (StateEnum COMPLETED) ?s = (Inl e, s')"
      using transition_task_total [OF wf, of env "task_id t" "StateEnum COMPLETED"] t by auto
    with Inr st show ?thesis by (auto simp: handle_complete_task_def complete_task_def and_then_def Let_def)
  qed (simp add: handle_complete_task_def)
qed

lemma legacy_completion_keeps_rows:
  assumes inv: "router_legacy rt"
    and complete: "\<And>intent. validate_and_normalize_intent env x = Inr intent \<Longrightarrow>
      in_intent_type intent = ''complete_task'' \<or> in_intent_type intent = ''mark_completed''"
  shows "ts_rows (rt_task_store (snd (route env x rt))) = ts_rows (rt_task_store rt)"
proof (cases rule: route_cases [of env x rt])
  case raised
  then show ?thesis by (simp add: same_but_challenge_def)
next
  case stopped
  then show ?thesis by (auto simp: stopped_def)
next
  case (ran intent defn)
  have wf: "wf_store (rt_task_store rt)" and "rt_registry rt = default_definition"
    using inv by (auto simp: router_legacy_def legacy_inv_def)
  then have d: "default_definition (in_intent_type intent) = Some defn" using ran(2) by simp
  then have h: "ad_handler defn = handle_complete_task"
    using complete [OF ran(1)] by (auto simp: default_definitions)
  obtain r s' where out: "handle_complete_task (at_site 8 env) (in_entities intent) (rt_task_store rt) = (r, s')"
    by fastforce
  with legacy_complete_raises [OF inv, of "at_site 8 env" "in_entities intent"] obtain e where "r = Inl e" by auto
  then have "ts_rows s' = ts_rows (rt_task_store rt)"
    using default_handler_raise [OF d wf] out h by metis
  with ran(4) out h show ?thesis by (auto simp: ran_def)
qed

text \<open>
  In the default configuration no task can ever be completed by a command: whatever commands have
  been routed since start-up, every task is CREATED or ARCHIVED, and a completion command is never
  executed. Nothing in the router moves a task to ACTIVE, and the lifecycle matrix has no step from
  CREATED to COMPLETED.
\<close>

theorem completion_commands_never_execute:
  assumes "init_store key None default_options [] 0 = Inr s"
    and "init_router env0 s cl doc = Inr rt0" and "rt = fold router_step cmds rt0"
  shows "(\<forall>i t. abs_tasks (rt_task_store rt) i = Some t \<longrightarrow> task_status t \<in> {CREATED, ARCHIVED})
    \<and> (\<forall>res. fst (route env x rt) = Inr res \<longrightarrow>
        \<not> (res_status res = ''executed'' \<and> res_action res = ''COMPLETE_TASK''))"
proof -
  note f = init_router_facts [OF assms(2)]
  have "never_active s"
    using init_store_fields [OF assms(1)] by (simp add: never_active_def abs_tasks_def find_row_def)
  then have "router_legacy rt0" using f legacy_inv_init [OF assms(1)] by (simp add: router_legacy_def)
  then have inv: "router_legacy rt" unfolding assms(3) by (rule router_legacy_run.run_inv)
  have na: "never_active (rt_task_store rt)" and reg: "rt_registry rt = default_definition"
    using inv by (auto simp: router_legacy_def)
  note complete = legacy_complete_raises [OF inv]
  have "\<not> (res_status res = ''executed'' \<and> res_action res = ''COMPLETE_TASK'')"
    if res: "fst (route env x rt) = Inr res" for res
  proof (cases rule: route_cases [of env x rt])
    case raised
    with res show ?thesis by simp
  next
    case stopped
    with res show ?thesis by (auto simp: stopped_def)
  next
    case (ran intent defn)
    then have "default_definition (in_intent_type intent) = Some defn" using reg by simp
    then show ?thesis
    proof (cases rule: default_handler_cases)
      case 1
      with ran(4) res show ?thesis
        by (auto simp: ran_def rejected_def handle_create_task_def and_then_def attribute_of_def
            split: prod.splits sum.splits pyval.splits option.splits if_splits)
    next
      case 2
      with ran(4) res complete [of "at_site 8 env" "in_entities intent"] show ?thesis
        by (auto simp: ran_def rejected_def split: prod.splits)
    next
      case 3
      with ran(4) res show ?thesis
        by (auto simp: ran_def rejected_def handle_cancel_task_def and_then_def attribute_of_def Let_def
            split: prod.splits sum.splits option.splits if_splits)
    qed
  qed
  then show ?thesis using na by (auto simp: never_active_def)
qed

theorem completion_commands_never_execute_witness:
  "\<exists>s rt0. init_store ''k'' None default_options [] 0 = Inr s \<and> init_router stub_env s None (Some sample_config) = Inr rt0
     \<and> (\<forall>i t. abs_tasks (rt_task_store (fold router_step [(stub_env, sample_create)] rt0)) i = Some t \<longrightarrow>
          task_status t \<in> {CREATED, ARCHIVED})
     \<and> abs_tasks (rt_task_store (fold router_step [(stub_env, sample_create)] rt0)) 1 \<noteq> None"
proof -
  obtain s rt where s: "init_store ''k'' None default_options [] 0 = Inr s" "init_router stub_env s None (Some sample_config) = Inr rt"
    and rt: "rt_task_store rt = s" "router_legacy rt" "rt_min_confidence rt = Fin (1 / 2)"
    by (rule fresh_router)
  note f = init_store_fields [OF s(1)]
  have "abs_tasks (rt_task_store (snd (route stub_env sample_create rt))) 1 \<noteq> None"
    using sample_create_runs [OF rt(2) _ _ rt(3)] rt(1) f by (auto simp: max_int64_def)
  moreover note completion_commands_never_execute [OF s refl, of "[(stub_env, sample_create)]" stub_env PNone]
  ultimately show ?thesis using s by auto
qed

section \<open>When a command is answered\<close>

text \<open>
  The values that make the conversions of the code raise something the router does not catch: a time
  outside the years 1 to 9999 in UTC, an integer too large for a float, a task id beyond 64 bits, and
  an alignment score that is present but \<open>None\<close>.
\<close>

definition time_in_range :: "py_env \<Rightarrow> pyval \<Rightarrow> bool" where
  "time_in_range env v = (case normalize_timestamp env v of Inr _ \<Rightarrow> True | Inl e \<Rightarrow> is_value_error e)"

definition float_in_range :: "pyval \<Rightarrow> bool" where
  "float_in_range v = (case v of PInt i \<Rightarrow> (case float_of_int i of Inr _ \<Rightarrow> True | Inl _ \<Rightarrow> False) | _ \<Rightarrow> True)"

definition tame_entities :: "py_env \<Rightarrow> pydict \<Rightarrow> bool" where
  "tame_entities env ents \<longleftrightarrow> time_in_range env (dict_get ents ''due_at'')
     \<and> float_in_range (dict_get ents ''alignment_score'') \<and> map_of ents ''alignment_score'' \<noteq> Some PNone
     \<and> (is_int (dict_get ents ''task_id'') \<longrightarrow> fits_int64 (int_of (dict_get ents ''task_id'')))"

definition tame_intent :: "py_env \<Rightarrow> pydict \<Rightarrow> bool" where
  "tame_intent env d \<longleftrightarrow> time_in_range env (dict_get d ''timestamp'')
     \<and> float_in_range (dict_get d ''confidence_score'')
     \<and> (case dict_get d ''entities'' of PDict ents \<Rightarrow> tame_entities env ents | _ \<Rightarrow> True)"

lemma py_float_in_range: "is_number v \<Longrightarrow> float_in_range v \<Longrightarrow> \<exists>x. py_float env v = Inr x"
  by (cases v) (auto simp: float_in_range_def split: sum.splits)

lemma normalize_intent_type_error: "normalize_intent_type v = Inl e \<Longrightarrow> is_value_error e"
  by (cases v) (auto split: if_splits)

lemma validate_intent_error:
  assumes "tame_intent env d" and "validate_and_normalize_intent env (PDict d) = Inl e"
  shows "is_value_error e"
proof -
  let ?c = "dict_get d ''confidence_score''"
  have c: "is_number ?c \<Longrightarrow> \<exists>x. py_float env ?c = Inr x"
    using assms(1) by (auto simp: tame_intent_def intro: py_float_in_range)
  have ts: "normalize_timestamp env (dict_get d ''timestamp'') = Inl e' \<Longrightarrow> is_value_error e'" for e'
    using assms(1) by (simp add: tame_intent_def time_in_range_def)
  show ?thesis
  proof (cases "list_all (dict_has d) REQUIRED_INTENT_KEYS")
    case False
    with assms(2) show ?thesis by (auto simp: validate_and_normalize_intent_def)
  next
    case keys: True
    show ?thesis
    proof (cases "normalize_intent_type (dict_get d ''intent_type'')")
      case (Inl e')
      with assms(2) keys normalize_intent_type_error [OF Inl] show ?thesis
        by (simp add: validate_and_normalize_intent_def)
    next
      case (Inr it)
      show ?thesis
      proof (cases "dict_get d ''entities''")
        case (PDict ents)
        show ?thesis
        proof (cases "is_number ?c")
          case True
          with c obtain x where "py_float env ?c = Inr x" by blast
          with assms(2) keys Inr PDict True show ?thesis
            by (cases "normalize_timestamp env (dict_get d ''timestamp'')")
              (auto simp: validate_and_normalize_intent_def Let_def dest: ts split: if_splits)
        qed (use assms(2) keys Inr PDict in \<open>auto simp: validate_and_normalize_intent_def Let_def\<close>)
      qed (use assms(2) keys Inr in \<open>auto simp: validate_and_normalize_intent_def\<close>)
    qed
  qed
qed

lemma validate_intent_entities:
  "validate_and_normalize_intent env (PDict d) = Inr i \<Longrightarrow> dict_get d ''entities'' = PDict (in_entities i)"
  by (cases "dict_get d ''entities''")
    (auto simp: validate_and_normalize_intent_def Let_def result_bind_Inr_iff split: if_splits)

lemma create_validator_error:
  assumes "tame_entities env ents" and "validate_create_task_entities env ents = Inl e"
  shows "is_value_error e"
  using assms
  by (cases "normalize_timestamp env (dict_get ents ''due_at'')")
    (auto simp: validate_create_task_entities_def tame_entities_def time_in_range_def Let_def split: if_splits)

lemma reference_validator_error:
  assumes "tame_entities env ents" and "validate_task_reference_entities env ents = Inl e"
  shows "is_value_error e"
proof -
  have "is_number (dict_get ents ''alignment_score'') \<Longrightarrow> \<exists>x. py_float env (dict_get ents ''alignment_score'') = Inr x"
    using assms(1) by (auto simp: tame_entities_def intro: py_float_in_range)
  with assms(2) show ?thesis
    by (auto simp: validate_task_reference_entities_def Let_def split: if_splits)
qed

lemma evaluate_challenge_returns:
  assumes wf: "wf_store (rt_task_store rt)" and s_open: "ts_open (rt_task_store rt)"
    and tame: "tame_entities env' (in_entities i)"
    and valid: "ad_challengeable defn \<Longrightarrow> validate_task_reference_entities env' (in_entities i) = Inr ()"
  shows "\<exists>p. fst (evaluate_challenge env i defn rt) = Inr p"
proof (cases "rt_enable_challenge_gate rt \<and> ad_challengeable defn")
  case False
  then show ?thesis by (simp add: evaluate_challenge_def)
next
  case True
  let ?ents = "in_entities i"
  show ?thesis
  proof (cases "resolve_task_reference env (rt_task_store rt) ?ents")
    case (Inl e)
    then have "e = KeyError \<or> is_value_error e"
      using tame by (intro resolve_errors [OF wf s_open]) (auto simp: tame_entities_def)
    with Inl True show ?thesis by (auto simp: evaluate_challenge_def Let_def)
  next
    case (Inr t)
    have "\<exists>x. py_float env (dict_get_or ?ents ''alignment_score'' (PFloat (Fin 1))) = Inr x"
    proof (cases "map_of ?ents ''alignment_score''")
      case None
      then show ?thesis by (simp add: dict_get_or_def)
    next
      case (Some a)
      then have a: "dict_get ?ents ''alignment_score'' = a" "a \<noteq> PNone" "float_in_range a"
        using tame by (auto simp: dict_get_def tame_entities_def)
      then have "is_number a"
        using valid True by (auto simp: validate_task_reference_entities_def Let_def split: if_splits)
      from py_float_in_range [OF this a(3)] Some show ?thesis by (simp add: dict_get_or_def)
    qed
    then obtain x where x: "py_float env (dict_get_or ?ents ''alignment_score'' (PFloat (Fin 1))) = Inr x" ..
    from True Inr x evaluate_never_raises show ?thesis
      by (auto simp: evaluate_challenge_def Let_def case_prod_unfold)
  qed
qed



text \<open>
  Two kinds of malformed input make \<open>route\<close> raise instead of returning a rejection: an intent that
  is not a mapping (its own rejection branch calls \<open>get\<close> on it), and a challengeable command whose
  entities hold an alignment score of \<open>None\<close> (the validator lets it pass, the challenge hook converts
  it to a float). Nothing is audited in either case.
\<close>

theorem route_raises_on_malformed_input:
  "(\<not> is_dict x \<longrightarrow> route env x rt = (Inl AttributeError, rt))
   \<and> (validate_and_normalize_intent env y = Inr i
      \<and> \<not> float_lt (in_confidence_score i) (rt_min_confidence rt)
      \<and> rt_registry rt (in_intent_type i) = Some defn \<and> ad_challengeable defn \<and> rt_enable_challenge_gate rt
      \<and> ad_validator defn env (in_entities i) = Inr ()
      \<and> resolve_task_reference (at_site 7 env) (rt_task_store rt) (in_entities i) = Inr t
      \<and> map_of (in_entities i) ''alignment_score'' = Some PNone
      \<longrightarrow> route env y rt = (Inl TypeError, rt))"
proof (intro conjI impI)
  assume "\<not> is_dict x"
  then show "route env x rt = (Inl AttributeError, rt)"
    by (cases x) (simp_all add: route_def validate_and_normalize_intent_def reject_shape_def)
next
  assume *: "validate_and_normalize_intent env y = Inr i
      \<and> \<not> float_lt (in_confidence_score i) (rt_min_confidence rt)
      \<and> rt_registry rt (in_intent_type i) = Some defn \<and> ad_challengeable defn \<and> rt_enable_challenge_gate rt
      \<and> ad_validator defn env (in_entities i) = Inr ()
      \<and> resolve_task_reference (at_site 7 env) (rt_task_store rt) (in_entities i) = Inr t
      \<and> map_of (in_entities i) ''alignment_score'' = Some PNone"
  then have "evaluate_challenge (at_site 7 env) i defn rt = (Inl TypeError, rt)"
    by (simp add: evaluate_challenge_def Let_def dict_get_or_def)
  with * show "route env y rt = (Inl TypeError, rt)" by (simp add: route_def)
qed

definition sample_cancel :: "pyval \<Rightarrow> pyval" where
  "sample_cancel alignment = PDict [(''intent_type'', PStr ''cancel_task''),
     (''entities'', PDict [(''task_id'', PInt 1), (''alignment_score'', alignment)]), (''timestamp'', PStr ''t''),
     (''confidence_score'', PFloat (Fin 1))]"

lemma validate_sample_cancel:
  "validate_and_normalize_intent stub_env (sample_cancel a) =
     Inr \<lparr>in_intent_id = ''u'', in_intent_type = ''cancel_task'',
          in_entities = [(''task_id'', PInt 1), (''alignment_score'', a)],
          in_timestamp = ''iso'', in_confidence_score = Fin 1\<rparr>"
proof -
  have "lower (strip ''cancel_task'') = ''cancel_task''" "strip ''cancel_task'' \<noteq> []"
    "replace_char (CHR ''Z'') ''+00:00'' ''t'' = ''t''"
    by code_simp+
  then show ?thesis
    by (simp add: validate_and_normalize_intent_def sample_cancel_def REQUIRED_INTENT_KEYS_def dict_has_def
        Let_def outside_unit_def normalize_timestamp_def stub_env_def replace_naive_with_utc_def
        astimezone_utc_def in_datetime_range_def max_ordinal_def day_micros_def dict_get_or_def)
qed

text \<open>A router whose store holds one task, for the witnesses.\<close>

lemma one_task_router:
  obtains rt where "router_legacy rt" "ts_open (rt_task_store rt)"
    "abs_tasks (rt_task_store rt) 1 = Some (created_record stub_env 1 ''milk'' PNone None PNone 0)"
    "rt_min_confidence rt = Fin (1 / 2)" "rt_enable_challenge_gate rt"
    "init_challenge (Fin (1/2)) = Inr (rt_challenge_logic rt)"
proof -
  obtain s0 s where s: "init_store ''k'' None default_options [] 0 = Inr s0"
    "s = fold store_step [(stub_env, CreateOp ''milk'' PNone None PNone 0)] s0" "legacy_inv s" "ts_open s"
    "abs_tasks s 1 = Some (created_record stub_env 1 ''milk'' PNone None PNone 0)"
    by (rule one_task)
  have "never_active s0"
    using init_store_fields [OF s(1)] by (simp add: never_active_def abs_tasks_def find_row_def)
  then have na: "never_active s"
    using never_active_step [OF legacy_inv_init [OF s(1)]] by (simp add: s(2) del: store_step.simps)
  obtain cl where cl: "init_challenge (Fin (1/2)) = Inr cl" by (simp add: init_challenge_def outside_unit_def)
  obtain rt where rt: "init_router stub_env s None (Some sample_config) = Inr rt" "rt_min_confidence rt = Fin (1 / 2)"
    "rt_enable_challenge_gate rt" "rt_challenge_logic rt = cl"
    by (simp add: init_router_def cl load_sample_config default_registry)
  note f = init_router_facts [OF rt(1)]
  show thesis by (rule that [of rt]) (use s rt f na cl in \<open>simp_all add: router_legacy_def\<close>)
qed

lemma resolve_by_id:
  assumes "wf_store s" "ts_open s" "abs_tasks s 1 = Some t"
  shows "resolve_task_reference env s ((''task_id'', PInt 1) # rest) = Inr t"
proof -
  have "get_task s 1 = Inr (Some t)"
    using assms by (simp add: get_task_abs db_check_def fits_int64_def max_int64_def)
  then show ?thesis by (simp add: resolve_task_reference_def)
qed

theorem route_raises_on_malformed_input_witness:
  "\<exists>rt. route stub_env (PList []) rt = (Inl AttributeError, rt) \<and>
     route stub_env (sample_cancel PNone) rt = (Inl TypeError, rt)"
proof -
  obtain rt where rt: "router_legacy rt" "ts_open (rt_task_store rt)"
    "abs_tasks (rt_task_store rt) 1 = Some (created_record stub_env 1 ''milk'' PNone None PNone 0)"
    "rt_min_confidence rt = Fin (1 / 2)" "rt_enable_challenge_gate rt"
    by (rule one_task_router)
  let ?i = "\<lparr>in_intent_id = ''u'', in_intent_type = ''cancel_task'',
    in_entities = [(''task_id'', PInt 1), (''alignment_score'', PNone)],
    in_timestamp = ''iso'', in_confidence_score = Fin 1\<rparr>"
  let ?d = "\<lparr>ad_action_type = ''CANCEL_TASK'', ad_handler = handle_cancel_task,
             ad_validator = validate_task_reference_entities, ad_challengeable = True\<rparr>"
  have wf: "wf_store (rt_task_store rt)" and reg: "rt_registry rt = default_definition"
    using rt(1) by (auto simp: router_legacy_def legacy_inv_def)
  have "resolve_task_reference (at_site 7 stub_env) (rt_task_store rt) (in_entities ?i) =
      Inr (created_record stub_env 1 ''milk'' PNone None PNone 0)"
    by (simp add: resolve_by_id [OF wf rt(2,3)])
  then show ?thesis
    using route_raises_on_malformed_input [of "PList []" stub_env rt "sample_cancel PNone" ?i ?d
        "created_record stub_env 1 ''milk'' PNone None PNone 0"] rt(4,5)
    by (intro exI [of _ rt]) (simp add: validate_sample_cancel reg default_definition_def Let_def
        validate_task_reference_entities_def)
qed

text \<open>Reading a dict after an assignment.\<close>

lemma dict_get_set: "dict_get (dict_set d k v) j = (if j = k then v else dict_get d j)"
  by (simp add: dict_get_def map_of_dict_set)

lemma dict_get_or_set: "dict_get_or (dict_set d k v) j w = (if j = k then v else dict_get_or d j w)"
  by (simp add: dict_get_or_def map_of_dict_set)

lemma dict_has_set: "dict_has (dict_set d k v) j \<longleftrightarrow> j = k \<or> dict_has d j"
  by (simp add: dict_has_map_of map_of_dict_set)

lemma validate_nan:
  "validate_and_normalize_intent env (PDict (dict_set d ''confidence_score'' (PFloat NaN))) =
     (case validate_and_normalize_intent env (PDict (dict_set d ''confidence_score'' (PFloat (Fin 1)))) of
        Inl e \<Rightarrow> Inl e | Inr i \<Rightarrow> Inr (i\<lparr>in_confidence_score := NaN\<rparr>))"
proof (cases "list_all (dict_has (dict_set d ''confidence_score'' (PFloat NaN))) REQUIRED_INTENT_KEYS")
  case False
  then have "\<not> list_all (dict_has (dict_set d ''confidence_score'' (PFloat (Fin 1)))) REQUIRED_INTENT_KEYS"
    by (simp add: REQUIRED_INTENT_KEYS_def dict_has_set)
  with False show ?thesis by (simp add: validate_and_normalize_intent_def)
next
  case True
  then have "list_all (dict_has (dict_set d ''confidence_score'' (PFloat (Fin 1)))) REQUIRED_INTENT_KEYS"
    by (simp add: REQUIRED_INTENT_KEYS_def dict_has_set)
  with True show ?thesis
    by (cases "normalize_intent_type (dict_get d ''intent_type'')"; cases "dict_get d ''entities''";
        cases "normalize_timestamp env (dict_get d ''timestamp'')")
      (simp_all add: validate_and_normalize_intent_def dict_get_set dict_get_or_set Let_def outside_unit_def)
qed

lemma confidence_not_read [simp]:
  "reject_intent env (i\<lparr>in_confidence_score := x\<rparr>) = reject_intent env i"
  "execute_action env (i\<lparr>in_confidence_score := x\<rparr>) = execute_action env i"
  "challenge_result env (i\<lparr>in_confidence_score := x\<rparr>) = challenge_result env i"
  "evaluate_challenge env (i\<lparr>in_confidence_score := x\<rparr>) = evaluate_challenge env i"
  by (simp_all add: fun_eq_iff reject_intent_def execute_action_def challenge_result_def evaluate_challenge_def
      split: prod.splits sum.splits)

lemma validate_confidence_one:
  "validate_and_normalize_intent env (PDict (dict_set d ''confidence_score'' (PFloat (Fin 1)))) = Inr i
   \<Longrightarrow> in_confidence_score i = Fin 1"
  by (cases "dict_get d ''entities''")
    (auto simp: validate_and_normalize_intent_def Let_def result_bind_Inr_iff dict_get_set split: if_splits)

text \<open>
  A confidence score that is not a number counts as full confidence: for a threshold of at most
  one, routing an intent with the score NaN gives the same result, events and state as routing it
  with the score 1. Neither the range check nor the threshold rejects it.
\<close>

theorem nan_confidence_counts_as_full:
  assumes "\<not> float_lt (Fin 1) (rt_min_confidence rt)"
  shows "route env (PDict (dict_set d ''confidence_score'' (PFloat NaN))) rt =
    route env (PDict (dict_set d ''confidence_score'' (PFloat (Fin 1)))) rt"
proof (cases "validate_and_normalize_intent env (PDict (dict_set d ''confidence_score'' (PFloat (Fin 1))))")
  case (Inl e)
  then show ?thesis
    by (cases "safe_timestamp env (dict_get d ''timestamp'')")
      (simp_all add: route_def validate_nan reject_shape_def dict_get_set dict_get_or_set)
next
  case (Inr i)
  with assms validate_confidence_one [OF Inr] show ?thesis
    by (cases "rt_min_confidence rt")
      (simp_all add: route_def validate_nan cong: option.case_cong sum.case_cong prod.case_cong if_cong)
qed

theorem nan_confidence_counts_as_full_witness:
  "\<exists>rt res. fst (route stub_env (PDict [(''intent_type'', PStr ''create_task''),
       (''entities'', PDict [(''task'', PStr ''milk'')]), (''timestamp'', PStr ''t''),
       (''confidence_score'', PFloat NaN)]) rt) = Inr res
     \<and> rt_min_confidence rt = Fin (1 / 2) \<and> res_status res = ''executed''"
proof -
  obtain s rt where s: "init_store ''k'' None default_options [] 0 = Inr s"
    and rt: "rt_task_store rt = s" "router_legacy rt" "rt_min_confidence rt = Fin (1 / 2)"
    by (rule fresh_router)
  let ?d = "[(''intent_type'', PStr ''create_task''),
       (''entities'', PDict [(''task'', PStr ''milk'')]), (''timestamp'', PStr ''t'')]"
  have "\<not> float_lt (Fin 1) (rt_min_confidence rt)" using rt(3) by simp
  from nan_confidence_counts_as_full [OF this, of stub_env ?d]
  have "route stub_env (PDict (?d @ [(''confidence_score'', PFloat NaN)])) rt = route stub_env sample_create rt"
    by (simp add: sample_create_def)
  moreover obtain res where "fst (route stub_env sample_create rt) = Inr res" "res_status res = ''executed''"
    using sample_create_runs [OF rt(2) _ _ rt(3)] rt(1) init_store_fields [OF s]
    by (metis fst_conv max_int64_def zero_less_numeral)
  ultimately show ?thesis using rt(3) by (intro exI [of _ rt] exI [of _ res]) simp
qed

text \<open>
  Entities that are marked sensitive are redacted in the audit trail: whatever happens to such a
  command, the audit event it leaves holds the mark and the sorted names of the entities, and no
  entity value.
\<close>

theorem sensitive_entities_are_redacted:
  assumes "dict_get d ''entities'' = PDict ents" and "truthy (dict_get_or ents ''sensitive'' (PBool False))"
    and "route env (PDict d) rt = (Inr res, rt')"
  shows "\<exists>ev. rt_audit_events rt' = rt_audit_events rt @ [ev]
    \<and> ae_entities ev = [(''sensitive'', PBool True), (''entity_keys'', PList (map PStr (sort (map fst ents))))]"
proof (cases "validate_and_normalize_intent env (PDict d)")
  case (Inl e)
  with assms show ?thesis
    by (auto simp: route_def reject_shape_def emit_audit_event_def safe_entities_for_audit_def
        split: if_splits sum.splits)
next
  case (Inr i)
  then have ents: "in_entities i = ents" using validate_intent_entities [OF Inr] assms(1) by simp
  let ?ok = "\<lambda>out. \<forall>res rt'. out = (Inr res, rt') \<longrightarrow> (\<exists>ev. rt_audit_events rt' = rt_audit_events rt @ [ev]
    \<and> ae_entities ev = [(''sensitive'', PBool True), (''entity_keys'', PList (map PStr (sort (map fst ents))))])"
  have r: "?ok (reject_intent env i a c m rt1)" if "same_but_challenge rt rt1" for a c m rt1
    using that assms(2) ents
    by (simp add: reject_intent_def emit_audit_event_def safe_entities_for_audit_def same_but_challenge_def)
  have c: "?ok (challenge_result env i defn p rt1)" if "same_but_challenge rt rt1" for defn p rt1
    using that assms(2) ents
    by (simp add: challenge_result_def emit_audit_event_def safe_entities_for_audit_def same_but_challenge_def)
  have x: "?ok (execute_action env i defn rt1)" if "same_but_challenge rt rt1" for defn rt1
    using that assms(2) ents
    by (auto simp: execute_action_def reject_intent_def emit_audit_event_def safe_entities_for_audit_def
        same_but_challenge_def split: prod.splits sum.splits)
  have "?ok (route env (PDict d) rt)"
  proof (cases "rt_registry rt (in_intent_type i)")
    case None
    with Inr r [OF same_refl] show ?thesis by (simp add: route_def)
  next
    case (Some defn)
    obtain q rt1 where ev: "evaluate_challenge (at_site 7 env) i defn rt = (q, rt1)" by fastforce
    with Inr Some r [OF same_refl] c [OF evaluate_challenge_same [OF ev]] x [OF evaluate_challenge_same [OF ev]]
    show ?thesis
      by (cases "ad_validator defn env (in_entities i)"; cases q; cases "projr q") (auto simp: route_def)
  qed
  with assms(3) show ?thesis by blast
qed

theorem sensitive_entities_are_redacted_witness:
  "\<exists>rt res rt' ev. route stub_env (PDict [(''entities'', PDict [(''sensitive'', PBool True), (''pin'', PStr ''1234'')])]) rt
       = (Inr res, rt') \<and> rt_audit_events rt' = rt_audit_events rt @ [ev]
     \<and> ae_entities ev = [(''sensitive'', PBool True), (''entity_keys'', PList [PStr ''pin'', PStr ''sensitive''])]"
proof -
  obtain rt where rt: "router_legacy rt" by (rule fresh_router)
  let ?d = "[(''entities'', PDict [(''sensitive'', PBool True), (''pin'', PStr ''1234'')])]"
  have sorted: "sort (map fst [(''sensitive'', PBool True), (''pin'', PStr ''1234'')]) = [''pin'', ''sensitive'']"
    by (simp add: less_list_code less_eq_list_code less_char_def less_eq_char_def)
  obtain res rt' where run: "route stub_env (PDict ?d) rt = (Inr res, rt')"
    by (simp add: route_def validate_and_normalize_intent_def REQUIRED_INTENT_KEYS_def dict_has_def
        reject_shape_def safe_timestamp_def normalize_timestamp_def)
  from sensitive_entities_are_redacted [OF _ _ run] sorted run show ?thesis
    by (auto simp: dict_get_or_def)
qed

section \<open>Challenges through the router\<close>

lemma evaluate_challenge_inv:
  assumes "evaluate_challenge env i defn rt = (r, rt')"
  shows "(r = Inr None \<or> (\<exists>e. r = Inl e)) \<and> rt' = rt \<or>
    (\<exists>n goal score ov. evaluate_challenge_logic env n (lower (ad_action_type defn)) goal score ov
        (rt_challenge_logic rt) = (r, rt_challenge_logic rt'))"
proof (cases "resolve_task_reference env (rt_task_store rt) (in_entities i)")
  case (Inl e)
  with assms show ?thesis by (auto simp: evaluate_challenge_def Let_def split: if_splits)
next
  case (Inr t)
  show ?thesis
  proof (cases "\<not> rt_enable_challenge_gate rt \<or> \<not> ad_challengeable defn")
    case True
    with assms show ?thesis by (auto simp: evaluate_challenge_def)
  next
    case False
    show ?thesis
    proof (cases "py_float env (dict_get_or (in_entities i) ''alignment_score'' (PFloat (Fin 1)))")
      case (Inl e)
      with False assms Inr show ?thesis by (auto simp: evaluate_challenge_def Let_def)
    next
      case score: (Inr b)
      have "evaluate_challenge_logic env (task_id t) (lower (ad_action_type defn))
          (py_str env (dict_get_or (in_entities i) ''declared_goal'' (PStr (case task_goal t of None \<Rightarrow> [] | Some g \<Rightarrow> g))))
          b (truthy (dict_get_or (in_entities i) ''user_overrode'' (PBool False))) (rt_challenge_logic rt)
        = (r, rt_challenge_logic rt')"
        using False assms Inr score by (auto simp: evaluate_challenge_def Let_def split: prod.splits)
      then show ?thesis by blast
    qed
  qed
qed

lemma evaluate_challenge_keys:
  assumes "evaluate_challenge env i defn rt = (r, rt')"
  shows "cl_challenged_keys (rt_challenge_logic rt) \<subseteq> cl_challenged_keys (rt_challenge_logic rt')"
    and "r = Inr (Some p) \<Longrightarrow> \<exists>n. dict_get p ''task_id'' = PInt n
       \<and> (n, normalize_action (lower (ad_action_type defn))) \<notin> cl_challenged_keys (rt_challenge_logic rt)
       \<and> (n, normalize_action (lower (ad_action_type defn))) \<in> cl_challenged_keys (rt_challenge_logic rt')"
proof -
  have "cl_challenged_keys (rt_challenge_logic rt) \<subseteq> cl_challenged_keys (rt_challenge_logic rt') \<and>
    (r = Inr (Some p) \<longrightarrow> (\<exists>n. dict_get p ''task_id'' = PInt n
       \<and> (n, normalize_action (lower (ad_action_type defn))) \<notin> cl_challenged_keys (rt_challenge_logic rt)
       \<and> (n, normalize_action (lower (ad_action_type defn))) \<in> cl_challenged_keys (rt_challenge_logic rt')))"
  proof (cases "r = Inr None \<and> rt' = rt \<or> (\<exists>e. r = Inl e \<and> rt' = rt)")
    case True
    then show ?thesis by auto
  next
    case False
    with evaluate_challenge_inv [OF assms] obtain n goal score ov where
      ev: "evaluate_challenge_logic env n (lower (ad_action_type defn)) goal score ov (rt_challenge_logic rt)
        = (r, rt_challenge_logic rt')"
      by auto
    show ?thesis
    proof (cases "challenges (rt_challenge_logic rt) n (lower (ad_action_type defn)) score ov")
      case True
      from evaluate_challenged [OF this, of env goal] ev True show ?thesis
        by (auto simp: challenges_def)
    next
      case False
      from evaluate_not_challenged [OF this, of env goal] ev have "r = Inr None" "rt_challenge_logic rt' = rt_challenge_logic rt"
        by auto
      then show ?thesis by simp
    qed
  qed
  then show "cl_challenged_keys (rt_challenge_logic rt) \<subseteq> cl_challenged_keys (rt_challenge_logic rt')"
    and "r = Inr (Some p) \<Longrightarrow> \<exists>n. dict_get p ''task_id'' = PInt n
       \<and> (n, normalize_action (lower (ad_action_type defn))) \<notin> cl_challenged_keys (rt_challenge_logic rt)
       \<and> (n, normalize_action (lower (ad_action_type defn))) \<in> cl_challenged_keys (rt_challenge_logic rt')"
    by auto
qed

lemma challenge_logic_not_written [simp]:
  "rt_challenge_logic (snd (reject_intent env i a c m rt)) = rt_challenge_logic rt"
  "rt_challenge_logic (snd (challenge_result env i defn p rt)) = rt_challenge_logic rt"
  "rt_challenge_logic (snd (execute_action env i defn rt)) = rt_challenge_logic rt"
  "rt_challenge_logic (snd (reject_shape env x rt)) = rt_challenge_logic rt"
  by (auto simp: reject_intent_def challenge_result_def execute_action_def reject_shape_def emit_audit_event_def
      split: prod.splits sum.splits pyval.splits)

lemma route_challenge:
  "cl_challenged_keys (rt_challenge_logic rt) \<subseteq> cl_challenged_keys (rt_challenge_logic (snd (route env x rt))) \<and>
   (\<forall>res p. fst (route env x rt) = Inr res \<longrightarrow> res_challenge_payload res = Some p \<longrightarrow>
     (\<exists>n. dict_get p ''task_id'' = PInt n
       \<and> (n, normalize_action (lower (res_action res))) \<notin> cl_challenged_keys (rt_challenge_logic rt)
       \<and> (n, normalize_action (lower (res_action res))) \<in> cl_challenged_keys (rt_challenge_logic (snd (route env x rt)))))"
proof (cases "validate_and_normalize_intent env x")
  case (Inl e)
  then show ?thesis
    by (cases "is_value_error e"; cases x)
      (auto simp: route_def reject_shape_def rejected_def emit_audit_event_def split: sum.splits)
next
  case (Inr i)
  note facts = reject_intent_def rejected_def emit_audit_event_def
  show ?thesis
  proof (cases "rt_registry rt (in_intent_type i)")
    case None
    with Inr show ?thesis by (simp add: route_def facts)
  next
    case (Some defn)
    obtain q rt1 where ev: "evaluate_challenge (at_site 7 env) i defn rt = (q, rt1)" by fastforce
    note k = evaluate_challenge_keys [OF ev]
    consider "route env x rt = reject_intent env i ''UNKNOWN'' ''LOW_CONFIDENCE''
          [(''min_confidence'', PFloat (rt_min_confidence rt))] rt"
      | "route env x rt = reject_intent env i (ad_action_type defn) ''INVALID_ENTITY'' [] rt"
      | e where "route env x rt = (Inl e, rt)" | e where "route env x rt = (Inl e, rt1)"
      | p where "q = Inr (Some p)" "route env x rt = challenge_result env i defn p rt1"
      | "route env x rt = execute_action env i defn rt1"
      using Inr Some ev
      by (cases "float_lt (in_confidence_score i) (rt_min_confidence rt)";
          cases "ad_validator defn env (in_entities i)";
          cases "is_value_error (projl (ad_validator defn env (in_entities i)))";
          cases q; cases "projr q") (simp_all add: route_def)
    then show ?thesis
    proof cases
      case 5
      with k(1) k(2) [OF 5(1)] show ?thesis by (simp add: challenge_result_def emit_audit_event_def)
    next
      case 6
      with k(1) show ?thesis
        by (auto simp: execute_action_def facts split: prod.splits sum.splits)
    qed (use k(1) in \<open>simp_all add: facts\<close>)
  qed
qed

lemma challenged_keys_mono:
  "cl_challenged_keys (rt_challenge_logic rt) \<subseteq> cl_challenged_keys (rt_challenge_logic (fold router_step cmds rt))"
proof (induction cmds arbitrary: rt)
  case (Cons c cmds)
  obtain env x where c: "c = (env, x)" by (cases c)
  from Cons [of "router_step c rt"] route_challenge [of rt env x] show ?case by (auto simp: c)
qed simp

text \<open>
  The user is challenged at most once about the same action on the same task: after a command was
  answered with a challenge, no later command, however many others come between, is answered with a
  challenge for the same task id and action.
\<close>

theorem no_second_challenge:
  assumes "route env x rt = (Inr res, rt1)" and "res_challenge_payload res = Some p"
    and "rt2 = fold router_step cmds rt1"
    and "fst (route env' y rt2) = Inr res'" and "res_challenge_payload res' = Some p'"
  shows "dict_get p' ''task_id'' \<noteq> dict_get p ''task_id'' \<or> res_action res' \<noteq> res_action res"
proof (rule ccontr)
  assume "\<not> ?thesis"
  then have same: "dict_get p' ''task_id'' = dict_get p ''task_id''" "res_action res' = res_action res" by auto
  obtain n where "dict_get p ''task_id'' = PInt n"
    "(n, normalize_action (lower (res_action res))) \<in> cl_challenged_keys (rt_challenge_logic rt1)"
    using route_challenge [of rt env x] assms(1,2) by auto
  moreover from this(2) challenged_keys_mono [of rt1 cmds]
  have "(n, normalize_action (lower (res_action res))) \<in> cl_challenged_keys (rt_challenge_logic rt2)"
    by (auto simp: assms(3))
  moreover obtain m where "dict_get p' ''task_id'' = PInt m"
    "(m, normalize_action (lower (res_action res'))) \<notin> cl_challenged_keys (rt_challenge_logic rt2)"
    using route_challenge [of rt2 env' y] assms(4,5) by blast
  ultimately show False using same by simp
qed

lemma sample_cancel_challenged:
  obtains rt res rt1 p where "route stub_env (sample_cancel (PFloat (Fin 0))) rt = (Inr res, rt1)"
    "res_challenge_payload res = Some p" "dict_get p ''task_id'' = PInt 1" "res_action res = ''CANCEL_TASK''"
proof -
  obtain rt where rt: "router_legacy rt" "ts_open (rt_task_store rt)"
    "abs_tasks (rt_task_store rt) 1 = Some (created_record stub_env 1 ''milk'' PNone None PNone 0)"
    "rt_min_confidence rt = Fin (1 / 2)" "rt_enable_challenge_gate rt"
    "init_challenge (Fin (1/2)) = Inr (rt_challenge_logic rt)"
    by (rule one_task_router)
  have wf: "wf_store (rt_task_store rt)" and reg: "rt_registry rt = default_definition"
    using rt(1) by (auto simp: router_legacy_def legacy_inv_def)
  have r: "resolve_task_reference env (rt_task_store rt) [(''task_id'', PInt 1), (''alignment_score'', PFloat (Fin 0))] =
      Inr (created_record stub_env 1 ''milk'' PNone None PNone 0)" for env
    by (rule resolve_by_id [OF wf rt(2,3)])
  have id: "task_id (created_record stub_env 1 ''milk'' PNone None PNone 0) = 1" by (simp add: created_record_def)
  have ch: "challenges (rt_challenge_logic rt) 1 (lower ''CANCEL_TASK'') (Fin 0) False"
  proof -
    have "rt_challenge_logic rt = \<lparr>cl_challenge_threshold = Fin (1/2), cl_challenged_keys = {}, cl_rejected_keys = {}\<rparr>"
      using rt(6) by (simp add: init_challenge_def outside_unit_def)
    then show ?thesis by (simp add: challenges_def)
  qed
  from evaluate_challenged [OF ch, of "at_site 7 stub_env" "[]"] obtain p cl where
    p: "evaluate_challenge_logic (at_site 7 stub_env) 1 (lower ''CANCEL_TASK'') [] (Fin 0) False (rt_challenge_logic rt) = (Inr (Some p), cl)"
    "dict_get p ''task_id'' = PInt 1" by auto
  have "\<exists>res rt1. route stub_env (sample_cancel (PFloat (Fin 0))) rt = (Inr res, rt1)
      \<and> res_challenge_payload res = Some p \<and> res_action res = ''CANCEL_TASK''"
    using p(1) r id rt(4,5) by (simp add: route_def validate_sample_cancel reg default_definition_def Let_def
        validate_task_reference_entities_def outside_unit_def evaluate_challenge_def dict_get_or_def
        challenge_result_def created_record_def)
  then show thesis using that p(2) by blast
qed

theorem no_second_challenge_witness:
  "\<exists>rt res rt1. route stub_env (sample_cancel (PFloat (Fin 0))) rt = (Inr res, rt1)
     \<and> res_challenge_payload res \<noteq> None
     \<and> (\<forall>res' p'. fst (route stub_env (sample_cancel (PFloat (Fin 0))) rt1) = Inr res'
          \<and> res_challenge_payload res' = Some p' \<longrightarrow>
          dict_get p' ''task_id'' \<noteq> PInt 1 \<or> res_action res' \<noteq> ''CANCEL_TASK'')"
proof -
  obtain rt res rt1 p where r: "route stub_env (sample_cancel (PFloat (Fin 0))) rt = (Inr res, rt1)"
    "res_challenge_payload res = Some p" "dict_get p ''task_id'' = PInt 1" "res_action res = ''CANCEL_TASK''"
    by (rule sample_cancel_challenged)
  have "rt1 = fold router_step [] rt1" by simp
  from no_second_challenge [OF r(1,2) this] r show ?thesis by (metis option.distinct(1))
qed

end
