(* ===== verification/Vector_Memory.thy ===== *)
theory Vector_Memory
  imports Rust_Bridge
begin

text \<open>
  \<open>core/memory/vector_memory.py\<close>, the vector cache behind the storage and memory authorities, and
  \<open>core/memory/archival_policy.py\<close>, the advisory retention hint. The cache is shown to be a map whose
  writes need the approval of both authorities.
\<close>

section \<open>State\<close>

record vector_record =
  vr_vector_id :: string
  vr_embedding :: "pyfloat list"
  vr_metadata :: "(string \<times> string) list"

record vector_memory =
  vm_storage_bridge :: "rust_bridge option"
  vm_enforce_storage_authority :: bool
  vm_storage_energy_mode :: string
  vm_storage_execution_type :: string
  vm_encryption_key_id :: string
  vm_memory_bridge :: "rust_bridge option"
  vm_enforce_memory_authority :: bool
  vm_memory_energy_mode :: string
  vm_records :: "string \<Rightarrow> vector_record option"

definition init_vector_memory ::
  "rust_bridge option \<Rightarrow> bool \<Rightarrow> string \<Rightarrow> string \<Rightarrow> string \<Rightarrow> rust_bridge option \<Rightarrow> bool \<Rightarrow> string \<Rightarrow> vector_memory" where
  "init_vector_memory storage_bridge enforce_storage energy_mode execution_type key_id memory_bridge
      enforce_memory memory_energy_mode =
     \<lparr>vm_storage_bridge = storage_bridge, vm_enforce_storage_authority = enforce_storage,
      vm_storage_energy_mode = energy_mode, vm_storage_execution_type = execution_type,
      vm_encryption_key_id = key_id,
      vm_memory_bridge = (case memory_bridge of None \<Rightarrow> storage_bridge | Some b \<Rightarrow> Some b),
      vm_enforce_memory_authority = enforce_memory, vm_memory_energy_mode = memory_energy_mode,
      vm_records = Map.empty\<rparr>"

section \<open>Gates\<close>

definition vector_storage_request :: "vector_memory \<Rightarrow> string \<Rightarrow> string \<Rightarrow> storage_request" where
  "vector_storage_request vm operation lifecycle_state =
     \<lparr>sr_operation = operation, sr_lifecycle_state = lifecycle_state,
      sr_energy_mode = vm_storage_energy_mode vm, sr_execution_type = vm_storage_execution_type vm,
      sr_encryption_metadata_present = True, sr_encryption_key_id = Some (vm_encryption_key_id vm)\<rparr>"

text \<open>The answer of a bridge: its result when it allowed the call, an exception otherwise.\<close>

definition gate_answer :: "string \<Rightarrow> string \<Rightarrow> 'a gate_result \<Rightarrow> (vector_memory, 'a) prog" where
  "gate_answer authority default_reason g =
     (case g of (True, Some x, _) \<Rightarrow> ret x
      | (_, _, reason) \<Rightarrow> raise_exc (RuntimeError (authority @ '' authority denied: '' @ or_else reason default_reason)))"

definition vector_validate_storage ::
  "py_env \<Rightarrow> string \<Rightarrow> string \<Rightarrow> (vector_memory, 'a) prog \<Rightarrow> (vector_memory, 'a) prog" where
  "vector_validate_storage env operation lifecycle_state execute_callable vm =
     (case vm_storage_bridge vm of
        None \<Rightarrow>
          if vm_enforce_storage_authority vm then (Inl (RuntimeError ''Storage authority unavailable''), vm)
          else execute_callable vm
      | Some br \<Rightarrow>
          and_then (validate_storage_and_maybe_execute br env (vector_storage_request vm operation lifecycle_state)
             (''storage-vector-'' @ env_uuid env 0) execute_callable)
            (gate_answer ''Storage'' ''STORAGE_DENIED'') vm)"

definition vector_storage_permission :: "py_env \<Rightarrow> vector_memory \<Rightarrow> string \<Rightarrow> string \<Rightarrow> exc + bool" where
  "vector_storage_permission env vm operation lifecycle_state =
     (case vm_storage_bridge vm of
        None \<Rightarrow> Inr (\<not> vm_enforce_storage_authority vm)
      | Some br \<Rightarrow>
          result_bind (request_storage_validation br env (vector_storage_request vm operation lifecycle_state)
             (''storage-vector-preflight-'' @ env_uuid env 0)) (\<lambda>response.
          case dict_get_or response ''payload'' (PDict []) of
            PDict payload \<Rightarrow> Inr (truthy (dict_get_or payload ''allowed'' (PBool False)))
          | _ \<Rightarrow> Inl AttributeError))"

definition vector_memory_request :: "vector_memory \<Rightarrow> string \<Rightarrow> string \<Rightarrow> bool \<Rightarrow> memory_request" where
  "vector_memory_request vm current_lifecycle_state operation flag =
     \<lparr>mr_current_lifecycle_state = current_lifecycle_state, mr_operation = operation,
      mr_energy_mode = vm_memory_energy_mode vm, mr_storage_permission_flag = flag,
      mr_metadata_flags = Some [(''critical_reminder'', PBool False),
        (''allow_archived_reactivation'', PBool False), (''retention_due'', PBool False)]\<rparr>"

definition vector_validate_memory ::
  "py_env \<Rightarrow> string \<Rightarrow> string \<Rightarrow> string \<Rightarrow> (vector_memory, 'a) prog \<Rightarrow> (vector_memory, 'a) prog" where
  "vector_validate_memory env operation current_lifecycle_state storage_operation transition_callable vm =
     (case vm_memory_bridge vm of
        None \<Rightarrow>
          if vm_enforce_memory_authority vm then (Inl (RuntimeError ''Memory authority unavailable''), vm)
          else transition_callable vm
      | Some br \<Rightarrow>
          and_then (lift_result (vector_storage_permission (at_site 3 env) vm storage_operation ''CREATED'')) (\<lambda>flag.
          and_then (validate_memory_and_maybe_transition br (at_site 4 env)
              (vector_memory_request vm current_lifecycle_state operation flag)
              (''memory-vector-'' @ env_uuid (at_site 4 env) 0) transition_callable)
            (gate_answer ''Memory'' ''MEMORY_DENIED'')) vm)"

section \<open>Operations\<close>

definition write_vector :: "vector_record \<Rightarrow> (vector_memory, vector_record) prog" where
  "write_vector payload vm = (Inr payload, vm\<lparr>vm_records := (vm_records vm)(vr_vector_id payload \<mapsto> payload)\<rparr>)"

definition drop_vector :: "string \<Rightarrow> (vector_memory, bool) prog" where
  "drop_vector vector_id vm =
     (Inr (vm_records vm vector_id \<noteq> None), vm\<lparr>vm_records := (vm_records vm)(vector_id := None)\<rparr>)"

fun float_all :: "py_env \<Rightarrow> pyval list \<Rightarrow> exc + pyfloat list" where
  "float_all env [] = Inr []"
| "float_all env (v # vs) = result_bind (py_float env v) (\<lambda>x. result_bind (float_all env vs) (\<lambda>xs. Inr (x # xs)))"

definition upsert_vector ::
  "py_env \<Rightarrow> string \<Rightarrow> pyval list \<Rightarrow> (string \<times> string) list \<Rightarrow> (vector_memory, vector_record) prog" where
  "upsert_vector env vector_id embedding metadata =
     and_then (lift_result (float_all env embedding)) (\<lambda>normalized.
     vector_validate_memory env ''VECTOR_TIER_SHIFT'' ''ACTIVE'' ''VECTOR_WRITE''
       (vector_validate_storage (at_site 2 env) ''VECTOR_WRITE'' ''CREATED''
         (write_vector \<lparr>vr_vector_id = vector_id, vr_embedding = normalized, vr_metadata = metadata\<rparr>)))"

definition delete_vector :: "py_env \<Rightarrow> string \<Rightarrow> (vector_memory, bool) prog" where
  "delete_vector env vector_id =
     vector_validate_memory env ''VECTOR_TIER_SHIFT'' ''DORMANT'' ''VECTOR_DELETE''
       (vector_validate_storage (at_site 2 env) ''VECTOR_DELETE'' ''CREATED'' (drop_vector vector_id))"

definition get_vector :: "string \<Rightarrow> vector_memory \<Rightarrow> vector_record option" where
  "get_vector vector_id vm = vm_records vm vector_id"

section \<open>Archival policy\<close>

record archival_recommendation =
  ar_should_archive :: bool
  ar_reason_code :: string
  ar_ttl_days :: "int option"

definition recommend_archival :: "string \<Rightarrow> int \<Rightarrow> bool \<Rightarrow> archival_recommendation" where
  "recommend_archival state age_days completed =
     (if upper (strip state) = ''ARCHIVED''
      then \<lparr>ar_should_archive = True, ar_reason_code = ''ALREADY_ARCHIVED'', ar_ttl_days = Some 30\<rparr>
      else if completed \<and> age_days \<ge> 30
      then \<lparr>ar_should_archive = True, ar_reason_code = ''COMPLETED_RETENTION_ELIGIBLE'', ar_ttl_days = Some 30\<rparr>
      else \<lparr>ar_should_archive = False, ar_reason_code = ''ACTIVE_RETENTION'', ar_ttl_days = None\<rparr>)"

section \<open>The contract of a gate\<close>

text \<open>
  A guard runs its body on the state and returns what it returns, if the permission holds; otherwise
  it raises and leaves the state alone. Guards compose.
\<close>

locale guard =
  fixes wrap :: "('s, 'a) prog \<Rightarrow> ('s, 'a) prog"
    and permitted :: "'s \<Rightarrow> bool"
  assumes runs: "permitted s \<Longrightarrow> wrap p s = p s"
    and refuses: "\<not> permitted s \<Longrightarrow> \<exists>e. wrap p s = (Inl e, s)"
begin

lemma outcome: "wrap p s = (r, s') \<Longrightarrow> permitted s \<and> p s = (r, s') \<or> s' = s \<and> (\<exists>e. r = Inl e)"
  using runs [of s p] refuses [of s p] by (cases "permitted s") auto

end

definition vector_storage_granted :: "py_env \<Rightarrow> string \<Rightarrow> string \<Rightarrow> vector_memory \<Rightarrow> bool" where
  "vector_storage_granted env operation lifecycle_state vm =
     (case vm_storage_bridge vm of
        None \<Rightarrow> \<not> vm_enforce_storage_authority vm
      | Some br \<Rightarrow> (\<exists>r. storage_verdict br env (vector_storage_request vm operation lifecycle_state)
          (''storage-vector-'' @ env_uuid env 0) = Inr (True, r)))"

definition vector_memory_granted :: "py_env \<Rightarrow> string \<Rightarrow> string \<Rightarrow> string \<Rightarrow> vector_memory \<Rightarrow> bool" where
  "vector_memory_granted env operation state storage_operation vm =
     (case vm_memory_bridge vm of
        None \<Rightarrow> \<not> vm_enforce_memory_authority vm
      | Some br \<Rightarrow> (\<exists>flag r. vector_storage_permission (at_site 3 env) vm storage_operation ''CREATED'' = Inr flag \<and>
          memory_verdict br (at_site 4 env) (vector_memory_request vm state operation flag)
            (''memory-vector-'' @ env_uuid (at_site 4 env) 0) = Inr (True, r)))"

lemma gate_answer_run:
  "and_then (and_then p (\<lambda>x. ret (True, Some x, None))) (gate_answer a d) s = p s"
  by (auto simp: and_then_def gate_answer_def split: prod.splits sum.splits)

lemma gate_answer_denied: "\<exists>e. gate_answer a d (False, x, r) s = (Inl e, s)"
  by (simp add: gate_answer_def)

interpretation vector_storage: guard
  "vector_validate_storage env operation state" "vector_storage_granted env operation state" for env operation state
proof
  fix s :: vector_memory and p :: "(vector_memory, 'a) prog"
  show "vector_validate_storage env operation state p s = p s" if "vector_storage_granted env operation state s"
    using that by (auto simp: vector_validate_storage_def vector_storage_granted_def and_then_def [of "validate_storage_and_maybe_execute _ _ _ _ _"]
        storage_gate.gate_grant gate_answer_run [unfolded and_then_def [of "and_then _ _"]] split: option.splits)
  show "\<exists>e. vector_validate_storage env operation state p s = (Inl e, s)" if no: "\<not> vector_storage_granted env operation state s"
  proof (cases "vm_storage_bridge s")
    case None
    with no show ?thesis by (simp add: vector_validate_storage_def vector_storage_granted_def)
  next
    case (Some br)
    let ?v = "storage_verdict br env (vector_storage_request s operation state) (''storage-vector-'' @ env_uuid env 0)"
    show ?thesis
    proof (cases ?v)
      case (Inl e)
      then show ?thesis by (simp add: vector_validate_storage_def Some and_then_def storage_gate.gate_raise)
    next
      case (Inr v)
      with no Some obtain r where "?v = Inr (False, r)"
        by (cases v) (auto simp: vector_storage_granted_def)
      then show ?thesis
        by (simp add: vector_validate_storage_def Some and_then_def storage_gate.gate_deny gate_answer_denied)
    qed
  qed
qed

interpretation vector_memory: guard
  "vector_validate_memory env operation state storage_operation"
  "vector_memory_granted env operation state storage_operation" for env operation state storage_operation
proof
  fix s :: vector_memory and p :: "(vector_memory, 'a) prog"
  let ?perm = "vector_storage_permission (at_site 3 env) s storage_operation ''CREATED''"
  let ?v = "\<lambda>br flag. memory_verdict br (at_site 4 env) (vector_memory_request s state operation flag)
    (''memory-vector-'' @ env_uuid (at_site 4 env) 0)"
  show "vector_validate_memory env operation state storage_operation p s = p s"
    if ok: "vector_memory_granted env operation state storage_operation s"
  proof (cases "vm_memory_bridge s")
    case None
    with ok show ?thesis by (simp add: vector_validate_memory_def vector_memory_granted_def)
  next
    case (Some br)
    with ok obtain flag r where "?perm = Inr flag" "?v br flag = Inr (True, r)"
      by (auto simp: vector_memory_granted_def)
    then show ?thesis
      using gate_answer_run [of p "''Memory''" "''MEMORY_DENIED''" s]
      by (simp add: vector_validate_memory_def Some and_then_def memory_gate.gate_grant)
  qed
  show "\<exists>e. vector_validate_memory env operation state storage_operation p s = (Inl e, s)"
    if no: "\<not> vector_memory_granted env operation state storage_operation s"
  proof (cases "vm_memory_bridge s")
    case None
    with no show ?thesis by (simp add: vector_validate_memory_def vector_memory_granted_def)
  next
    case (Some br)
    show ?thesis
    proof (cases ?perm)
      case (Inl e)
      then show ?thesis by (simp add: vector_validate_memory_def Some and_then_def)
    next
      case perm: (Inr flag)
      show ?thesis
      proof (cases "?v br flag")
        case (Inl e)
        with perm show ?thesis by (simp add: vector_validate_memory_def Some and_then_def memory_gate.gate_raise)
      next
        case (Inr v)
        with no Some perm obtain r where "?v br flag = Inr (False, r)"
          by (cases v) (auto simp: vector_memory_granted_def)
        with perm show ?thesis
          by (simp add: vector_validate_memory_def Some and_then_def memory_gate.gate_deny gate_answer_denied)
      qed
    qed
  qed
qed

section \<open>Properties\<close>

text \<open>
  C20. The vector cache refines a map behind two authorities. An upsert or a deletion either raises and
  leaves the cache as it was, or both the memory and the storage authority granted it, and then the
  cache is the old map with exactly the record stored, or without the id, and the call returns that
  record, or whether the id was there. Refusal never loses or half-writes a record.
\<close>

theorem vector_cache_refines_map:
  "(upsert_vector env i embedding metadata vm = (r, vm') \<longrightarrow>
      (\<exists>e. r = Inl e) \<and> vm' = vm \<or>
      (\<exists>xs. float_all env embedding = Inr xs
         \<and> r = Inr \<lparr>vr_vector_id = i, vr_embedding = xs, vr_metadata = metadata\<rparr>
         \<and> vm' = vm\<lparr>vm_records := (vm_records vm)(i \<mapsto> \<lparr>vr_vector_id = i, vr_embedding = xs, vr_metadata = metadata\<rparr>)\<rparr>
         \<and> vector_memory_granted env ''VECTOR_TIER_SHIFT'' ''ACTIVE'' ''VECTOR_WRITE'' vm
         \<and> vector_storage_granted (at_site 2 env) ''VECTOR_WRITE'' ''CREATED'' vm))
   \<and> (delete_vector env i vm = (b, vm'') \<longrightarrow>
      (\<exists>e. b = Inl e) \<and> vm'' = vm \<or>
      b = Inr (get_vector i vm \<noteq> None) \<and> vm'' = vm\<lparr>vm_records := (vm_records vm)(i := None)\<rparr>
         \<and> vector_memory_granted env ''VECTOR_TIER_SHIFT'' ''DORMANT'' ''VECTOR_DELETE'' vm
         \<and> vector_storage_granted (at_site 2 env) ''VECTOR_DELETE'' ''CREATED'' vm)"
proof (intro conjI impI)
  assume up: "upsert_vector env i embedding metadata vm = (r, vm')"
  show "(\<exists>e. r = Inl e) \<and> vm' = vm \<or>
      (\<exists>xs. float_all env embedding = Inr xs
         \<and> r = Inr \<lparr>vr_vector_id = i, vr_embedding = xs, vr_metadata = metadata\<rparr>
         \<and> vm' = vm\<lparr>vm_records := (vm_records vm)(i \<mapsto> \<lparr>vr_vector_id = i, vr_embedding = xs, vr_metadata = metadata\<rparr>)\<rparr>
         \<and> vector_memory_granted env ''VECTOR_TIER_SHIFT'' ''ACTIVE'' ''VECTOR_WRITE'' vm
         \<and> vector_storage_granted (at_site 2 env) ''VECTOR_WRITE'' ''CREATED'' vm)"
  proof (cases "float_all env embedding")
    case (Inl e)
    with up show ?thesis by (auto simp: upsert_vector_def and_then_def)
  next
    case (Inr xs)
    let ?w = "write_vector \<lparr>vr_vector_id = i, vr_embedding = xs, vr_metadata = metadata\<rparr>"
    from Inr up have "vector_validate_memory env ''VECTOR_TIER_SHIFT'' ''ACTIVE'' ''VECTOR_WRITE''
        (vector_validate_storage (at_site 2 env) ''VECTOR_WRITE'' ''CREATED'' ?w) vm = (r, vm')"
      by (simp add: upsert_vector_def and_then_def)
    from vector_memory.outcome [OF this] Inr show ?thesis
      by (auto dest!: vector_storage.outcome simp: write_vector_def)
  qed
next
  assume "delete_vector env i vm = (b, vm'')"
  then have "vector_validate_memory env ''VECTOR_TIER_SHIFT'' ''DORMANT'' ''VECTOR_DELETE''
      (vector_validate_storage (at_site 2 env) ''VECTOR_DELETE'' ''CREATED'' (drop_vector i)) vm = (b, vm'')"
    by (simp add: delete_vector_def)
  from vector_memory.outcome [OF this]
  show "(\<exists>e. b = Inl e) \<and> vm'' = vm \<or>
      b = Inr (get_vector i vm \<noteq> None) \<and> vm'' = vm\<lparr>vm_records := (vm_records vm)(i := None)\<rparr>
         \<and> vector_memory_granted env ''VECTOR_TIER_SHIFT'' ''DORMANT'' ''VECTOR_DELETE'' vm
         \<and> vector_storage_granted (at_site 2 env) ''VECTOR_DELETE'' ''CREATED'' vm"
    by (auto dest!: vector_storage.outcome simp: drop_vector_def get_vector_def)
qed

definition sample_vectors :: vector_memory where
  "sample_vectors = init_vector_memory None False ''STRATEGIC'' ''BACKGROUND_TASK'' ''vector-default-key'' None False ''STRATEGIC''"

theorem vector_cache_refines_map_witness:
  "get_vector ''v'' (snd (upsert_vector stub_env ''v'' [PFloat (Fin 2)] [] sample_vectors)) =
     Some \<lparr>vr_vector_id = ''v'', vr_embedding = [Fin 2], vr_metadata = []\<rparr>"
proof -
  obtain r vm' where up: "upsert_vector stub_env ''v'' [PFloat (Fin 2)] [] sample_vectors = (r, vm')" by fastforce
  have "\<not> (\<exists>e. r = Inl e)"
    using up by (auto simp: upsert_vector_def and_then_def vector_validate_memory_def vector_validate_storage_def
        sample_vectors_def init_vector_memory_def write_vector_def)
  with up vector_cache_refines_map [of stub_env "''v''" "[PFloat (Fin 2)]" "[]" sample_vectors r vm'] show ?thesis
    by (auto simp: get_vector_def)
qed

end
