(* ===== verification/Connectors.thy ===== *)
theory Connectors
  imports Rust_Bridge
begin

text \<open>
  The two ingress adapters, \<open>core/connectors/mobile_connector.py\<close> and \<open>services/sync_daemon.py\<close>. Both
  validate an external payload, turn it into an \<open>EVENT\<close> envelope and hand it to the bridge. The bridge
  object is known by its two optional methods. What both promise is the locale \<open>ingress\<close>; its lemmas
  follow a forwarded message through the JSON text into the line loop of the receiving bridge.
\<close>

section \<open>Publishing\<close>

text \<open>The object passed as \<open>ipc_bridge\<close>: its methods \<open>publish_event\<close> and \<open>send_message\<close>, where it has them.\<close>

record 'w ipc_bridge =
  ib_publish_event :: "(pydict \<Rightarrow> ('w, unit) prog) option"
  ib_send_message :: "(pydict \<Rightarrow> ('w, unit) prog) option"

definition publish :: "'w ipc_bridge \<Rightarrow> pydict \<Rightarrow> ('w, unit) prog" where
  "publish bridge message =
     (case ib_publish_event bridge of
        Some publish_fn \<Rightarrow> publish_fn message
      | None \<Rightarrow> case ib_send_message bridge of
          Some send_fn \<Rightarrow> send_fn message
        | None \<Rightarrow> raise_exc (RuntimeError ''IPC_BRIDGE_UNAVAILABLE''))"

definition FORBIDDEN_PAYLOAD_KEYS :: "string list" where
  "FORBIDDEN_PAYLOAD_KEYS = [''__class__'', ''__dict__'', ''__globals__'']"

definition unsafe_keys :: "pydict \<Rightarrow> string list" where
  "unsafe_keys body = filter (\<lambda>k. starts_with k ''__'' \<or> k \<in> set FORBIDDEN_PAYLOAD_KEYS) (map fst body)"

text \<open>\<open>x is not None and (not isinstance(x, str) or not x.strip())\<close>.\<close>

fun bad_correlation :: "pyval \<Rightarrow> bool" where
  "bad_correlation PNone = False"
| "bad_correlation (PStr c) = (strip c = [])"
| "bad_correlation _ = True"

fun blank_or_not_str :: "pyval \<Rightarrow> bool" where
  "blank_or_not_str (PStr s) = (strip s = [])"
| "blank_or_not_str _ = True"

text \<open>The given correlation id, or a fresh one with the prefix of the adapter.\<close>

definition correlation_or :: "pyval \<Rightarrow> string \<Rightarrow> string" where
  "correlation_or v fresh = strip (case v of PStr c \<Rightarrow> if strip c = [] then fresh else c | _ \<Rightarrow> fresh)"

section \<open>The mobile connector\<close>

definition ACTION_EVENT_MAP :: "(string \<times> string) list" where
  "ACTION_EVENT_MAP =
     [(''create_task'', ''TaskCreated''), (''complete_task'', ''TaskCompleted''), (''archive_task'', ''TaskArchived''),
      (''cancel_task'', ''TaskArchived''), (''reminder_ack'', ''LifecycleValidated'')]"

record mobile_event =
  me_action :: string
  me_payload :: pydict
  me_correlation_id :: pyval

definition validate_mobile :: "pyval \<Rightarrow> exc + mobile_event" where
  "validate_mobile v =
     (case v of
        PDict payload \<Rightarrow>
          (if \<not> (dict_has payload ''action'' \<and> dict_has payload ''payload'') then Inl (ValueError ''MISSING_REQUIRED_FIELDS'')
           else if blank_or_not_str (dict_get payload ''action'') then Inl (ValueError ''INVALID_ACTION'')
           else let normalized_action = (case dict_get payload ''action'' of PStr a \<Rightarrow> lower (strip a) | _ \<Rightarrow> []) in
             if normalized_action \<notin> fst ` set ACTION_EVENT_MAP then Inl (ValueError ''UNSUPPORTED_ACTION'')
             else case dict_get payload ''payload'' of
               PDict body \<Rightarrow>
                 if unsafe_keys body \<noteq> [] then Inl (ValueError ''UNSAFE_PAYLOAD_KEY'')
                 else if bad_correlation (dict_get payload ''correlation_id'') then Inl (ValueError ''INVALID_CORRELATION_ID'')
                 else Inr \<lparr>me_action = normalized_action, me_payload = body,
                           me_correlation_id = dict_get payload ''correlation_id''\<rparr>
             | _ \<Rightarrow> Inl (ValueError ''INVALID_PAYLOAD_BODY''))
      | _ \<Rightarrow> Inl (ValueError ''INVALID_PAYLOAD_SHAPE''))"

record event_envelope =
  ee_event_type :: string
  ee_payload :: pydict
  ee_source :: string
  ee_timestamp :: int
  ee_correlation_id :: string

definition normalize_event :: "py_env \<Rightarrow> string \<Rightarrow> pyval \<Rightarrow> exc + event_envelope" where
  "normalize_event env source v =
     result_bind (validate_mobile v) (\<lambda>validated.
       case map_of ACTION_EVENT_MAP (lower (strip (me_action validated))) of
         None \<Rightarrow> Inl KeyError
       | Some event_type \<Rightarrow>
           Inr \<lparr>ee_event_type = event_type, ee_payload = me_payload validated, ee_source = source,
                ee_timestamp = env_ms env 0,
                ee_correlation_id = correlation_or (me_correlation_id validated) (''mobile-'' @ env_uuid env 0)\<rparr>)"

definition mobile_message :: "string \<Rightarrow> py_env \<Rightarrow> pyval \<Rightarrow> exc + pydict" where
  "mobile_message source env v =
     result_bind (normalize_event env source v) (\<lambda>ee.
       Inr (envelope MESSAGE_EVENT (ee_timestamp ee) (ee_correlation_id ee)
         [(''event'', PStr (ee_event_type ee)),
          (''data'', PDict [(''source'', PStr (ee_source ee)), (''payload'', PDict (ee_payload ee))])]))"

definition receive_event :: "'w ipc_bridge \<Rightarrow> string \<Rightarrow> py_env \<Rightarrow> pyval \<Rightarrow> ('w, pydict) prog" where
  "receive_event bridge source env v =
     and_then (lift_result (mobile_message source env v)) (\<lambda>message.
       and_then (publish bridge message) (\<lambda>_. ret message))"

section \<open>The sync daemon\<close>

definition SYNC_EVENT_MAP :: "(string \<times> string) list" where
  "SYNC_EVENT_MAP =
     [(''TASK_SNAPSHOT'', ''LifecycleValidated''), (''TASK_UPDATE'', ''TaskCreated''), (''VECTOR_UPDATE'', ''ModelDowngrade''),
      (''ARCHIVAL_HINT'', ''TaskArchived''), (''STATE_RECONCILE'', ''IdentityChanged'')]"

record sync_payload =
  sp_source_id :: string
  sp_sync_type :: string
  sp_payload :: pydict
  sp_merge_hint :: pydict
  sp_timestamp :: pyval
  sp_correlation_id :: pyval

definition validate_sync :: "pyval \<Rightarrow> exc + sync_payload" where
  "validate_sync v =
     (case v of
        PDict payload \<Rightarrow>
          (if \<not> (dict_has payload ''source_id'' \<and> dict_has payload ''sync_type'' \<and> dict_has payload ''payload'')
           then Inl (ValueError ''MISSING_REQUIRED_FIELDS'')
           else if blank_or_not_str (dict_get payload ''source_id'') then Inl (ValueError ''INVALID_SOURCE_ID'')
           else if blank_or_not_str (dict_get payload ''sync_type'') then Inl (ValueError ''INVALID_SYNC_TYPE'')
           else let source_id = (case dict_get payload ''source_id'' of PStr s \<Rightarrow> s | _ \<Rightarrow> []);
                    normalized_sync_type = (case dict_get payload ''sync_type'' of PStr s \<Rightarrow> upper (strip s) | _ \<Rightarrow> []) in
             if normalized_sync_type \<notin> fst ` set SYNC_EVENT_MAP then Inl (ValueError ''UNSUPPORTED_SYNC_TYPE'')
             else case dict_get payload ''payload'' of
               PDict body \<Rightarrow>
                 (if unsafe_keys body \<noteq> [] then Inl (ValueError ''UNSAFE_PAYLOAD_KEY'')
                  else case dict_get_or payload ''merge_hint'' (PDict []) of
                    PDict merge_hint \<Rightarrow>
                      let timestamp = dict_get payload ''timestamp''; correlation_id = dict_get payload ''correlation_id'' in
                      if unsafe_keys merge_hint \<noteq> [] then Inl (ValueError ''UNSAFE_MERGE_HINT_KEY'')
                      else if timestamp \<noteq> PNone \<and> \<not> is_number timestamp then Inl (ValueError ''INVALID_TIMESTAMP'')
                      else if bad_correlation correlation_id then Inl (ValueError ''INVALID_CORRELATION_ID'')
                      else Inr \<lparr>sp_source_id = source_id, sp_sync_type = normalized_sync_type, sp_payload = body,
                                sp_merge_hint = merge_hint, sp_timestamp = timestamp, sp_correlation_id = correlation_id\<rparr>
                  | _ \<Rightarrow> Inl (ValueError ''INVALID_MERGE_HINT''))
             | _ \<Rightarrow> Inl (ValueError ''INVALID_PAYLOAD_BODY''))
      | _ \<Rightarrow> Inl (ValueError ''INVALID_SYNC_PAYLOAD_SHAPE''))"

definition build_merge_hint :: "py_env \<Rightarrow> pydict \<Rightarrow> int \<Rightarrow> exc + pydict" where
  "build_merge_hint env raw_hint external_timestamp =
     result_bind (py_int env (dict_get_or raw_hint ''external_timestamp'' (PInt external_timestamp))) (\<lambda>ts.
       Inr [(''source_priority'', PStr (py_str env (dict_get_or raw_hint ''source_priority'' (PStr ''normal'')))),
            (''version'', PStr (py_str env (dict_get_or raw_hint ''version'' (PStr ''v1'')))),
            (''external_timestamp'', PInt ts)])"

record sync_envelope =
  se_source_id :: string
  se_sync_type :: string
  se_payload :: pydict
  se_timestamp :: int
  se_correlation_id :: string
  se_merge_hint :: pydict

definition normalize_sync :: "py_env \<Rightarrow> pyval \<Rightarrow> exc + sync_envelope" where
  "normalize_sync env v =
     result_bind (validate_sync v) (\<lambda>validated.
     result_bind (if is_number (sp_timestamp validated) then py_int env (sp_timestamp validated) else Inr (env_ms env 0)) (\<lambda>timestamp.
     result_bind (build_merge_hint env (sp_merge_hint validated) timestamp) (\<lambda>merge_hint.
       Inr \<lparr>se_source_id = strip (sp_source_id validated), se_sync_type = upper (strip (sp_sync_type validated)),
            se_payload = sp_payload validated, se_timestamp = timestamp,
            se_correlation_id = correlation_or (sp_correlation_id validated) (''sync-'' @ env_uuid env 0),
            se_merge_hint = merge_hint\<rparr>)))"

definition sync_message :: "string \<Rightarrow> py_env \<Rightarrow> pyval \<Rightarrow> exc + pydict" where
  "sync_message source env v =
     result_bind (normalize_sync env v) (\<lambda>se.
       case map_of SYNC_EVENT_MAP (se_sync_type se) of
         None \<Rightarrow> Inl KeyError
       | Some event \<Rightarrow>
           Inr (envelope MESSAGE_EVENT (se_timestamp se) (se_correlation_id se)
             [(''event'', PStr event),
              (''data'', PDict [(''source'', PStr source),
                 (''sync'', PDict [(''source_id'', PStr (se_source_id se)), (''sync_type'', PStr (se_sync_type se)),
                    (''payload'', PDict (se_payload se)), (''merge_hint'', PDict (se_merge_hint se))])])]))"

definition receive_sync :: "'w ipc_bridge \<Rightarrow> string \<Rightarrow> py_env \<Rightarrow> pyval \<Rightarrow> ('w, pydict) prog" where
  "receive_sync bridge source env v =
     and_then (lift_result (sync_message source env v)) (\<lambda>message.
       and_then (publish bridge message) (\<lambda>_. ret message))"

section \<open>What the adapters promise\<close>

text \<open>
  \<open>build\<close> makes the message of a payload and \<open>receive\<close> is the public method; the event names it may
  announce are \<open>events\<close>.
\<close>

locale ingress =
  fixes build :: "py_env \<Rightarrow> pyval \<Rightarrow> exc + pydict"
    and receive :: "'w ipc_bridge \<Rightarrow> py_env \<Rightarrow> pyval \<Rightarrow> ('w, pydict) prog"
    and events :: "string set"
  assumes build_event: "build env v = Inr m \<Longrightarrow>
      \<exists>ts c e d. m = envelope MESSAGE_EVENT ts c [(''event'', PStr e), (''data'', PDict d)] \<and> strip c = c \<and> c \<noteq> [] \<and> e \<in> events"
    and receive_builds: "receive bridge env v =
      and_then (lift_result (build env v)) (\<lambda>m. and_then (publish bridge m) (\<lambda>_. ret m))"
begin

lemma rejected: "build env v = Inl e \<Longrightarrow> receive bridge env v w = (Inl e, w)"
  by (simp add: receive_builds and_then_def)

lemma returns_published:
  assumes "receive bridge env v w = (Inr m, w')"
  shows "build env v = Inr m \<and> publish bridge m w = (Inr (), w')"
  using assms by (simp add: receive_builds and_then_Inr_iff)

text \<open>A forwarded message, printed and read back, is accepted as it is.\<close>

lemma reparsed:
  assumes "build env v = Inr m" and "loads (strip line) = Inr (PDict m)"
    and "strip line \<noteq> []" and "utf8_length (strip line) \<le> n"
  shows "parse_envelope loads n line = Inr (Some m)"
proof -
  obtain ts c e d where m: "m = envelope MESSAGE_EVENT ts c [(''event'', PStr e), (''data'', PDict d)]"
    and c: "strip c = c" "c \<noteq> []" using build_event [OF assms(1)] by blast
  show ?thesis
    using assms(2-4) c by (simp add: parse_envelope_def m envelope_def message_types_def Let_def)
qed

lemma delivered:
  assumes built: "build env v = Inr m" and line: "loads (strip line) = Inr (PDict m)"
    and fits: "strip line \<noteq> []" "utf8_length (strip line) \<le> rb_max_message_bytes br"
    and fresh: "dict_get m ''correlation_id'' \<notin> PStr ` rb_seen_correlation_ids br"
    and handler: "rb_event_handler br = Some h" "\<And>p. fst (h p w) = Inr ()"
  shows "\<exists>p c e. dict_get m ''payload'' = PDict p \<and> dict_get m ''correlation_id'' = PStr c \<and> e \<in> events
      \<and> dict_get p ''event'' = PStr e
      \<and> process_line loads env' line (br, w) =
          (Inr (Some (build_state_update (env_ms env' 0) c ''RustBridge''
             [(''received_event'', PStr e), (''status'', PStr ''accepted'')])),
           (br\<lparr>rb_seen_correlation_ids := insert c (rb_seen_correlation_ids br)\<rparr>, snd (h p w)))"
proof -
  obtain ts c e d where m: "m = envelope MESSAGE_EVENT ts c [(''event'', PStr e), (''data'', PDict d)]"
    and e: "e \<in> events" using build_event [OF built] by blast
  have "c \<notin> rb_seen_correlation_ids br" using fresh by (auto simp: m envelope_def)
  moreover have "PStr MESSAGE_EVENT \<notin> PStr ` set consumed_types" using event_not_consumed by auto
  moreover obtain w' where "h [(''event'', PStr e), (''data'', PDict d)] w = (Inr (), w')"
    using handler(2) by (metis prod.collapse)
  ultimately show ?thesis
    using e handler(1) reparsed [of env v m loads line "rb_max_message_bytes br", OF built line fits]
    by (simp add: process_line_def m envelope_def dict_get_or_def)
qed

end

lemma correlation_or_strip: "strip (correlation_or v f) = correlation_or v f"
  by (simp add: correlation_or_def)

lemma correlation_or_ne: "strip f \<noteq> [] \<Longrightarrow> correlation_or v f \<noteq> []"
  by (cases v) (auto simp: correlation_or_def)

lemma fresh_prefix: "strip (''mobile-'' @ u) \<noteq> []" "strip (''sync-'' @ u) \<noteq> []"
  by (auto simp: strip_Nil_iff is_space_def)

lemma mobile_message_event:
  assumes "mobile_message source env v = Inr m"
  shows "\<exists>ts c e d. m = envelope MESSAGE_EVENT ts c [(''event'', PStr e), (''data'', PDict d)]
    \<and> strip c = c \<and> c \<noteq> [] \<and> e \<in> snd ` set ACTION_EVENT_MAP"
proof -
  from assms obtain ee where ee: "normalize_event env source v = Inr ee" and m: "m = envelope MESSAGE_EVENT (ee_timestamp ee)
      (ee_correlation_id ee) [(''event'', PStr (ee_event_type ee)),
        (''data'', PDict [(''source'', PStr (ee_source ee)), (''payload'', PDict (ee_payload ee))])]"
    by (auto simp: mobile_message_def result_bind_Inr_iff)
  obtain x where v: "validate_mobile v = Inr x"
    using ee by (cases "validate_mobile v") (simp_all add: normalize_event_def)
  obtain e where x: "map_of ACTION_EVENT_MAP (lower (strip (me_action x))) = Some e"
    using ee v by (cases "map_of ACTION_EVENT_MAP (lower (strip (me_action x)))") (simp_all add: normalize_event_def)
  have "ee_event_type ee = e" "ee_correlation_id ee = correlation_or (me_correlation_id x) (''mobile-'' @ env_uuid env 0)"
    using ee v x by (auto simp: normalize_event_def)
  then have "strip (ee_correlation_id ee) = ee_correlation_id ee" "ee_correlation_id ee \<noteq> []" "ee_event_type ee = e"
    using correlation_or_ne [OF fresh_prefix(1)] by (simp_all add: correlation_or_strip)
  moreover have "e \<in> snd ` set ACTION_EVENT_MAP" using map_of_SomeD [OF x] by force
  ultimately show ?thesis unfolding m by blast
qed

lemma sync_message_event:
  assumes "sync_message source env v = Inr m"
  shows "\<exists>ts c e d. m = envelope MESSAGE_EVENT ts c [(''event'', PStr e), (''data'', PDict d)]
    \<and> strip c = c \<and> c \<noteq> [] \<and> e \<in> snd ` set SYNC_EVENT_MAP"
proof -
  from assms obtain se e where se: "normalize_sync env v = Inr se" and e: "map_of SYNC_EVENT_MAP (se_sync_type se) = Some e"
    and m: "m = envelope MESSAGE_EVENT (se_timestamp se) (se_correlation_id se) [(''event'', PStr e),
      (''data'', PDict [(''source'', PStr source),
         (''sync'', PDict [(''source_id'', PStr (se_source_id se)), (''sync_type'', PStr (se_sync_type se)),
            (''payload'', PDict (se_payload se)), (''merge_hint'', PDict (se_merge_hint se))])])]"
    by (auto simp: sync_message_def result_bind_Inr_iff split: option.splits)
  obtain x where v: "validate_sync v = Inr x"
    using se by (cases "validate_sync v") (simp_all add: normalize_sync_def)
  have "se_correlation_id se = correlation_or (sp_correlation_id x) (''sync-'' @ env_uuid env 0)"
    using se v by (auto simp: normalize_sync_def result_bind_Inr_iff)
  then have "strip (se_correlation_id se) = se_correlation_id se" "se_correlation_id se \<noteq> []"
    using correlation_or_ne [OF fresh_prefix(2)] by (simp_all add: correlation_or_strip)
  moreover have "e \<in> snd ` set SYNC_EVENT_MAP" using map_of_SomeD [OF e] by force
  ultimately show ?thesis unfolding m by blast
qed

interpretation mobile: ingress "mobile_message source" "\<lambda>bridge. receive_event bridge source" "snd ` set ACTION_EVENT_MAP" for source
  by (unfold_locales; (rule mobile_message_event, assumption | simp only: receive_event_def))

interpretation sync: ingress "sync_message source" "\<lambda>bridge. receive_sync bridge source" "snd ` set SYNC_EVENT_MAP" for source
  by (unfold_locales; (rule sync_message_event, assumption | simp only: receive_sync_def))

section \<open>Events that are accepted\<close>

definition acceptable_event :: "pyval \<Rightarrow> bool" where
  "acceptable_event v \<longleftrightarrow> (case v of
     PDict p \<Rightarrow> (case (dict_get p ''action'', dict_get p ''payload'') of
        (PStr a, PDict body) \<Rightarrow> lower (strip a) \<in> fst ` set ACTION_EVENT_MAP
          \<and> (\<forall>(k, _)\<in>set body. \<not> starts_with k ''__'') \<and> \<not> bad_correlation (dict_get p ''correlation_id'')
      | _ \<Rightarrow> False)
   | _ \<Rightarrow> False)"

lemma unsafe_keys_Nil: "unsafe_keys body = [] \<longleftrightarrow> (\<forall>(k, _)\<in>set body. \<not> starts_with k ''__'')"
proof -
  have "\<forall>k\<in>set FORBIDDEN_PAYLOAD_KEYS. starts_with k ''__''"
    by (simp add: FORBIDDEN_PAYLOAD_KEYS_def starts_with_def)
  then show ?thesis by (auto simp: unsafe_keys_def filter_empty_conv)
qed

lemma action_keys_normal: "\<forall>k\<in>fst ` set ACTION_EVENT_MAP. lower (strip k) = k \<and> strip k \<noteq> []"
  by code_simp

lemma mobile_message_acceptable:
  "if acceptable_event v then \<exists>m. mobile_message source env v = Inr m
   else \<exists>code. mobile_message source env v = Inl (ValueError code)"
proof -
  have valid: "if acceptable_event v then \<exists>x. validate_mobile v = Inr x \<and> me_action x \<in> fst ` set ACTION_EVENT_MAP
    else \<exists>code. validate_mobile v = Inl (ValueError code)"
  proof (cases v)
    case (PDict p)
    show ?thesis
    proof (cases "dict_get p ''action''")
      case (PStr a)
      have "strip a \<noteq> []" if "lower (strip a) \<in> fst ` set ACTION_EVENT_MAP"
        using that by (auto simp: lower_def ACTION_EVENT_MAP_def)
      moreover have "dict_has p ''action''" using PStr dict_get_of_has by fastforce
      moreover have "dict_has p ''payload''" if "dict_get p ''payload'' = PDict b" for b
        using that dict_get_of_has by fastforce
      ultimately show ?thesis using PStr PDict
        by (cases "dict_get p ''payload''") (auto simp: acceptable_event_def validate_mobile_def unsafe_keys_Nil Let_def)
    qed (auto simp: PDict acceptable_event_def validate_mobile_def)
  qed (auto simp: acceptable_event_def validate_mobile_def)
  show ?thesis
  proof (cases "acceptable_event v")
    case True
    with valid obtain x where x: "validate_mobile v = Inr x" "me_action x \<in> fst ` set ACTION_EVENT_MAP" by auto
    then obtain e where "map_of ACTION_EVENT_MAP (me_action x) = Some e"
      by (metis domD dom_map_of_conv_image_fst)
    moreover have "lower (strip (me_action x)) = me_action x" using x(2) action_keys_normal by blast
    ultimately show ?thesis using x True by (simp add: mobile_message_def normalize_event_def)
  next
    case False
    with valid show ?thesis by (auto simp: mobile_message_def normalize_event_def)
  qed
qed

text \<open>
  The mobile connector accepts exactly the payloads whose action, stripped and in lower case, is one
  of the five it knows, whose body is a mapping with no key that starts with two underscores, and whose
  correlation id is absent or a string that is not blank. Such a payload is handed to the bridge; every
  other one raises \<open>ValueError\<close> and nothing reaches the bridge.
\<close>

theorem mobile_connector_accepts_exactly:
  "if acceptable_event v
   then \<exists>m. mobile_message source env v = Inr m
          \<and> receive_event bridge source env v w = and_then (publish bridge m) (\<lambda>_. ret m) w
   else \<exists>code. receive_event bridge source env v w = (Inl (ValueError code), w)"
  using mobile_message_acceptable [of v source env]
  by (auto simp: receive_event_def and_then_def split: if_splits)



text \<open>A phone creates a task; the message travels as the text \<open>m\<close>.\<close>

definition phone_payload :: pyval where
  "phone_payload = PDict [(''action'', PStr '' Create_Task''), (''payload'', PDict [(''task'', PStr ''tea'')])]"

definition phone_message :: pydict where
  "phone_message = (case mobile_message ''mobile'' stub_env phone_payload of Inr m \<Rightarrow> m | Inl _ \<Rightarrow> [])"

definition text_bridge :: "string list ipc_bridge" where
  "text_bridge = \<lparr>ib_publish_event = None, ib_send_message = Some (\<lambda>m out. (Inr (), send_message (\<lambda>_. ''m'') m out))\<rparr>"

definition listening_bridge :: "pydict list bridge_session" where
  "listening_bridge = \<lparr>rb_auth_transport = None, rb_transition_transport = None, rb_energy_transport = None,
     rb_storage_transport = None, rb_memory_transport = None, rb_max_message_bytes = MAX_MESSAGE_BYTES,
     rb_event_handler = Some (\<lambda>p w. (Inr (), p # w)), rb_seen_correlation_ids = {}\<rparr>"

lemma phone_message_sent:
  "receive_event text_bridge ''mobile'' stub_env phone_payload [] = (Inr phone_message, [''m'', [CHR 10]])"
proof -
  have "mobile_message ''mobile'' stub_env phone_payload = Inr phone_message
      \<and> send_message (\<lambda>_. ''m'') phone_message [] = [''m'', [CHR 10]]"
    by code_simp
  then show ?thesis by (simp add: receive_event_def and_then_def publish_def text_bridge_def)
qed


end
