(* ===== verification/Thread_Loops.thy ===== *)
theory Thread_Loops
  imports Apcos_Prelude
begin

text \<open>
  The life cycle of a background loop, as \<open>ResourceGovernor\<close>, \<open>WakeWordEngine\<close> and \<open>TranscriptionWorker\<close>
  have it: \<open>start\<close> and \<open>stop\<close> under a lock, a stop event, a thread that tests the event before every round,
  and a \<open>join\<close> with a timeout. The threads ever created are kept in a list and step one at a time; the
  object has one caller, which returns from \<open>stop\<close> before it calls \<open>start\<close> again.
\<close>

section \<open>Loops and their calls\<close>

text \<open>A thread is at the test of the stop event, in a round (its work and its sleep), or gone.\<close>

datatype loop_thread = AtTest | InRound | Gone

record loop_system =
  lp_stop_event :: bool
  lp_handle :: "nat option"
  lp_threads :: "loop_thread list"
  lp_joining :: "nat option"
  lp_abandoned :: "nat list"

definition fresh_loop :: loop_system where
  "fresh_loop = \<lparr>lp_stop_event = False, lp_handle = None, lp_threads = [], lp_joining = None, lp_abandoned = []\<rparr>"

definition alive :: "loop_system \<Rightarrow> nat \<Rightarrow> bool" where
  "alive s i \<longleftrightarrow> i < length (lp_threads s) \<and> lp_threads s ! i \<noteq> Gone"

definition loop_is_running :: "loop_system \<Rightarrow> bool" where
  "loop_is_running s \<longleftrightarrow> (case lp_handle s of None \<Rightarrow> False | Some i \<Rightarrow> alive s i)"

definition start_loop :: "loop_system \<Rightarrow> loop_system" where
  "start_loop s =
     (if loop_is_running s then s
      else s\<lparr>lp_stop_event := False, lp_handle := Some (length (lp_threads s)), lp_threads := lp_threads s @ [AtTest]\<rparr>)"

text \<open>The locked part of \<open>stop\<close>; the caller then waits for the thread that was running.\<close>

definition request_stop :: "loop_system \<Rightarrow> loop_system" where
  "request_stop s = s\<lparr>lp_stop_event := True, lp_joining := lp_handle s, lp_handle := None\<rparr>"

text \<open>The end of the wait: the thread is gone, or the timeout has passed.\<close>

definition end_join :: "nat \<Rightarrow> loop_system \<Rightarrow> loop_system" where
  "end_join i s = s\<lparr>lp_joining := None, lp_abandoned := (if alive s i then i # lp_abandoned s else lp_abandoned s)\<rparr>"

text \<open>
  One move of the thread \<open>i\<close>: the test, or the end of a round. A round that raises ends the thread,
  unless the loop catches everything, as the governor does.
\<close>

definition thread_moves :: "bool \<Rightarrow> bool \<Rightarrow> loop_thread \<Rightarrow> loop_thread list" where
  "thread_moves may_raise stop_event t =
     (case t of
        AtTest \<Rightarrow> [if stop_event then Gone else InRound]
      | InRound \<Rightarrow> (if may_raise then [AtTest, Gone] else [AtTest])
      | Gone \<Rightarrow> [])"

inductive loop_turn :: "bool \<Rightarrow> loop_system \<Rightarrow> loop_system \<Rightarrow> bool" for may_raise where
  "i < length (lp_threads s) \<Longrightarrow> t \<in> set (thread_moves may_raise (lp_stop_event s) (lp_threads s ! i)) \<Longrightarrow>
   loop_turn may_raise s (s\<lparr>lp_threads := (lp_threads s)[i := t]\<rparr>)"

inductive loop_step :: "bool \<Rightarrow> loop_system \<Rightarrow> loop_system \<Rightarrow> bool" for may_raise where
  start: "lp_joining s = None \<Longrightarrow> loop_step may_raise s (start_loop s)"
| stop: "lp_joining s = None \<Longrightarrow> loop_step may_raise s (request_stop s)"
| join: "lp_joining s = Some i \<Longrightarrow> loop_step may_raise s (end_join i s)"
| turn: "loop_turn may_raise s t \<Longrightarrow> loop_step may_raise s t"

inductive_cases loop_turnE: "loop_turn may_raise s t"
inductive_cases loop_stepE: "loop_step may_raise s t"

section \<open>Which threads can be alive\<close>

text \<open>Every live thread is the current one, the one being waited for, or one a wait has given up.\<close>

definition loop_inv :: "loop_system \<Rightarrow> bool" where
  "loop_inv s \<longleftrightarrow>
     (\<forall>i. alive s i \<longrightarrow> lp_handle s = Some i \<or> lp_joining s = Some i \<or> i \<in> set (lp_abandoned s))
     \<and> (lp_joining s \<noteq> None \<longrightarrow> lp_handle s = None)
     \<and> (\<forall>i. lp_handle s = Some i \<longrightarrow> i < length (lp_threads s))
     \<and> (\<forall>i. lp_joining s = Some i \<longrightarrow> i < length (lp_threads s))"

lemma alive_turn:
  assumes "loop_turn may_raise s t"
  shows "alive t i \<Longrightarrow> alive s i" "lp_handle t = lp_handle s" "lp_joining t = lp_joining s"
    "lp_abandoned t = lp_abandoned s" "lp_stop_event t = lp_stop_event s" "length (lp_threads t) = length (lp_threads s)"
  using assms
  by (auto elim!: loop_turnE simp: alive_def nth_list_update thread_moves_def split: if_splits loop_thread.splits)

lemma alive_start: "alive (start_loop s) i \<Longrightarrow> alive s i \<or> lp_handle (start_loop s) = Some i"
  by (auto simp: alive_def start_loop_def nth_append split: if_splits)

lemma loop_inv_step: "loop_step may_raise s t \<Longrightarrow> loop_inv s \<Longrightarrow> loop_inv t"
proof (erule loop_stepE)
  assume inv: "loop_inv s" and t: "t = start_loop s" and idle: "lp_joining s = None"
  show "loop_inv t"
  proof (cases "loop_is_running s")
    case True
    with inv t show ?thesis by (simp add: start_loop_def)
  next
    case False
    then have "\<not> alive s i" if "lp_handle s = Some i" for i using that by (simp add: loop_is_running_def)
    with False show ?thesis using inv idle alive_start [of s]
      unfolding loop_inv_def t by (auto simp: start_loop_def)
  qed
next
  assume "loop_turn may_raise s t" "loop_inv s"
  then show "loop_inv t" unfolding loop_inv_def using alive_turn [of may_raise s t] by auto
qed (auto simp: loop_inv_def request_stop_def end_join_def alive_def)

lemma loop_inv_run: "(loop_step may_raise)\<^sup>*\<^sup>* fresh_loop s \<Longrightarrow> loop_inv s"
proof (induction rule: rtranclp_induct)
  case base
  show ?case by (simp add: loop_inv_def fresh_loop_def alive_def)
qed (rule loop_inv_step)

section \<open>The end of a stopped loop\<close>

definition thread_weight :: "loop_thread \<Rightarrow> nat" where
  "thread_weight t = (case t of InRound \<Rightarrow> 2 | AtTest \<Rightarrow> 1 | Gone \<Rightarrow> 0)"

definition loop_weight :: "loop_system \<Rightarrow> nat" where
  "loop_weight s = sum_list (map thread_weight (lp_threads s))"

lemma stopped_turn_decreases:
  assumes "loop_turn may_raise s t" and "lp_stop_event s"
  shows "loop_weight t < loop_weight s"
  using assms(1)
proof (rule loop_turnE)
  fix i u
  assume t: "t = s\<lparr>lp_threads := (lp_threads s)[i := u]\<rparr>" and i: "i < length (lp_threads s)"
    and u: "u \<in> set (thread_moves may_raise (lp_stop_event s) (lp_threads s ! i))"
  have "thread_weight u < thread_weight (lp_threads s ! i)"
    using u assms(2) by (auto simp: thread_moves_def thread_weight_def split: loop_thread.splits if_splits)
  moreover have "map thread_weight (lp_threads t) = (map thread_weight (lp_threads s))[i := thread_weight u]"
    by (simp add: t map_update)
  moreover have "thread_weight (lp_threads s ! i) \<le> sum_list (map thread_weight (lp_threads s))"
    using elem_le_sum_list [of i "map thread_weight (lp_threads s)"] i by simp
  ultimately show ?thesis using i by (simp add: loop_weight_def sum_list_update)
qed


lemma loop_weight_bound: "loop_weight s \<le> 2 * length (lp_threads s)"
proof -
  have "sum_list (map thread_weight xs) \<le> 2 * length xs" for xs
    by (induction xs) (auto simp: thread_weight_def split: loop_thread.split)
  then show ?thesis by (simp add: loop_weight_def)
qed

lemma stuck_is_gone:
  assumes "\<And>t. \<not> loop_turn may_raise s t" and "i < length (lp_threads s)"
  shows "lp_threads s ! i = Gone"
proof (rule ccontr)
  assume "lp_threads s ! i \<noteq> Gone"
  then obtain t where "t \<in> set (thread_moves may_raise (lp_stop_event s) (lp_threads s ! i))"
    by (cases "lp_threads s ! i"; cases may_raise) (auto simp: thread_moves_def)
  with assms show False by (blast intro: loop_turn.intros)
qed

lemma stopped_turns:
  assumes "(loop_turn may_raise ^^ n) s t" and "lp_stop_event s"
  shows "n + loop_weight t \<le> loop_weight s \<and> lp_stop_event t \<and> length (lp_threads t) = length (lp_threads s)"
  using assms
proof (induction n arbitrary: t)
  case (Suc n)
  then obtain u where run: "(loop_turn may_raise ^^ n) s u" and last: "loop_turn may_raise u t" by auto
  from Suc.IH [OF run Suc.prems(2)] stopped_turn_decreases [OF last] alive_turn [OF last] show ?case by auto
qed simp

section \<open>Properties\<close>



lemma started_once: "loop_step may_raise fresh_loop (start_loop fresh_loop)"
  by (rule start) (simp add: fresh_loop_def)



definition stopping_loop :: loop_system where
  "stopping_loop = request_stop (start_loop fresh_loop)"


end
