(* ===== verification/Proactive.thy ===== *)
theory Proactive
  imports Apcos_Prelude "HOL-Library.Char_ord" "HOL-Library.List_Lexorder" "HOL-Library.Sublist"
begin

text \<open>
  The proactive suggestions: \<open>core/behavior/acceptance_tracker.py\<close>, \<open>calibration_engine.py\<close>,
  \<open>pattern_detector.py\<close>, \<open>suggestion_scorer.py\<close> and \<open>core/cognition/proactive_controller.py\<close>. The
  guardrails (daily budget, window, cooldown) are proved over whole runs of the controller against a
  ghost history of the suggestions it made, the calibrated threshold stays in its bounds, and the
  tracker counts what was recorded.
\<close>

section \<open>Acceptance tracker\<close>

record outcome_stats =
  st_accepted :: int
  st_rejected :: int
  st_ignored :: int
  st_overrides :: int

record acceptance_metrics =
  am_accepted :: int
  am_rejected :: int
  am_ignored :: int
  am_overrides :: int
  am_acceptance_rate :: pyfloat

text \<open>\<open>defaultdict\<close> of daily counters, days as ordinals; a missing day reads as zeros.\<close>

type_synonym acceptance_tracker = "(int \<times> outcome_stats) list"

definition zero_stats :: outcome_stats where
  "zero_stats = \<lparr>st_accepted = 0, st_rejected = 0, st_ignored = 0, st_overrides = 0\<rparr>"

fun update_day :: "int \<Rightarrow> (outcome_stats \<Rightarrow> outcome_stats) \<Rightarrow> acceptance_tracker \<Rightarrow> acceptance_tracker" where
  "update_day day f [] = [(day, f zero_stats)]"
| "update_day day f ((d, st) # t) = (if d = day then (d, f st) # t else (d, st) # update_day day f t)"

definition date_of :: "datetime \<Rightarrow> int" where
  "date_of d = dt_wall d div day_micros"

definition bump_outcome :: "string \<Rightarrow> bool \<Rightarrow> outcome_stats \<Rightarrow> outcome_stats" where
  "bump_outcome outcome overridden st =
     (let st1 = (if outcome = ''accepted'' then st\<lparr>st_accepted := st_accepted st + 1\<rparr>
                 else if outcome = ''rejected'' then st\<lparr>st_rejected := st_rejected st + 1\<rparr>
                 else st\<lparr>st_ignored := st_ignored st + 1\<rparr>)
      in if overridden then st1\<lparr>st_overrides := st_overrides st1 + 1\<rparr> else st1)"

definition record_tracker :: "string \<Rightarrow> datetime \<Rightarrow> bool \<Rightarrow> (acceptance_tracker, unit) prog" where
  "record_tracker outcome current overridden t =
     (if outcome \<notin> {''accepted'', ''rejected'', ''ignored''}
      then (Inl (ValueError ''Unsupported outcome''), t)
      else (Inr (), update_day (date_of current) (bump_outcome outcome overridden) t))"

definition compute_metrics :: "outcome_stats \<Rightarrow> exc + acceptance_metrics" where
  "compute_metrics raw =
     (let attempts = st_accepted raw + st_rejected raw + st_ignored raw in
      result_bind (if attempts = 0 then Inr (Fin 0) else true_div (st_accepted raw) attempts) (\<lambda>rate.
      Inr \<lparr>am_accepted = st_accepted raw, am_rejected = st_rejected raw, am_ignored = st_ignored raw,
           am_overrides = st_overrides raw, am_acceptance_rate = rate\<rparr>))"

definition daily_metrics :: "int \<Rightarrow> acceptance_tracker \<Rightarrow> (exc + acceptance_metrics) \<times> acceptance_tracker" where
  "daily_metrics day t =
     (let t' = update_day day (\<lambda>st. st) t
      in (compute_metrics (case map_of t' day of None \<Rightarrow> zero_stats | Some st \<Rightarrow> st), t'))"

definition add_stats :: "outcome_stats \<Rightarrow> outcome_stats \<Rightarrow> outcome_stats" where
  "add_stats a b = \<lparr>st_accepted = st_accepted a + st_accepted b, st_rejected = st_rejected a + st_rejected b,
     st_ignored = st_ignored a + st_ignored b, st_overrides = st_overrides a + st_overrides b\<rparr>"

definition total_stats :: "acceptance_tracker \<Rightarrow> outcome_stats" where
  "total_stats t = fold (\<lambda>(_, st) total. add_stats total st) t zero_stats"

definition total_metrics :: "acceptance_tracker \<Rightarrow> exc + acceptance_metrics" where
  "total_metrics t = compute_metrics (total_stats t)"

section \<open>Calibration engine\<close>

record calibration_config =
  cc_enabled :: bool
  cc_min_threshold :: pyfloat
  cc_max_threshold :: pyfloat
  cc_step_size :: pyfloat

definition default_calibration :: calibration_config where
  "default_calibration = \<lparr>cc_enabled = True, cc_min_threshold = float_round (5 / 10),
     cc_max_threshold = float_round (9 / 10), cc_step_size = float_round (5 / 100)\<rparr>"

text \<open>
  \<open>_load_config\<close>: \<open>None\<close> when there is no file, no YAML package or the file does not parse.
\<close>

definition load_calibration :: "py_env \<Rightarrow> pyval option \<Rightarrow> exc + calibration_config" where
  "load_calibration env parsed_document =
     (let defaults = default_calibration in
      case parsed_document of
        None \<Rightarrow> Inr defaults
      | Some v \<Rightarrow>
          (case (if truthy v then v else PDict []) of
             PDict parsed \<Rightarrow>
               (case dict_get_or parsed ''calibration'' (PDict []) of
                  PDict cfg \<Rightarrow>
                    (let enabled = truthy (dict_get_or cfg ''enabled'' (PBool (cc_enabled defaults))) in
                     result_bind (py_float env (dict_get_or cfg ''min_threshold'' (PFloat (cc_min_threshold defaults)))) (\<lambda>lo.
                     result_bind (py_float env (dict_get_or cfg ''max_threshold'' (PFloat (cc_max_threshold defaults)))) (\<lambda>hi.
                     result_bind (py_float env (dict_get_or cfg ''step_size'' (PFloat (cc_step_size defaults)))) (\<lambda>step.
                     let swap = float_lt hi lo;
                         bad_step = (float_lt step (Fin 0) \<or> step = Fin 0)
                     in Inr \<lparr>cc_enabled = enabled,
                          cc_min_threshold = (if swap then cc_min_threshold defaults else lo),
                          cc_max_threshold = (if swap then cc_max_threshold defaults else hi),
                          cc_step_size = (if bad_step then cc_step_size defaults else step)\<rparr>))))
                | _ \<Rightarrow> Inr defaults)
           | _ \<Rightarrow> Inl AttributeError))"

definition clamp :: "pyfloat \<Rightarrow> pyfloat \<Rightarrow> pyfloat \<Rightarrow> pyfloat" where
  "clamp v lo hi = float_max lo (float_min hi v)"

text \<open>The metrics are the tracker's, or a mapping with the same keys.\<close>

datatype metrics_arg = Metrics acceptance_metrics | MetricsMap pydict

definition extract_rates :: "py_env \<Rightarrow> metrics_arg \<Rightarrow> exc + pyfloat \<times> pyfloat \<times> pyfloat" where
  "extract_rates env metrics =
     result_bind
       (case metrics of
          Metrics m \<Rightarrow> Inr (am_accepted m, am_rejected m, am_ignored m, am_overrides m, am_acceptance_rate m)
        | MetricsMap d \<Rightarrow>
            result_bind (py_int env (dict_get_or d ''accepted'' (PInt 0))) (\<lambda>a.
            result_bind (py_int env (dict_get_or d ''rejected'' (PInt 0))) (\<lambda>r.
            result_bind (py_int env (dict_get_or d ''ignored'' (PInt 0))) (\<lambda>i.
            result_bind (py_int env (dict_get_or d ''overrides'' (PInt 0))) (\<lambda>ov.
            result_bind (py_float env (dict_get_or d ''acceptance_rate'' (PFloat (Fin 0)))) (\<lambda>q.
              Inr (a, r, i, ov, q)))))))
       (\<lambda>(accepted, rejected, ignored, overrides, acceptance_rate).
          let attempts = max 0 (accepted + rejected + ignored) in
          result_bind (if attempts = 0 then Inr (Fin 0) else true_div rejected attempts) (\<lambda>rejection_rate.
          result_bind (if attempts = 0 then Inr (Fin 0) else true_div overrides attempts) (\<lambda>override_rate.
          Inr (acceptance_rate, rejection_rate, override_rate))))"

definition update_threshold ::
  "py_env \<Rightarrow> calibration_config \<Rightarrow> pyfloat \<Rightarrow> metrics_arg \<Rightarrow> exc + pyfloat" where
  "update_threshold env cfg current_threshold metrics =
     (let clamped_current = clamp current_threshold (cc_min_threshold cfg) (cc_max_threshold cfg) in
      if \<not> cc_enabled cfg then Inr clamped_current
      else result_bind (extract_rates env metrics) (\<lambda>(acceptance_rate, rejection_rate, override_rate).
        let delta = (if float_lt (float_round (60 / 100)) rejection_rate \<or> float_lt (float_round (40 / 100)) override_rate
                     then float_add (Fin 0) (cc_step_size cfg)
                     else if float_lt (float_round (70 / 100)) acceptance_rate
                     then float_sub (Fin 0) (cc_step_size cfg)
                     else Fin 0)
        in Inr (clamp (float_add clamped_current delta) (cc_min_threshold cfg) (cc_max_threshold cfg))))"

section \<open>Pattern detector\<close>

record pattern_result =
  pr_pattern_type :: string
  pr_confidence :: pyfloat
  pr_details :: pydict

record pattern_detector =
  pd_overload_threshold :: int
  pd_goal_deviation_threshold :: pyfloat

text \<open>\<open>base + n * unit\<close> with an integer \<open>n\<close> and a float literal.\<close>

definition scaled :: "rat \<Rightarrow> int \<Rightarrow> rat \<Rightarrow> exc + pyfloat" where
  "scaled base n unit =
     result_bind (float_of_int n) (\<lambda>x. Inr (float_add (float_round base)
       (case (x, float_round unit) of (Fin a, Fin b) \<Rightarrow> fin_mul a b | _ \<Rightarrow> NaN)))"

definition detect :: "py_env \<Rightarrow> pattern_detector \<Rightarrow> pydict \<Rightarrow> exc + pattern_result list" where
  "detect env pd context =
     result_bind (py_int env (dict_get_or context ''overdue_tasks'' (PInt 0))) (\<lambda>overdue_tasks.
     result_bind (if overdue_tasks > 0
       then result_bind (scaled (6/10) overdue_tasks (1/10)) (\<lambda>c.
         Inr [\<lparr>pr_pattern_type = ''missed_task'', pr_confidence = float_min (Fin 1) c,
               pr_details = [(''overdue_tasks'', PInt overdue_tasks)]\<rparr>])
       else Inr []) (\<lambda>missed.
     result_bind (py_int env (dict_get_or context ''scheduled_tasks_today'' (PInt 0))) (\<lambda>scheduled.
     result_bind (py_int env (dict_get_or context ''daily_capacity'' (PInt (pd_overload_threshold pd)))) (\<lambda>capacity.
     let hard_capacity = max (pd_overload_threshold pd) capacity in
     result_bind (if scheduled > hard_capacity
       then result_bind (scaled (65/100) (scheduled - hard_capacity) (5/100)) (\<lambda>c.
         Inr [\<lparr>pr_pattern_type = ''overloaded_day'', pr_confidence = float_min (Fin 1) c,
               pr_details = [(''scheduled_tasks_today'', PInt scheduled), (''daily_capacity'', PInt hard_capacity)]\<rparr>])
       else Inr []) (\<lambda>overloaded.
     result_bind (py_float env (dict_get_or context ''goal_alignment_score'' (PFloat (Fin 1)))) (\<lambda>goal_alignment.
     let drifting =
       (if float_lt goal_alignment (pd_goal_deviation_threshold pd)
        then let deviation = float_sub (pd_goal_deviation_threshold pd) goal_alignment
          in [\<lparr>pr_pattern_type = ''goal_deviation'',
               pr_confidence = float_min (Fin 1) (float_add (float_round (6/10)) deviation),
               pr_details = [(''goal_alignment_score'', PFloat goal_alignment)]\<rparr>]
        else [])
     in Inr (missed @ overloaded @ drifting)))))))"

section \<open>Suggestion scorer\<close>

record scored_suggestion =
  sg_pattern :: pattern_result
  sg_score :: pyfloat
  sg_key :: string

definition pattern_weight :: "string \<Rightarrow> pyfloat" where
  "pattern_weight t = (if t = ''goal_deviation'' then Fin 3 else if t = ''overloaded_day'' then Fin 2
     else if t = ''missed_task'' then Fin 1 else Fin (1/2))"

definition extract_task_id :: "py_env \<Rightarrow> pydict \<Rightarrow> string" where
  "extract_task_id env context =
     (case dict_get context ''task_id'' of PNone \<Rightarrow> ''global'' | v \<Rightarrow> py_str env v)"

text \<open>\<open>f"{x:.2f}"\<close>.\<close>

definition format_2f :: "pyfloat \<Rightarrow> string" where
  "format_2f x = (case x of
      Fin q \<Rightarrow> (let n = round_half_even (\<bar>q\<bar> * 100); c = n mod 100
        in (if q < 0 then ''-'' else []) @ dec_int (n div 100) @ ''.'' @
           (if c < 10 then ''0'' else []) @ dec_int c)
    | PosInf \<Rightarrow> ''inf'' | NegInf \<Rightarrow> ''-inf'' | NaN \<Rightarrow> ''nan'')"

definition build_key :: "py_env \<Rightarrow> string \<Rightarrow> string \<Rightarrow> pydict \<Rightarrow> exc + string" where
  "build_key env pattern_type task_id details =
     result_bind
       (if dict_has details ''overdue_tasks'' then
          result_bind (py_int env (dict_get details ''overdue_tasks'')) (\<lambda>n. Inr (''overdue:'' @ dec_int n))
        else if dict_has details ''scheduled_tasks_today'' \<and> dict_has details ''daily_capacity'' then
          result_bind (py_int env (dict_get details ''scheduled_tasks_today'')) (\<lambda>n.
          result_bind (py_int env (dict_get details ''daily_capacity'')) (\<lambda>m.
            Inr (''load:'' @ dec_int n @ '':'' @ dec_int m)))
        else if dict_has details ''goal_alignment_score'' then
          result_bind (py_float env (dict_get details ''goal_alignment_score'')) (\<lambda>x. Inr (''align:'' @ format_2f x))
        else Inr ''global'')
       (\<lambda>anchor. Inr (pattern_type @ ''|task:'' @ task_id @ ''|'' @ anchor))"

text \<open>The order of the sort key \<open>(-score, pattern_type, key)\<close>, and a stable sort by it.\<close>

definition ranks_before :: "scored_suggestion \<Rightarrow> scored_suggestion \<Rightarrow> bool" where
  "ranks_before a b \<longleftrightarrow> float_lt (float_neg (sg_score a)) (float_neg (sg_score b)) \<or>
     sg_score a = sg_score b \<and>
       (pr_pattern_type (sg_pattern a) < pr_pattern_type (sg_pattern b) \<or>
        pr_pattern_type (sg_pattern a) = pr_pattern_type (sg_pattern b) \<and> sg_key a < sg_key b)"

fun insert_ranked :: "scored_suggestion \<Rightarrow> scored_suggestion list \<Rightarrow> scored_suggestion list" where
  "insert_ranked x [] = [x]"
| "insert_ranked x (y # ys) = (if ranks_before y x then y # insert_ranked x ys else x # y # ys)"

fun score_all :: "py_env \<Rightarrow> string \<Rightarrow> pattern_result list \<Rightarrow> exc + scored_suggestion list" where
  "score_all env task_id [] = Inr []"
| "score_all env task_id (p # ps) =
     (let score = float_add (case pr_confidence p of Fin c \<Rightarrow> fin_mul c 100 | x \<Rightarrow> x)
            (pattern_weight (pr_pattern_type p))
      in result_bind (build_key env (pr_pattern_type p) task_id (pr_details p)) (\<lambda>key.
         result_bind (score_all env task_id ps) (\<lambda>rest.
         Inr (\<lparr>sg_pattern = p, sg_score = score, sg_key = key\<rparr> # rest))))"

definition rank_suggestions :: "py_env \<Rightarrow> pattern_result list \<Rightarrow> pydict \<Rightarrow> exc + scored_suggestion list" where
  "rank_suggestions env patterns context =
     result_bind (score_all env (extract_task_id env context) patterns) (\<lambda>ranked.
       Inr (foldr insert_ranked ranked []))"

section \<open>Proactive controller\<close>

record proactive_controller =
  pc_confidence_threshold :: pyfloat
  pc_daily_limit :: int
  pc_recent_suggestion_window :: int
  pc_max_suggestions_per_window :: int
  pc_repetition_cooldown_steps :: int
  pc_pattern_detector :: pattern_detector
  pc_acceptance_tracker :: acceptance_tracker
  pc_calibration :: calibration_config
  pc_silent_mode :: bool
  pc_daily_suggestion_count :: "int \<Rightarrow> int"
  pc_evaluation_sequence :: int
  pc_recent_suggestion_steps :: "int list"
  pc_last_suggestion_step_by_key :: "string \<Rightarrow> int option"

definition init_proactive ::
  "pyfloat \<Rightarrow> int \<Rightarrow> int \<Rightarrow> int \<Rightarrow> int \<Rightarrow> pattern_detector \<Rightarrow> acceptance_tracker \<Rightarrow> calibration_config
   \<Rightarrow> exc + proactive_controller" where
  "init_proactive confidence_threshold daily_limit window max_per_window cooldown pd tracker cfg =
     (if daily_limit < 1 then Inl (ValueError ''daily_limit must be >= 1'')
      else if outside_unit confidence_threshold
        then Inl (ValueError ''confidence_threshold must be between 0 and 1'')
      else if window < 1 then Inl (ValueError ''recent_suggestion_window must be >= 1'')
      else if max_per_window < 1 then Inl (ValueError ''max_suggestions_per_window must be >= 1'')
      else if cooldown < 1 then Inl (ValueError ''repetition_cooldown_steps must be >= 1'')
      else Inr \<lparr>pc_confidence_threshold = confidence_threshold, pc_daily_limit = daily_limit,
        pc_recent_suggestion_window = window, pc_max_suggestions_per_window = max_per_window,
        pc_repetition_cooldown_steps = cooldown, pc_pattern_detector = pd,
        pc_acceptance_tracker = tracker, pc_calibration = cfg, pc_silent_mode = False,
        pc_daily_suggestion_count = (\<lambda>_. 0), pc_evaluation_sequence = 0,
        pc_recent_suggestion_steps = [], pc_last_suggestion_step_by_key = Map.empty\<rparr>)"

definition set_silent_mode :: "bool \<Rightarrow> proactive_controller \<Rightarrow> proactive_controller" where
  "set_silent_mode enabled pc = pc\<lparr>pc_silent_mode := enabled\<rparr>"

definition remaining_budget :: "proactive_controller \<Rightarrow> int \<Rightarrow> int" where
  "remaining_budget pc day = max 0 (pc_daily_limit pc - pc_daily_suggestion_count pc day)"

definition evict_old_window_entries :: "int \<Rightarrow> proactive_controller \<Rightarrow> proactive_controller" where
  "evict_old_window_entries sequence pc =
     (let min_allowed = sequence - pc_recent_suggestion_window pc + 1
      in pc\<lparr>pc_recent_suggestion_steps := dropWhile (\<lambda>x. x < min_allowed) (pc_recent_suggestion_steps pc)\<rparr>)"

definition window_limit_reached :: "proactive_controller \<Rightarrow> bool" where
  "window_limit_reached pc \<longleftrightarrow>
     pc_max_suggestions_per_window pc \<le> int (length (pc_recent_suggestion_steps pc))"

definition is_repeat_suppressed :: "proactive_controller \<Rightarrow> string \<Rightarrow> int \<Rightarrow> bool" where
  "is_repeat_suppressed pc key sequence =
     (case pc_last_suggestion_step_by_key pc key of
        None \<Rightarrow> False
      | Some previous \<Rightarrow> sequence - previous \<le> pc_repetition_cooldown_steps pc)"

definition suggestion_template :: "string \<Rightarrow> string" where
  "suggestion_template t =
     (if t = ''missed_task'' then ''You missed planned work. Rebalance today's priorities?''
      else if t = ''overloaded_day'' then ''Today's plan is overloaded. Want a lighter schedule?''
      else if t = ''goal_deviation'' then ''Current actions are drifting from your goal. Realign now?''
      else ''A proactive adjustment may help your day.'')"

definition build_suggestion :: "string \<Rightarrow> string \<Rightarrow> pattern_result \<Rightarrow> pydict" where
  "build_suggestion suggestion_id timestamp pattern =
     [(''suggestion_id'', PStr suggestion_id), (''pattern_type'', PStr (pr_pattern_type pattern)),
      (''message'', PStr (suggestion_template (pr_pattern_type pattern))),
      (''confidence'', PFloat (pr_confidence pattern)), (''details'', PDict (pr_details pattern)),
      (''timestamp'', PStr timestamp)]"

text \<open>The loop over the ranked candidates, with its \<open>continue\<close> and \<open>break\<close> branches.\<close>

fun offer_candidates ::
  "py_env \<Rightarrow> datetime \<Rightarrow> int \<Rightarrow> scored_suggestion list \<Rightarrow> proactive_controller \<times> pydict list
   \<Rightarrow> proactive_controller \<times> pydict list" where
  "offer_candidates env current sequence [] (pc, suggestions) = (pc, suggestions)"
| "offer_candidates env current sequence (candidate # rest) (pc, suggestions) =
     (let pattern = sg_pattern candidate; day = date_of current in
      if float_lt (pr_confidence pattern) (pc_confidence_threshold pc)
        then offer_candidates env current sequence rest (pc, suggestions)
      else if remaining_budget pc day = 0 then (pc, suggestions)
      else if window_limit_reached pc then (pc, suggestions)
      else if is_repeat_suppressed pc (sg_key candidate) sequence
        then offer_candidates env current sequence rest (pc, suggestions)
      else
        let suggestion = build_suggestion (env_uuid env (length suggestions)) (env_iso env current) pattern
              @ [(''suggestion_key'', PStr (sg_key candidate))];
            pc' = pc\<lparr>pc_daily_suggestion_count := (pc_daily_suggestion_count pc)
                         (day := pc_daily_suggestion_count pc day + 1),
                     pc_recent_suggestion_steps := pc_recent_suggestion_steps pc @ [sequence],
                     pc_last_suggestion_step_by_key := (pc_last_suggestion_step_by_key pc)
                         (sg_key candidate \<mapsto> sequence)\<rparr>
        in offer_candidates env current sequence rest (pc', suggestions @ [suggestion]))"

definition evaluate_proactive ::
  "py_env \<Rightarrow> pydict \<Rightarrow> datetime \<Rightarrow> bool \<Rightarrow> (proactive_controller, pydict list) prog" where
  "evaluate_proactive env context current restricted_mode pc0 =
     (let sequence = pc_evaluation_sequence pc0 + 1;
          pc = pc0\<lparr>pc_evaluation_sequence := sequence\<rparr>;
          day = date_of current
      in if pc_silent_mode pc \<or> restricted_mode then (Inr [], pc)
      else if remaining_budget pc day = 0 then (Inr [], pc)
      else case result_bind (detect env (pc_pattern_detector pc) context) (\<lambda>patterns.
             rank_suggestions env patterns context) of
        Inl e \<Rightarrow> (Inl e, pc)
      | Inr ranked \<Rightarrow>
          (case offer_candidates env current sequence ranked (evict_old_window_entries sequence pc, []) of
             (pc', suggestions) \<Rightarrow> (Inr suggestions, pc')))"

definition recalibrate_threshold :: "py_env \<Rightarrow> (proactive_controller, pyfloat) prog" where
  "recalibrate_threshold env pc =
     (case result_bind (total_metrics (pc_acceptance_tracker pc)) (\<lambda>metrics.
        update_threshold env (pc_calibration pc) (pc_confidence_threshold pc) (Metrics metrics)) of
        Inl e \<Rightarrow> (Inl e, pc)
      | Inr updated \<Rightarrow> (Inr updated, pc\<lparr>pc_confidence_threshold := updated\<rparr>))"

definition record_outcome :: "py_env \<Rightarrow> string \<Rightarrow> datetime \<Rightarrow> bool \<Rightarrow> (proactive_controller, unit) prog" where
  "record_outcome env outcome current overridden pc =
     (case record_tracker outcome current overridden (pc_acceptance_tracker pc) of
        (Inl e, t) \<Rightarrow> (Inl e, pc\<lparr>pc_acceptance_tracker := t\<rparr>)
      | (Inr _, t) \<Rightarrow>
          (case recalibrate_threshold env (pc\<lparr>pc_acceptance_tracker := t\<rparr>) of
             (Inl e, pc') \<Rightarrow> (Inl e, pc') | (Inr _, pc') \<Rightarrow> (Inr (), pc')))"

section \<open>Counting outcomes\<close>

lemma add_stats_assoc: "add_stats (add_stats a b) c = add_stats a (add_stats b c)"
  by (simp add: add_stats_def)

lemma fold_add_stats: "fold (\<lambda>(_, st) total. add_stats total st) t (add_stats a b) =
    add_stats a (fold (\<lambda>(_, st) total. add_stats total st) t b)"
  by (induction t arbitrary: b) (auto simp: add_stats_assoc)

lemma add_stats_zero [simp]: "add_stats zero_stats a = a" "add_stats a zero_stats = a"
  by (simp_all add: add_stats_def zero_stats_def)

lemma total_stats_Cons: "total_stats ((d, st) # t) = add_stats st (total_stats t)"
  using fold_add_stats [of t st zero_stats] by (simp add: total_stats_def)

definition outcome_unit :: "string \<Rightarrow> bool \<Rightarrow> outcome_stats" where
  "outcome_unit outcome overridden = bump_outcome outcome overridden zero_stats"

lemma bump_outcome_add: "bump_outcome x b st = add_stats st (outcome_unit x b)"
  by (simp add: bump_outcome_def outcome_unit_def add_stats_def zero_stats_def Let_def)

lemma add_stats_commute: "add_stats a b = add_stats b a"
  by (simp add: add_stats_def)

lemma total_stats_record:
  "total_stats (update_day day (bump_outcome x b) t) = add_stats (total_stats t) (outcome_unit x b)"
proof (induction t)
  case Nil
  show ?case by (simp add: total_stats_def bump_outcome_add)
next
  case (Cons a t)
  obtain d st where a: "a = (d, st)" by (cases a)
  show ?case
  proof (cases "d = day")
    case True
    have "total_stats (update_day day (bump_outcome x b) (a # t)) =
        add_stats (add_stats st (outcome_unit x b)) (total_stats t)"
      using True by (simp add: a total_stats_Cons bump_outcome_add)
    also have "\<dots> = add_stats (add_stats st (total_stats t)) (outcome_unit x b)"
      by (simp add: add_stats_def)
    finally show ?thesis by (simp add: a total_stats_Cons)
  next
    case False
    with Cons show ?thesis by (simp add: a total_stats_Cons add_stats_assoc)
  qed
qed

text \<open>The tracker after a sequence of \<open>record\<close> calls, and the counts of the outcomes given.\<close>

definition recorded :: "(string \<times> datetime \<times> bool) list \<Rightarrow> acceptance_tracker" where
  "recorded es = fold (\<lambda>(x, d, b) t. snd (record_tracker x d b t)) es []"

definition outcome_count :: "string \<Rightarrow> (string \<times> datetime \<times> bool) list \<Rightarrow> int" where
  "outcome_count x es = int (length (filter (\<lambda>e. fst e = x) es))"

definition override_count :: "(string \<times> datetime \<times> bool) list \<Rightarrow> int" where
  "override_count es =
     int (length (filter (\<lambda>(x, _, b). b \<and> x \<in> {''accepted'', ''rejected'', ''ignored''}) es))"

lemma total_stats_counts:
  "total_stats (recorded es) =
     \<lparr>st_accepted = outcome_count ''accepted'' es, st_rejected = outcome_count ''rejected'' es,
      st_ignored = outcome_count ''ignored'' es, st_overrides = override_count es\<rparr>"
proof (induction es rule: rev_induct)
  case Nil
  show ?case by (simp add: total_stats_def zero_stats_def recorded_def outcome_count_def override_count_def)
next
  case (snoc e es)
  obtain x d b where "e = (x, d, b)" by (cases e)
  with snoc show ?case
    by (auto simp: recorded_def outcome_count_def override_count_def record_tracker_def total_stats_record add_stats_def outcome_unit_def bump_outcome_def
        zero_stats_def Let_def)
qed

section \<open>Bounds of the threshold\<close>

lemma clamp_in_bounds:
  "\<not> float_lt hi lo \<Longrightarrow> lo \<noteq> NaN \<Longrightarrow> hi \<noteq> NaN \<Longrightarrow> float_ge (clamp v lo hi) lo \<and> float_ge hi (clamp v lo hi)"
  by (cases v; cases lo; cases hi) (auto simp: clamp_def float_min_def float_max_def)

section \<open>The guardrails as an invariant\<close>

text \<open>
  The ghost history: for every suggestion made, the evaluation step, the day and the key, in order.
\<close>

type_synonym suggestion_log = "(int \<times> int \<times> string) list"

definition suggestion_key_of :: "pydict \<Rightarrow> string" where
  "suggestion_key_of d = (case dict_get d ''suggestion_key'' of PStr k \<Rightarrow> k | _ \<Rightarrow> [])"

definition log_entries :: "int \<Rightarrow> int \<Rightarrow> pydict list \<Rightarrow> suggestion_log" where
  "log_entries sequence day suggestions = map (\<lambda>d. (sequence, day, suggestion_key_of d)) suggestions"

text \<open>
  The steps of the history are those evicted from the window, which lie outside it, followed by the
  window. No step has too many steps in the window that ends with it.
\<close>

definition window_ok :: "int \<Rightarrow> int \<Rightarrow> int list \<Rightarrow> bool" where
  "window_ok w m steps \<longleftrightarrow> (\<forall>ys y zs. steps = ys @ y # zs \<longrightarrow>
     int (length (filter (\<lambda>x. y - w < x) (ys @ [y]))) \<le> m)"

definition spaced :: "int \<Rightarrow> suggestion_log \<Rightarrow> bool" where
  "spaced c h \<longleftrightarrow> sorted_wrt (\<lambda>(s, _, k) (s', _, k'). k = k' \<longrightarrow> c < s' - s) h"

definition budget_inv :: "proactive_controller \<Rightarrow> suggestion_log \<Rightarrow> bool" where
  "budget_inv pc h \<longleftrightarrow>
     (\<forall>d. int (length (filter (\<lambda>e. fst (snd e) = d) h)) = pc_daily_suggestion_count pc d
        \<and> pc_daily_suggestion_count pc d \<le> pc_daily_limit pc)"

definition window_inv :: "proactive_controller \<Rightarrow> suggestion_log \<Rightarrow> bool" where
  "window_inv pc h \<longleftrightarrow>
     (\<exists>dropped. map fst h = dropped @ pc_recent_suggestion_steps pc \<and>
        (\<forall>x\<in>set dropped. x \<le> pc_evaluation_sequence pc - pc_recent_suggestion_window pc)) \<and>
     sorted (map fst h) \<and> (\<forall>e\<in>set h. fst e \<le> pc_evaluation_sequence pc) \<and>
     window_ok (pc_recent_suggestion_window pc) (pc_max_suggestions_per_window pc) (map fst h)"

definition key_inv :: "proactive_controller \<Rightarrow> suggestion_log \<Rightarrow> bool" where
  "key_inv pc h \<longleftrightarrow>
     (\<forall>e\<in>set h. \<exists>l. pc_last_suggestion_step_by_key pc (snd (snd e)) = Some l \<and> fst e \<le> l) \<and>
     (\<forall>k l. pc_last_suggestion_step_by_key pc k = Some l \<longrightarrow> l \<le> pc_evaluation_sequence pc) \<and>
     spaced (pc_repetition_cooldown_steps pc) h"

definition guard_inv :: "proactive_controller \<Rightarrow> suggestion_log \<Rightarrow> bool" where
  "guard_inv pc h \<longleftrightarrow> budget_inv pc h \<and> window_inv pc h \<and> key_inv pc h"

lemma window_ok_append:
  assumes "window_ok w m steps" and "int (length (filter (\<lambda>x. y - w < x) steps)) + 1 \<le> m" and "0 < w"
  shows "window_ok w m (steps @ [y])"
  unfolding window_ok_def
proof (intro allI impI)
  fix ys z zs
  assume eq: "steps @ [y] = ys @ z # zs"
  show "int (length (filter (\<lambda>x. z - w < x) (ys @ [z]))) \<le> m"
  proof (cases zs rule: rev_cases)
    case Nil
    then have "ys = steps" "z = y" using eq by auto
    then show ?thesis using assms(2,3) by simp
  next
    case (snoc zs' v)
    with eq have "steps = ys @ z # zs'" by simp
    with assms(1) show ?thesis unfolding window_ok_def by blast
  qed
qed

text \<open>The state after one suggestion.\<close>

definition count_suggestion :: "int \<Rightarrow> string \<Rightarrow> proactive_controller \<Rightarrow> proactive_controller" where
  "count_suggestion day key pc =
     pc\<lparr>pc_daily_suggestion_count := (pc_daily_suggestion_count pc)(day := pc_daily_suggestion_count pc day + 1),
       pc_recent_suggestion_steps := pc_recent_suggestion_steps pc @ [pc_evaluation_sequence pc],
       pc_last_suggestion_step_by_key := (pc_last_suggestion_step_by_key pc)(key \<mapsto> pc_evaluation_sequence pc)\<rparr>"

lemma budget_inv_count:
  assumes "budget_inv pc h" and "remaining_budget pc day \<noteq> 0"
  shows "budget_inv (count_suggestion day key pc) (h @ [(pc_evaluation_sequence pc, day, key)])"
proof -
  have "pc_daily_suggestion_count pc day + 1 \<le> pc_daily_limit pc"
    using assms(2) by (auto simp: remaining_budget_def max_def split: if_splits)
  with assms(1) show ?thesis by (auto simp: budget_inv_def count_suggestion_def)
qed

lemma window_inv_count:
  assumes inv: "window_inv pc h" and w: "0 < pc_recent_suggestion_window pc" and win: "\<not> window_limit_reached pc"
  shows "window_inv (count_suggestion day key pc) (h @ [(pc_evaluation_sequence pc, day, key)])"
proof -
  let ?n = "pc_evaluation_sequence pc"
  obtain dropped where d: "map fst h = dropped @ pc_recent_suggestion_steps pc"
    "\<forall>x\<in>set dropped. x \<le> ?n - pc_recent_suggestion_window pc"
    using inv by (auto simp: window_inv_def)
  have "filter (\<lambda>x. ?n - pc_recent_suggestion_window pc < x) dropped = []"
    using d(2) by (force simp: filter_empty_conv)
  then have "length (filter (\<lambda>x. ?n - pc_recent_suggestion_window pc < x) (map fst h))
      \<le> length (pc_recent_suggestion_steps pc)"
    by (simp add: d(1))
  then have "window_ok (pc_recent_suggestion_window pc) (pc_max_suggestions_per_window pc) (map fst h @ [?n])"
    using inv w win by (intro window_ok_append) (auto simp: window_inv_def window_limit_reached_def)
  moreover have "sorted (map fst h @ [?n])"
    using inv by (auto simp: window_inv_def sorted_append)
  ultimately show ?thesis
    using inv d unfolding window_inv_def count_suggestion_def
    by (intro conjI exI [of _ dropped]) auto
qed

lemma key_inv_count:
  assumes inv: "key_inv pc h" and rep: "\<not> is_repeat_suppressed pc key (pc_evaluation_sequence pc)"
  shows "key_inv (count_suggestion day key pc) (h @ [(pc_evaluation_sequence pc, day, key)])"
proof -
  let ?n = "pc_evaluation_sequence pc"
  have "pc_repetition_cooldown_steps pc < ?n - s" if "(s, d, key) \<in> set h" for s d
    using that inv rep by (force simp: key_inv_def is_repeat_suppressed_def)
  then have "spaced (pc_repetition_cooldown_steps pc) (h @ [(?n, day, key)])"
    using inv by (auto simp: spaced_def key_inv_def sorted_wrt_append)
  moreover have "\<exists>l. ((pc_last_suggestion_step_by_key pc)(key \<mapsto> ?n)) (snd (snd e)) = Some l \<and> fst e \<le> l"
    if "e \<in> set (h @ [(?n, day, key)])" for e
    using that inv by (fastforce simp: key_inv_def)
  ultimately show ?thesis using inv by (simp add: key_inv_def count_suggestion_def)
qed

lemma guard_inv_count:
  assumes "guard_inv pc h" and "0 < pc_recent_suggestion_window pc"
    and "remaining_budget pc day \<noteq> 0" and "\<not> window_limit_reached pc"
    and "\<not> is_repeat_suppressed pc key (pc_evaluation_sequence pc)"
  shows "guard_inv (count_suggestion day key pc) (h @ [(pc_evaluation_sequence pc, day, key)])"
  using assms by (simp add: guard_inv_def budget_inv_count window_inv_count key_inv_count)

text \<open>What the loop leaves alone.\<close>

definition same_limits :: "proactive_controller \<Rightarrow> proactive_controller \<Rightarrow> bool" where
  "same_limits pc pc' \<longleftrightarrow> pc_daily_limit pc' = pc_daily_limit pc
     \<and> pc_recent_suggestion_window pc' = pc_recent_suggestion_window pc
     \<and> pc_max_suggestions_per_window pc' = pc_max_suggestions_per_window pc
     \<and> pc_repetition_cooldown_steps pc' = pc_repetition_cooldown_steps pc
     \<and> pc_calibration pc' = pc_calibration pc"

lemma suggestion_key_of_new [simp]:
  "suggestion_key_of (build_suggestion i ts p @ [(''suggestion_key'', PStr k)]) = k"
  by (simp add: suggestion_key_of_def dict_get_def build_suggestion_def)

lemma offer_candidates_inv:
  assumes "offer_candidates env current n cs (pc, acc) = (pc', acc')"
    and "guard_inv pc (h @ log_entries n (date_of current) acc)"
    and "pc_evaluation_sequence pc = n" and "0 < pc_recent_suggestion_window pc"
  shows "guard_inv pc' (h @ log_entries n (date_of current) acc')
    \<and> same_limits pc pc' \<and> pc_evaluation_sequence pc' = n"
  using assms
proof (induction cs arbitrary: pc acc)
  case Nil
  then show ?case by (simp add: same_limits_def)
next
  case (Cons c cs)
  let ?day = "date_of current"
  let ?pc = "count_suggestion ?day (sg_key c) pc"
  let ?s = "build_suggestion (env_uuid env (length acc)) (env_iso env current) (sg_pattern c)
              @ [(''suggestion_key'', PStr (sg_key c))]"
  consider (skip) "offer_candidates env current n (c # cs) (pc, acc) = offer_candidates env current n cs (pc, acc)"
    | (stop) "offer_candidates env current n (c # cs) (pc, acc) = (pc, acc)"
    | (make) "offer_candidates env current n (c # cs) (pc, acc) = offer_candidates env current n cs (?pc, acc @ [?s])"
        "remaining_budget pc ?day \<noteq> 0" "\<not> window_limit_reached pc" "\<not> is_repeat_suppressed pc (sg_key c) n"
    using Cons.prems(3)
    by (cases "float_lt (pr_confidence (sg_pattern c)) (pc_confidence_threshold pc)";
        cases "remaining_budget pc ?day = 0"; cases "window_limit_reached pc";
        cases "is_repeat_suppressed pc (sg_key c) n") (simp_all add: Let_def count_suggestion_def)
  then show ?case
  proof cases
    case skip
    with Cons.IH [of pc acc] Cons.prems show ?thesis by simp
  next
    case stop
    with Cons.prems show ?thesis by (simp add: same_limits_def)
  next
    case make
    have "guard_inv ?pc ((h @ log_entries n ?day acc) @ [(n, ?day, sg_key c)])"
      using guard_inv_count [OF Cons.prems(2,4), of ?day "sg_key c"] make Cons.prems(3) by simp
    then have "guard_inv ?pc (h @ log_entries n ?day (acc @ [?s]))" by (simp add: log_entries_def)
    from Cons.IH [OF _ this] make(1) Cons.prems show ?thesis by (auto simp: same_limits_def count_suggestion_def)
  qed
qed

lemma guard_inv_sequence:
  assumes "guard_inv pc h"
  shows "guard_inv (pc\<lparr>pc_evaluation_sequence := pc_evaluation_sequence pc + 1\<rparr>) h"
proof -
  have "window_inv (pc\<lparr>pc_evaluation_sequence := pc_evaluation_sequence pc + 1\<rparr>) h"
    using assms by (fastforce simp: guard_inv_def window_inv_def)
  moreover have "key_inv (pc\<lparr>pc_evaluation_sequence := pc_evaluation_sequence pc + 1\<rparr>) h"
    using assms by (fastforce simp: guard_inv_def key_inv_def)
  ultimately show ?thesis using assms by (simp add: guard_inv_def budget_inv_def)
qed

lemma guard_inv_evict:
  assumes "guard_inv pc h"
  shows "guard_inv (evict_old_window_entries (pc_evaluation_sequence pc) pc) h"
proof -
  let ?old = "\<lambda>x. x < pc_evaluation_sequence pc - pc_recent_suggestion_window pc + 1"
  obtain dropped where d: "map fst h = dropped @ pc_recent_suggestion_steps pc"
    "\<forall>x\<in>set dropped. x \<le> pc_evaluation_sequence pc - pc_recent_suggestion_window pc"
    using assms by (auto simp: guard_inv_def window_inv_def)
  have "map fst h = (dropped @ takeWhile ?old (pc_recent_suggestion_steps pc)) @ dropWhile ?old (pc_recent_suggestion_steps pc)"
    by (simp add: d(1))
  moreover have "\<forall>x\<in>set (dropped @ takeWhile ?old (pc_recent_suggestion_steps pc)).
      x \<le> pc_evaluation_sequence pc - pc_recent_suggestion_window pc"
    using d(2) by (auto dest: set_takeWhileD)
  ultimately have "window_inv (evict_old_window_entries (pc_evaluation_sequence pc) pc) h"
    using assms unfolding guard_inv_def window_inv_def evict_old_window_entries_def Let_def
    by (intro conjI exI [of _ "dropped @ takeWhile ?old (pc_recent_suggestion_steps pc)"]) simp_all
  with assms show ?thesis
    by (simp add: guard_inv_def budget_inv_def key_inv_def evict_old_window_entries_def Let_def)
qed

section \<open>Runs of the controller\<close>

datatype proactive_op =
    EvaluateOp py_env pydict datetime bool
  | OutcomeOp py_env string datetime bool
  | RecalibrateOp py_env
  | SilentOp bool

fun proactive_step :: "proactive_op \<Rightarrow> proactive_controller \<times> suggestion_log \<Rightarrow> proactive_controller \<times> suggestion_log" where
  "proactive_step (EvaluateOp env context current restricted) (pc, h) =
     (case evaluate_proactive env context current restricted pc of
        (Inl _, pc') \<Rightarrow> (pc', h)
      | (Inr suggestions, pc') \<Rightarrow>
          (pc', h @ log_entries (pc_evaluation_sequence pc') (date_of current) suggestions))"
| "proactive_step (OutcomeOp env outcome current overridden) (pc, h) =
     (snd (record_outcome env outcome current overridden pc), h)"
| "proactive_step (RecalibrateOp env) (pc, h) = (snd (recalibrate_threshold env pc), h)"
| "proactive_step (SilentOp enabled) (pc, h) = (set_silent_mode enabled pc, h)"

definition proactive_inv :: "proactive_controller \<times> suggestion_log \<Rightarrow> bool" where
  "proactive_inv s \<longleftrightarrow> 0 < pc_recent_suggestion_window (fst s) \<and> guard_inv (fst s) (snd s)"

definition proactive_after ::
  "proactive_controller \<times> suggestion_log \<Rightarrow> proactive_controller \<times> suggestion_log \<Rightarrow> bool" where
  "proactive_after s s' \<longleftrightarrow> same_limits (fst s) (fst s') \<and> prefix (snd s) (snd s')"

lemma evaluate_proactive_inv:
  assumes inv: "guard_inv pc h" and w: "0 < pc_recent_suggestion_window pc"
    and ev: "evaluate_proactive env context current restricted pc = (r, pc')"
  shows "same_limits pc pc' \<and> guard_inv pc' (h @ (case r of Inl _ \<Rightarrow> []
     | Inr suggestions \<Rightarrow> log_entries (pc_evaluation_sequence pc') (date_of current) suggestions))"
proof -
  let ?pc = "pc\<lparr>pc_evaluation_sequence := pc_evaluation_sequence pc + 1\<rparr>"
  let ?ranked = "result_bind (detect env (pc_pattern_detector ?pc) context) (\<lambda>patterns. rank_suggestions env patterns context)"
  have inv1: "guard_inv ?pc h" by (rule guard_inv_sequence [OF inv])
  show ?thesis
  proof (cases "pc_silent_mode ?pc \<or> restricted \<or> remaining_budget ?pc (date_of current) = 0 \<or> (\<exists>e. ?ranked = Inl e)")
    case True
    then have "pc' = ?pc" "r = Inr [] \<or> (\<exists>e. r = Inl e)"
      using ev by (auto simp: evaluate_proactive_def Let_def split: if_splits)
    with inv1 show ?thesis by (auto simp: log_entries_def same_limits_def)
  next
    case False
    then obtain ranked where ranked: "?ranked = Inr ranked" by (cases ?ranked) auto
    let ?ev = "evict_old_window_entries (pc_evaluation_sequence ?pc) ?pc"
    obtain suggestions where
      off: "offer_candidates env current (pc_evaluation_sequence pc + 1) ranked (?ev, []) = (pc', suggestions)"
      and r: "r = Inr suggestions"
      using False ev ranked by (auto simp: evaluate_proactive_def Let_def split: prod.splits)
    have "guard_inv ?ev (h @ log_entries (pc_evaluation_sequence pc + 1) (date_of current) [])"
      using guard_inv_evict [OF inv1] by (simp add: log_entries_def)
    from offer_candidates_inv [OF off this] w r show ?thesis
      by (simp add: evict_old_window_entries_def same_limits_def Let_def)
  qed
qed

lemma recalibrate_frame:
  "\<exists>x. snd (recalibrate_threshold env pc) = pc\<lparr>pc_confidence_threshold := x\<rparr>"
proof (cases "fst (recalibrate_threshold env pc)")
  case (Inl e)
  then have "snd (recalibrate_threshold env pc) = pc\<lparr>pc_confidence_threshold := pc_confidence_threshold pc\<rparr>"
    by (auto simp: recalibrate_threshold_def split: sum.splits)
  then show ?thesis by blast
qed (auto simp: recalibrate_threshold_def split: sum.splits)

lemma record_outcome_frame:
  "\<exists>x t. snd (record_outcome env outcome current overridden pc) =
     pc\<lparr>pc_acceptance_tracker := t, pc_confidence_threshold := x\<rparr>"
proof (cases "record_tracker outcome current overridden (pc_acceptance_tracker pc)")
  case (Pair r t)
  show ?thesis
  proof (cases r)
    case (Inl e)
    then have "snd (record_outcome env outcome current overridden pc) =
        pc\<lparr>pc_acceptance_tracker := t, pc_confidence_threshold := pc_confidence_threshold pc\<rparr>"
      using Pair by (simp add: record_outcome_def)
    then show ?thesis by blast
  next
    case (Inr u)
    then have "snd (record_outcome env outcome current overridden pc) =
        snd (recalibrate_threshold env (pc\<lparr>pc_acceptance_tracker := t\<rparr>))"
      using Pair by (simp add: record_outcome_def split: prod.splits sum.splits)
    then show ?thesis using recalibrate_frame [of env "pc\<lparr>pc_acceptance_tracker := t\<rparr>"] by auto
  qed
qed

lemma guard_inv_threshold:
  "guard_inv (pc\<lparr>pc_confidence_threshold := x\<rparr>) h = guard_inv pc h"
  "guard_inv (pc\<lparr>pc_acceptance_tracker := t\<rparr>) h = guard_inv pc h"
  "guard_inv (pc\<lparr>pc_silent_mode := b\<rparr>) h = guard_inv pc h"
  by (simp_all add: guard_inv_def budget_inv_def window_inv_def key_inv_def)

lemma proactive_step_ok:
  assumes "proactive_inv s"
  shows "proactive_inv (proactive_step x s) \<and> proactive_after s (proactive_step x s)"
proof -
  obtain pc h where s: "s = (pc, h)" by (cases s)
  with assms have w: "0 < pc_recent_suggestion_window pc" and inv: "guard_inv pc h"
    by (auto simp: proactive_inv_def)
  show ?thesis
  proof (cases x)
    case (EvaluateOp env ctx current restricted)
    obtain r pc' where ev: "evaluate_proactive env ctx current restricted pc = (r, pc')" by fastforce
    from evaluate_proactive_inv [OF inv w ev] w show ?thesis
      by (cases r) (auto simp: s EvaluateOp ev proactive_inv_def proactive_after_def same_limits_def)
  next
    case (OutcomeOp env outcome current overridden)
    obtain y t where "snd (record_outcome env outcome current overridden pc) =
        pc\<lparr>pc_acceptance_tracker := t, pc_confidence_threshold := y\<rparr>"
      using record_outcome_frame by blast
    with w inv show ?thesis
      by (simp add: s OutcomeOp proactive_inv_def proactive_after_def same_limits_def guard_inv_threshold)
  next
    case (RecalibrateOp env)
    obtain y where "snd (recalibrate_threshold env pc) = pc\<lparr>pc_confidence_threshold := y\<rparr>"
      using recalibrate_frame by blast
    with w inv show ?thesis
      by (simp add: s RecalibrateOp proactive_inv_def proactive_after_def same_limits_def guard_inv_threshold)
  next
    case (SilentOp b)
    with w inv show ?thesis
      by (simp add: s set_silent_mode_def proactive_inv_def proactive_after_def same_limits_def guard_inv_threshold)
  qed
qed

interpretation proactive_run: machine proactive_step proactive_inv proactive_after
proof
  fix s t u :: "proactive_controller \<times> suggestion_log" and x
  show "proactive_inv s \<Longrightarrow> proactive_inv (proactive_step x s)"
    and "proactive_inv s \<Longrightarrow> proactive_after s (proactive_step x s)"
    using proactive_step_ok by blast+
  show "proactive_after s s" by (simp add: proactive_after_def same_limits_def)
  show "proactive_after s t \<Longrightarrow> proactive_after t u \<Longrightarrow> proactive_after s u"
    by (auto simp: proactive_after_def same_limits_def)
qed

lemma init_proactive_inv: "init_proactive th dl w m c pd t cfg = Inr pc \<Longrightarrow> proactive_inv (pc, [])"
  by (auto simp: init_proactive_def proactive_inv_def guard_inv_def budget_inv_def window_inv_def key_inv_def
      window_ok_def spaced_def split: if_splits)

text \<open>A window that ends anywhere holds no more steps than one that ends at a step.\<close>

lemma window_ok_any:
  assumes ok: "window_ok w m steps" and "sorted steps" and "0 \<le> m"
  shows "int (length (filter (\<lambda>x. n - w < x \<and> x \<le> n) steps)) \<le> m"
proof -
  let ?p = "takeWhile (\<lambda>x. x \<le> n) steps"
  have "filter (\<lambda>x. n - w < x \<and> x \<le> n) steps = filter (\<lambda>x. n - w < x) (filter (\<lambda>x. x \<le> n) steps)"
    by (simp add: conj_commute)
  also have "filter (\<lambda>x. x \<le> n) steps = ?p"
    using assms(2)
  proof (induction steps)
    case (Cons a steps)
    show ?case
    proof (cases "a \<le> n")
      case False
      with Cons.prems have "filter (\<lambda>x. x \<le> n) (a # steps) = []" by (auto simp: filter_empty_conv)
      with False show ?thesis by simp
    qed (use Cons in simp)
  qed simp
  finally have eq: "filter (\<lambda>x. n - w < x \<and> x \<le> n) steps = filter (\<lambda>x. n - w < x) ?p" .
  show ?thesis
  proof (cases ?p rule: rev_cases)
    case Nil
    then show ?thesis using assms(3) by (simp add: eq)
  next
    case (snoc ys y)
    then have "y \<in> set ?p" by simp
    then have "y \<le> n" by (auto dest: set_takeWhileD)
    obtain zs where "steps = ys @ y # zs"
      using snoc takeWhile_dropWhile_id [of "\<lambda>x. x \<le> n" steps] by (metis append.assoc append_Cons append_Nil)
    with ok have "int (length (filter (\<lambda>x. y - w < x) (ys @ [y]))) \<le> m" unfolding window_ok_def by blast
    moreover have "length (filter (\<lambda>x. n - w < x) (ys @ [y])) \<le> length (filter (\<lambda>x. y - w < x) (ys @ [y]))"
    proof -
      have "filter (\<lambda>x. n - w < x) (ys @ [y]) = filter (\<lambda>x. n - w < x) (filter (\<lambda>x. y - w < x) (ys @ [y]))"
        using \<open>y \<le> n\<close> by (auto intro!: filter_cong)
      then show ?thesis by (metis length_filter_le)
    qed
    ultimately show ?thesis by (simp add: eq snoc)
  qed
qed

section \<open>Properties\<close>

text \<open>
  C16. The guardrails hold over every run of the controller, whatever contexts, outcomes,
  recalibrations and silent phases occur: on no day are more suggestions made than the daily limit,
  in no window of consecutive evaluations more than the window limit, and two suggestions with the
  same key are more than the cooldown apart.
\<close>

theorem proactive_guardrails:
  assumes "init_proactive th limit w m cooldown pd t cfg = Inr pc"
    and "(pc', h) = fold proactive_step ops (pc, [])"
  shows "(\<forall>day. int (length (filter (\<lambda>e. fst (snd e) = day) h)) \<le> limit)
    \<and> (\<forall>n. int (length (filter (\<lambda>e. n - w < fst e \<and> fst e \<le> n) h)) \<le> m)
    \<and> sorted_wrt (\<lambda>(s, _, k) (s', _, k'). k = k' \<longrightarrow> cooldown < s' - s) h"
proof -
  have inv0: "proactive_inv (pc, [])" by (rule init_proactive_inv [OF assms(1)])
  have "proactive_inv (pc', h)" and "proactive_after (pc, []) (pc', h)"
    using proactive_run.run_inv [OF inv0, of ops] proactive_run.run_after [OF inv0, of ops]
    by (simp_all flip: assms(2))
  then have g: "guard_inv pc' h" and same: "same_limits pc pc'"
    by (simp_all add: proactive_inv_def proactive_after_def)
  have pc: "pc_daily_limit pc = limit" "pc_recent_suggestion_window pc = w"
    "pc_max_suggestions_per_window pc = m" "pc_repetition_cooldown_steps pc = cooldown" "1 \<le> m"
    using assms(1) by (auto simp: init_proactive_def split: if_splits)
  have "int (length (filter (\<lambda>e. n - w < fst e \<and> fst e \<le> n) h)) \<le> m" for n
  proof -
    have "window_ok w m (map fst h)" "sorted (map fst h)"
      using g same pc by (auto simp: guard_inv_def window_inv_def same_limits_def)
    from window_ok_any [OF this, of n] pc(5) show ?thesis by (simp add: filter_map comp_def)
  qed
  moreover have "int (length (filter (\<lambda>e. fst (snd e) = d) h)) \<le> limit" for d
    using g same pc by (auto simp: guard_inv_def budget_inv_def same_limits_def)
  moreover have "spaced cooldown h" using g same pc by (auto simp: guard_inv_def key_inv_def same_limits_def)
  ultimately show ?thesis by (auto simp: spaced_def)
qed

definition sample_detector :: pattern_detector where
  "sample_detector = \<lparr>pd_overload_threshold = 8, pd_goal_deviation_threshold = Fin (1 / 2)\<rparr>"

definition sample_evaluation :: proactive_op where
  "sample_evaluation = EvaluateOp stub_env [(''goal_alignment_score'', PFloat NegInf)] (DateTime 0 (Some 0)) False"

definition sample_controller :: proactive_controller where
  "sample_controller = projr (init_proactive (Fin 0) 3 10 3 4 sample_detector [] default_calibration)"

lemma sample_controller_init:
  "init_proactive (Fin 0) 3 10 3 4 sample_detector [] default_calibration = Inr sample_controller"
  by (simp add: sample_controller_def init_proactive_def outside_unit_def)

text \<open>The sample run makes one suggestion at the first evaluation and none in the cooldown.\<close>

lemma sample_run:
  "snd (fold proactive_step [sample_evaluation, sample_evaluation] (sample_controller, [])) =
     [(1, 0, ''goal_deviation|task:global|align:-inf'')]"
proof -
  have c: "float_min (Fin 1) (float_add (float_round (6 / 10)) PosInf) = Fin 1"
    by (cases "float_round (6 / 10)") (simp_all add: float_min_def)
  have c': "float_min (Fin 1) (float_add (float_round (3 / 5)) PosInf) = Fin 1"
    by (cases "float_round (3 / 5)") (simp_all add: float_min_def)
  show ?thesis
    by (simp add: sample_evaluation_def sample_controller_def init_proactive_def outside_unit_def c c'
      evaluate_proactive_def sample_detector_def detect_def dict_get_or_def Let_def remaining_budget_def rank_suggestions_def
      float_sub_def extract_task_id_def dict_get_def build_key_def dict_has_def
      format_2f_def evict_old_window_entries_def window_limit_reached_def is_repeat_suppressed_def date_of_def
      log_entries_def suggestion_key_of_def build_suggestion_def)
qed

theorem proactive_guardrails_witness:
  "\<exists>pc h. (pc, h) = fold proactive_step [sample_evaluation, sample_evaluation] (sample_controller, []) \<and>
     h = [(1, 0, ''goal_deviation|task:global|align:-inf'')] \<and>
     (\<forall>day. int (length (filter (\<lambda>e. fst (snd e) = day) h)) \<le> 3) \<and>
     sorted_wrt (\<lambda>(s, _, k) (s', _, k'). k = k' \<longrightarrow> 4 < s' - s) h"
proof -
  obtain pc h where run: "(pc, h) = fold proactive_step [sample_evaluation, sample_evaluation] (sample_controller, [])"
    by (metis prod.collapse)
  have "h = [(1, 0, ''goal_deviation|task:global|align:-inf'')]"
    using sample_run run by (metis snd_conv)
  with run proactive_guardrails [OF sample_controller_init run] show ?thesis by blast
qed

text \<open>
  The tracker's totals are the counts of the outcomes recorded, whatever their order and days;
  an unknown outcome is refused and counts nothing. The acceptance rate is the float nearest to the
  quotient, 0 when nothing was recorded, and computing it never fails.
\<close>

theorem tracker_counts_outcomes:
  "total_metrics (recorded es) =
     Inr \<lparr>am_accepted = outcome_count ''accepted'' es, am_rejected = outcome_count ''rejected'' es,
       am_ignored = outcome_count ''ignored'' es, am_overrides = override_count es,
       am_acceptance_rate = float_round (of_int (outcome_count ''accepted'' es) /
         of_int (outcome_count ''accepted'' es + outcome_count ''rejected'' es + outcome_count ''ignored'' es))\<rparr>"
proof -
  let ?c = "\<lambda>x. outcome_count x es"
  let ?n = "?c ''accepted'' + ?c ''rejected'' + ?c ''ignored''"
  have nn: "0 \<le> ?c x" for x by (simp add: outcome_count_def)
  show ?thesis
  proof (cases "?n = 0")
    case True
    then show ?thesis by (simp add: total_metrics_def compute_metrics_def total_stats_counts Let_def float_round_def)
  next
    case False
    then have "0 < ?n" using nn [of "''accepted''"] nn [of "''rejected''"] nn [of "''ignored''"] by linarith
    then obtain x where "true_div (?c ''accepted'') ?n = Inr (Fin x)"
      "float_round (of_int (?c ''accepted'') / of_int ?n) = Fin x"
      using true_div_rate [of "?c ''accepted''" ?n] nn by auto
    with False show ?thesis by (simp add: total_metrics_def compute_metrics_def total_stats_counts Let_def)
  qed
qed

text \<open>
  However the threshold moves, recalibration leaves it between the configured bounds, for every
  tracker content and every earlier threshold, NaN included. An outcome that is recorded
  recalibrates; nothing else of the controller changes.
\<close>

theorem recalibrated_threshold_in_bounds:
  assumes "\<not> float_lt hi lo" and "lo \<noteq> NaN" and "hi \<noteq> NaN"
    and "cc_min_threshold (pc_calibration pc) = lo" and "cc_max_threshold (pc_calibration pc) = hi"
    and "recalibrate_threshold env pc = (Inr x, pc')"
  shows "pc' = pc\<lparr>pc_confidence_threshold := x\<rparr> \<and> float_ge x lo \<and> float_ge hi x"
  using assms clamp_in_bounds [OF assms(1-3)]
  by (auto simp: recalibrate_threshold_def update_threshold_def result_bind_def Let_def
      split: sum.splits if_splits)

theorem recalibrated_threshold_in_bounds_witness:
  "recalibrate_threshold stub_env (sample_controller\<lparr>pc_calibration := \<lparr>cc_enabled = False,
       cc_min_threshold = Fin (1/2), cc_max_threshold = Fin (3/4), cc_step_size = Fin 1\<rparr>\<rparr>) =
     (Inr (Fin (1/2)), sample_controller\<lparr>pc_calibration := \<lparr>cc_enabled = False,
       cc_min_threshold = Fin (1/2), cc_max_threshold = Fin (3/4), cc_step_size = Fin 1\<rparr>,
       pc_confidence_threshold := Fin (1/2)\<rparr>)
   \<and> float_ge (Fin (1/2)) (Fin (1/2)) \<and> float_ge (Fin (3/4)) (Fin (1/2))"
proof -
  let ?pc = "sample_controller\<lparr>pc_calibration := \<lparr>cc_enabled = False,
       cc_min_threshold = Fin (1/2), cc_max_threshold = Fin (3/4), cc_step_size = Fin 1\<rparr>\<rparr>"
  have run: "recalibrate_threshold stub_env ?pc = (Inr (Fin (1/2)), ?pc\<lparr>pc_confidence_threshold := Fin (1/2)\<rparr>)"
    by (simp add: recalibrate_threshold_def sample_controller_def init_proactive_def outside_unit_def
        total_metrics_def total_stats_def compute_metrics_def zero_stats_def update_threshold_def clamp_def
        float_min_def float_max_def)
  from run recalibrated_threshold_in_bounds [OF _ _ _ _ _ run, of "Fin (3/4)" "Fin (1/2)"] show ?thesis by simp
qed

end
