(* ===== verification/Regular_Expressions.thy ===== *)
theory Regular_Expressions
  imports Apcos_Prelude
begin

text \<open>
  The part of Python's \<open>re\<close> module the parsers use: character classes, groups, alternatives, greedy
  and lazy repetition, the anchors \<open>^\<close> and \<open>$\<close> and the word boundary. A match is a position in the
  text with the groups captured on the way; \<open>all_matches\<close> lists the matches in the order in which the
  backtracking engine of Python tries them, so the first one is the one Python returns. A relation
  describes the matches without the order, and the two are shown to agree.
\<close>

section \<open>Expressions and positions\<close>

datatype regex =
    Eps
  | Cls "char \<Rightarrow> bool"
  | Seq regex regex
  | Alt regex regex
  | Star regex
  | LazyStar regex
  | Grp string regex
  | LineStart
  | LineEnd
  | WordBoundary

text \<open>The text read so far, in reverse, the text to come and the groups captured, newest first.\<close>

record position =
  behind :: string
  ahead :: string
  caps :: "(string \<times> string) list"

definition start_at :: "string \<Rightarrow> string \<Rightarrow> position" where
  "start_at prev rest = \<lparr>behind = prev, ahead = rest, caps = []\<rparr>"

text \<open>\<open>\w\<close> and \<open>\d\<close> on code points below 256.\<close>

definition is_word_char :: "char \<Rightarrow> bool" where
  "is_word_char c \<longleftrightarrow> (let n = (of_char c :: nat)
     in (48 \<le> n \<and> n \<le> 57) \<or> (65 \<le> n \<and> n \<le> 90) \<or> n = 95 \<or> (97 \<le> n \<and> n \<le> 122) \<or> n = 170 \<or> n = 178
       \<or> n = 179 \<or> n = 181 \<or> n = 185 \<or> n = 186 \<or> (188 \<le> n \<and> n \<le> 190) \<or> (192 \<le> n \<and> n \<noteq> 215 \<and> n \<noteq> 247))"

definition is_digit :: "char \<Rightarrow> bool" where
  "is_digit c \<longleftrightarrow> (let n = (of_char c :: nat) in 48 \<le> n \<and> n \<le> 57)"

definition not_newline :: "char \<Rightarrow> bool" where
  "not_newline c \<longleftrightarrow> (of_char c :: nat) \<noteq> 10"

definition at_word_boundary :: "position \<Rightarrow> bool" where
  "at_word_boundary p \<longleftrightarrow>
     (behind p \<noteq> [] \<and> is_word_char (hd (behind p))) \<noteq> (ahead p \<noteq> [] \<and> is_word_char (hd (ahead p)))"

definition at_line_end :: "position \<Rightarrow> bool" where
  "at_line_end p \<longleftrightarrow> (case ahead p of [] \<Rightarrow> True | [c] \<Rightarrow> \<not> not_newline c | _ \<Rightarrow> False)"

fun step_char :: "(char \<Rightarrow> bool) \<Rightarrow> position \<Rightarrow> position list" where
  "step_char f p = (case ahead p of [] \<Rightarrow> []
     | c # cs \<Rightarrow> if f c then [p\<lparr>behind := c # behind p, ahead := cs\<rparr>] else [])"

section \<open>Matching\<close>

text \<open>
  Repetition. Every round of the body has to read at least one character, so the length of the text
  ahead bounds the number of rounds.
\<close>

fun star_matches :: "nat \<Rightarrow> (position \<Rightarrow> position list) \<Rightarrow> position \<Rightarrow> position list" where
  "star_matches 0 f p = [p]"
| "star_matches (Suc n) f p =
     concat (map (\<lambda>q. if length (ahead q) < length (ahead p) then star_matches n f q else []) (f p)) @ [p]"

fun lazy_matches :: "nat \<Rightarrow> (position \<Rightarrow> position list) \<Rightarrow> position \<Rightarrow> position list" where
  "lazy_matches 0 f p = [p]"
| "lazy_matches (Suc n) f p =
     p # concat (map (\<lambda>q. if length (ahead q) < length (ahead p) then lazy_matches n f q else []) (f p))"

definition capture :: "string \<Rightarrow> position \<Rightarrow> position \<Rightarrow> position" where
  "capture name p q = q\<lparr>caps := (name, take (length (ahead p) - length (ahead q)) (ahead p)) # caps q\<rparr>"

primrec all_matches :: "regex \<Rightarrow> position \<Rightarrow> position list" where
  "all_matches Eps = (\<lambda>p. [p])"
| "all_matches (Cls f) = step_char f"
| "all_matches (Seq r t) = (\<lambda>p. concat (map (all_matches t) (all_matches r p)))"
| "all_matches (Alt r t) = (\<lambda>p. all_matches r p @ all_matches t p)"
| "all_matches (Star r) = (\<lambda>p. star_matches (length (ahead p)) (all_matches r) p)"
| "all_matches (LazyStar r) = (\<lambda>p. lazy_matches (length (ahead p)) (all_matches r) p)"
| "all_matches (Grp name r) = (\<lambda>p. map (capture name p) (all_matches r p))"
| "all_matches LineStart = (\<lambda>p. if behind p = [] then [p] else [])"
| "all_matches LineEnd = (\<lambda>p. if at_line_end p then [p] else [])"
| "all_matches WordBoundary = (\<lambda>p. if at_word_boundary p then [p] else [])"

text \<open>\<open>pattern.match(s)\<close> and whether \<open>pattern.search(s)\<close> finds anything.\<close>

definition re_match :: "regex \<Rightarrow> string \<Rightarrow> (string \<times> string) list option" where
  "re_match r s = (case all_matches r (start_at [] s) of [] \<Rightarrow> None | p # _ \<Rightarrow> Some (caps p))"

fun search_from :: "regex \<Rightarrow> string \<Rightarrow> string \<Rightarrow> bool" where
  "search_from r prev [] = (all_matches r (start_at prev []) \<noteq> [])"
| "search_from r prev (c # s) = (all_matches r (start_at prev (c # s)) \<noteq> [] \<or> search_from r (c # prev) s)"

definition re_search :: "regex \<Rightarrow> string \<Rightarrow> bool" where
  "re_search r s = search_from r [] s"

text \<open>Derived expressions; literals ignore case.\<close>

definition lit :: "string \<Rightarrow> regex" where
  "lit w = foldr (\<lambda>c. Seq (Cls (\<lambda>x. lower_char x = lower_char c))) w Eps"

definition Plus :: "regex \<Rightarrow> regex" where
  "Plus r = Seq r (Star r)"

definition Opt :: "regex \<Rightarrow> regex" where
  "Opt r = Alt r Eps"

abbreviation spaces :: regex where
  "spaces \<equiv> Star (Cls is_space)"

abbreviation some_space :: regex where
  "some_space \<equiv> Plus (Cls is_space)"

definition seqs :: "regex list \<Rightarrow> regex" where
  "seqs rs = foldr Seq rs Eps"

definition alts :: "string list \<Rightarrow> regex" where
  "alts ws = foldr (\<lambda>w. Alt (lit w)) ws (Cls (\<lambda>_. False))"

section \<open>Matches as a relation\<close>

inductive matches :: "regex \<Rightarrow> position \<Rightarrow> position \<Rightarrow> bool" where
  eps: "matches Eps p p"
| cls: "ahead p = c # cs \<Longrightarrow> f c \<Longrightarrow> matches (Cls f) p (p\<lparr>behind := c # behind p, ahead := cs\<rparr>)"
| seqI: "matches r p q \<Longrightarrow> matches t q u \<Longrightarrow> matches (Seq r t) p u"
| altL: "matches r p q \<Longrightarrow> matches (Alt r t) p q"
| altR: "matches t p q \<Longrightarrow> matches (Alt r t) p q"
| star_end: "matches (Star r) p p"
| star_round: "matches r p q \<Longrightarrow> length (ahead q) < length (ahead p) \<Longrightarrow> matches (Star r) q u \<Longrightarrow> matches (Star r) p u"
| lazy_end: "matches (LazyStar r) p p"
| lazy_round: "matches r p q \<Longrightarrow> length (ahead q) < length (ahead p) \<Longrightarrow> matches (LazyStar r) q u \<Longrightarrow>
    matches (LazyStar r) p u"
| grp: "matches r p q \<Longrightarrow> matches (Grp name r) p (capture name p q)"
| line_start: "behind p = [] \<Longrightarrow> matches LineStart p p"
| line_end: "at_line_end p \<Longrightarrow> matches LineEnd p p"
| word_boundary: "at_word_boundary p \<Longrightarrow> matches WordBoundary p p"

inductive_simps matches_simps [simp]:
  "matches Eps p q" "matches (Seq r t) p q" "matches (Alt r t) p q" "matches (Cls f) p q" "matches (Grp name r) p q"
  "matches LineStart p q" "matches LineEnd p q" "matches WordBoundary p q"

inductive_cases star_cases: "matches (Star r) p q"
inductive_cases lazy_cases: "matches (LazyStar r) p q"

lemma star_matches_iff:
  assumes "\<And>p q. q \<in> set (f p) \<longleftrightarrow> matches r p q" and "length (ahead p) \<le> n"
  shows "q \<in> set (star_matches n f p) \<longleftrightarrow> matches (Star r) p q"
  using assms(2)
proof (induction n arbitrary: p)
  case 0
  then show ?case by (auto elim: star_cases intro: star_end)
next
  case (Suc n)
  have "q \<in> set (star_matches (Suc n) f p) \<longleftrightarrow>
      q = p \<or> (\<exists>u. matches r p u \<and> length (ahead u) < length (ahead p) \<and> q \<in> set (star_matches n f u))"
    by (auto simp: assms(1))
  also have "\<dots> \<longleftrightarrow> q = p \<or> (\<exists>u. matches r p u \<and> length (ahead u) < length (ahead p) \<and> matches (Star r) u q)"
    using Suc by (metis less_Suc_eq_le order_less_le_trans)
  also have "\<dots> \<longleftrightarrow> matches (Star r) p q"
    by (auto elim: star_cases intro: star_end star_round)
  finally show ?case .
qed

lemma lazy_matches_iff:
  assumes "\<And>p q. q \<in> set (f p) \<longleftrightarrow> matches r p q" and "length (ahead p) \<le> n"
  shows "q \<in> set (lazy_matches n f p) \<longleftrightarrow> matches (LazyStar r) p q"
  using assms(2)
proof (induction n arbitrary: p)
  case 0
  then show ?case by (auto elim: lazy_cases intro: lazy_end)
next
  case (Suc n)
  have "q \<in> set (lazy_matches (Suc n) f p) \<longleftrightarrow>
      q = p \<or> (\<exists>u. matches r p u \<and> length (ahead u) < length (ahead p) \<and> q \<in> set (lazy_matches n f u))"
    by (auto simp: assms(1))
  also have "\<dots> \<longleftrightarrow> q = p \<or> (\<exists>u. matches r p u \<and> length (ahead u) < length (ahead p) \<and> matches (LazyStar r) u q)"
    using Suc by (metis less_Suc_eq_le order_less_le_trans)
  also have "\<dots> \<longleftrightarrow> matches (LazyStar r) p q"
    by (auto elim: lazy_cases intro: lazy_end lazy_round)
  finally show ?case .
qed

text \<open>The matcher finds exactly the matches of the relation.\<close>

lemma all_matches_iff: "q \<in> set (all_matches r p) \<longleftrightarrow> matches r p q"
proof (induction r arbitrary: p q)
  case (Cls f)
  show ?case by (cases "ahead p") auto
next
  case (Star r)
  from star_matches_iff [OF Star, of p "length (ahead p)" q] show ?case by simp
next
  case (LazyStar r)
  from lazy_matches_iff [OF LazyStar, of p "length (ahead p)" q] show ?case by simp
qed auto

lemma all_matches_empty_iff: "all_matches r p = [] \<longleftrightarrow> (\<forall>q. \<not> matches r p q)"
  using all_matches_iff [of _ r p] by (metis list.set_intros(1) neq_Nil_conv empty_iff empty_set)

text \<open>When all matches capture the same groups, these are what Python returns.\<close>

lemma re_match_unique:
  assumes "matches r (start_at [] s) q" and "\<And>q. matches r (start_at [] s) q \<Longrightarrow> caps q = cs"
  shows "re_match r s = Some cs"
proof (cases "all_matches r (start_at [] s)")
  case Nil
  with assms(1) show ?thesis by (simp add: all_matches_empty_iff)
next
  case (Cons p ps)
  then have "matches r (start_at [] s) p" using all_matches_iff [of p r "start_at [] s"] by simp
  with assms(2) Cons show ?thesis by (simp add: re_match_def)
qed

lemma re_match_None: "re_match r s = None \<longleftrightarrow> (\<forall>q. \<not> matches r (start_at [] s) q)"
  by (auto simp: re_match_def all_matches_empty_iff [symmetric] split: list.splits)

lemma search_from_iff:
  "search_from r prev s \<longleftrightarrow> (\<exists>a b q. s = a @ b \<and> matches r (start_at (rev a @ prev) b) q)"
proof (induction s arbitrary: prev)
  case Nil
  show ?case by (auto simp: all_matches_empty_iff)
next
  case (Cons c s)
  have "(\<exists>a b q. c # s = a @ b \<and> matches r (start_at (rev a @ prev) b) q) \<longleftrightarrow>
      (\<exists>q. matches r (start_at prev (c # s)) q) \<or>
      (\<exists>a b q. s = a @ b \<and> matches r (start_at (rev a @ c # prev) b) q)"
    by (auto simp: Cons_eq_append_conv) (metis append_Nil rev.simps(1) | metis append.assoc append_Cons append_Nil rev.simps(2))+
  with Cons show ?case by (auto simp: all_matches_empty_iff)
qed

lemma re_search_iff: "re_search r s \<longleftrightarrow> (\<exists>a b q. s = a @ b \<and> matches r (start_at (rev a) b) q)"
  by (simp add: re_search_def search_from_iff)

section \<open>What the derived expressions match\<close>

text \<open>The position after reading \<open>u\<close> when \<open>v\<close> follows it.\<close>

definition advance :: "string \<Rightarrow> string \<Rightarrow> position \<Rightarrow> position" where
  "advance u v p = p\<lparr>behind := rev u @ behind p, ahead := v\<rparr>"

lemma advance_simps [simp]:
  "ahead (advance u v p) = v" "caps (advance u v p) = caps p" "behind (advance u v p) = rev u @ behind p"
  "advance u' v' (advance u v p) = advance (u @ u') v' p"
  by (simp_all add: advance_def)

lemma advance_Nil: "ahead p = v \<Longrightarrow> advance [] v p = p"
  by (simp add: advance_def)

lemma matches_cls_advance: "matches (Cls f) p q \<longleftrightarrow> (\<exists>c v. ahead p = c # v \<and> f c \<and> q = advance [c] v p)"
  by (auto simp: advance_def)

lemma matches_star_cls:
  "matches (Star (Cls f)) p q \<longleftrightarrow> (\<exists>u v. ahead p = u @ v \<and> (\<forall>c\<in>set u. f c) \<and> q = advance u v p)"
proof
  assume "matches (Star (Cls f)) p q"
  then show "\<exists>u v. ahead p = u @ v \<and> (\<forall>c\<in>set u. f c) \<and> q = advance u v p"
  proof (induction "Star (Cls f)" p q rule: matches.induct)
    case (star_end p)
    show ?case by (intro exI [of _ "[]"] exI [of _ "ahead p"]) (simp add: advance_Nil)
  next
    case (star_round p q w)
    then obtain c v where c: "ahead p = c # v" "f c" "q = advance [c] v p"
      unfolding matches_cls_advance by blast
    with star_round obtain u v' where "v = u @ v'" "\<forall>c\<in>set u. f c" "w = advance u v' q" by auto
    with c show ?case by (intro exI [of _ "c # u"] exI [of _ v']) simp
  qed
next
  assume "\<exists>u v. ahead p = u @ v \<and> (\<forall>c\<in>set u. f c) \<and> q = advance u v p"
  then obtain u v where "ahead p = u @ v" "\<forall>c\<in>set u. f c" "q = advance u v p" by blast
  then show "matches (Star (Cls f)) p q"
  proof (induction u arbitrary: p)
    case Nil
    then show ?case by (simp add: advance_Nil star_end)
  next
    case (Cons c u)
    let ?p = "advance [c] (u @ v) p"
    have "matches (Cls f) p ?p" using Cons.prems unfolding matches_cls_advance by auto
    moreover have "matches (Star (Cls f)) ?p q" using Cons.prems by (intro Cons.IH) simp_all
    moreover have "length (ahead ?p) < length (ahead p)" using Cons.prems(1) by simp
    ultimately show ?case by (blast intro: star_round)
  qed
qed

lemma lazy_star_same: "matches (LazyStar r) p q \<longleftrightarrow> matches (Star r) p q"
proof
  show "matches (LazyStar r) p q \<Longrightarrow> matches (Star r) p q"
    by (induction "LazyStar r" p q rule: matches.induct) (auto intro: star_end star_round)
  show "matches (Star r) p q \<Longrightarrow> matches (LazyStar r) p q"
    by (induction "Star r" p q rule: matches.induct) (auto intro: lazy_end lazy_round)
qed

lemma matches_plus_cls:
  "matches (Seq (Cls f) (Star (Cls f))) p q \<longleftrightarrow>
     (\<exists>u v. ahead p = u @ v \<and> u \<noteq> [] \<and> (\<forall>c\<in>set u. f c) \<and> q = advance u v p)"
proof
  assume "matches (Seq (Cls f) (Star (Cls f))) p q"
  then obtain c v where c: "ahead p = c # v" "f c" "matches (Star (Cls f)) (advance [c] v p) q"
    unfolding matches_simps(2) matches_cls_advance by blast
  then show "\<exists>u v. ahead p = u @ v \<and> u \<noteq> [] \<and> (\<forall>c\<in>set u. f c) \<and> q = advance u v p"
    unfolding matches_star_cls
  proof (elim exE conjE)
    fix u w
    assume "ahead (advance [c] v p) = u @ w" "\<forall>c\<in>set u. f c" "q = advance u w (advance [c] v p)"
    with c(1,2) show ?thesis by (intro exI [of _ "c # u"] exI [of _ w]) simp
  qed
next
  assume "\<exists>u v. ahead p = u @ v \<and> u \<noteq> [] \<and> (\<forall>c\<in>set u. f c) \<and> q = advance u v p"
  then obtain c u v where u: "ahead p = c # u @ v" "f c" "\<forall>c\<in>set u. f c" "q = advance (c # u) v p"
    by (metis append_Cons list.exhaust list.set_intros)
  then have "matches (Cls f) p (advance [c] (u @ v) p)" unfolding matches_cls_advance by blast
  moreover have "matches (Star (Cls f)) (advance [c] (u @ v) p) q" using u unfolding matches_star_cls by auto
  ultimately show "matches (Seq (Cls f) (Star (Cls f))) p q" unfolding matches_simps(2) by blast
qed

lemma matches_some:
  "matches (Plus (Cls f)) p q \<longleftrightarrow>
     (\<exists>u v. ahead p = u @ v \<and> u \<noteq> [] \<and> (\<forall>c\<in>set u. f c) \<and> q = advance u v p)"
  unfolding Plus_def by (rule matches_plus_cls)

lemma matches_lazy_some:
  "matches (Seq (Cls f) (LazyStar (Cls f))) p q \<longleftrightarrow>
     (\<exists>u v. ahead p = u @ v \<and> u \<noteq> [] \<and> (\<forall>c\<in>set u. f c) \<and> q = advance u v p)"
  using matches_plus_cls [of f p q] by (simp add: lazy_star_same)

lemma matches_lit:
  "matches (lit w) p q \<longleftrightarrow> (\<exists>u v. ahead p = u @ v \<and> map lower_char u = map lower_char w \<and> q = advance u v p)"
proof (induction w arbitrary: p)
  case Nil
  show ?case by (auto simp: lit_def advance_Nil)
next
  case (Cons c w)
  have "matches (lit (c # w)) p q \<longleftrightarrow>
      (\<exists>u. matches (Cls (\<lambda>x. lower_char x = lower_char c)) p u \<and> matches (lit w) u q)"
    by (simp add: lit_def)
  also have "\<dots> \<longleftrightarrow> (\<exists>x v. ahead p = x # v \<and> lower_char x = lower_char c \<and> matches (lit w) (advance [x] v p) q)"
    unfolding matches_cls_advance by blast
  also have "\<dots> \<longleftrightarrow> (\<exists>u v. ahead p = u @ v \<and> map lower_char u = map lower_char (c # w) \<and> q = advance u v p)"
    unfolding Cons
  proof (safe, goal_cases)
    case (1 x v u v')
    then show ?case by (intro exI [of _ "x # u"] exI [of _ v']) simp
  next
    case (2 u v)
    then obtain x t where "u = x # t" "lower_char x = lower_char c" "map lower_char t = map lower_char w"
      by (auto simp: map_eq_Cons_conv)
    with 2(1) show ?case by (intro exI [of _ x] exI [of _ "t @ v"]) auto
  qed
  finally show ?case .
qed

lemma capture_advance:
  "ahead p = u @ v \<Longrightarrow> capture name p (advance u v p) = (advance u v p)\<lparr>caps := (name, u) # caps p\<rparr>"
  by (simp add: capture_def)

lemma matches_group_lazy_some:
  "matches (Grp name (Seq (Cls f) (LazyStar (Cls f)))) p q \<longleftrightarrow>
     (\<exists>u v. ahead p = u @ v \<and> u \<noteq> [] \<and> (\<forall>c\<in>set u. f c) \<and> q = (advance u v p)\<lparr>caps := (name, u) # caps p\<rparr>)"
proof
  assume "matches (Grp name (Seq (Cls f) (LazyStar (Cls f)))) p q"
  then show "\<exists>u v. ahead p = u @ v \<and> u \<noteq> [] \<and> (\<forall>c\<in>set u. f c) \<and> q = (advance u v p)\<lparr>caps := (name, u) # caps p\<rparr>"
    unfolding matches_simps(5) matches_lazy_some by (metis capture_advance)
next
  assume "\<exists>u v. ahead p = u @ v \<and> u \<noteq> [] \<and> (\<forall>c\<in>set u. f c) \<and> q = (advance u v p)\<lparr>caps := (name, u) # caps p\<rparr>"
  then obtain u v where uv: "ahead p = u @ v" "u \<noteq> []" "\<forall>c\<in>set u. f c" "q = capture name p (advance u v p)"
    by (metis capture_advance)
  then have "matches (Seq (Cls f) (LazyStar (Cls f))) p (advance u v p)" unfolding matches_lazy_some by blast
  with uv(4) show "matches (Grp name (Seq (Cls f) (LazyStar (Cls f)))) p q" unfolding matches_simps(5) by blast
qed

lemma seqs_Cons:
  "matches (seqs []) p q \<longleftrightarrow> p = q"
  "matches (seqs (r # rs)) p q \<longleftrightarrow> (\<exists>u. matches r p u \<and> matches (seqs rs) u q)"
  by (auto simp: seqs_def)

text \<open>What a part of a sequence reads and captures.\<close>

lemma star_reads:
  "matches (Star (Cls f)) p q \<Longrightarrow> \<exists>u. ahead p = u @ ahead q \<and> (\<forall>c\<in>set u. f c) \<and> caps q = caps p"
  by (auto simp: matches_star_cls)

lemma some_reads:
  "matches (Plus (Cls f)) p q \<Longrightarrow> \<exists>u. ahead p = u @ ahead q \<and> u \<noteq> [] \<and> (\<forall>c\<in>set u. f c) \<and> caps q = caps p"
  by (auto simp: matches_some)

lemma lit_reads:
  "matches (lit w) p q \<Longrightarrow> \<exists>u. ahead p = u @ ahead q \<and> map lower_char u = map lower_char w \<and> caps q = caps p"
  by (auto simp: matches_lit)

lemma group_reads:
  "matches (Grp name (Seq (Cls f) (LazyStar (Cls f)))) p q \<Longrightarrow>
   \<exists>u. ahead p = u @ ahead q \<and> u \<noteq> [] \<and> (\<forall>c\<in>set u. f c) \<and> caps q = (name, u) # caps p"
  unfolding matches_group_lazy_some by auto

text \<open>\<open>\b\<close> word \<open>\b\<close>: the word occurs with no word character on either side.\<close>

definition whole_word :: "string \<Rightarrow> regex" where
  "whole_word w = Seq WordBoundary (Seq (lit w) WordBoundary)"

lemma re_search_whole_word:
  assumes "s = a @ u @ b" and "lower u = lower w" and "u \<noteq> []" and "\<forall>c\<in>set u. is_word_char c"
    and "a = [] \<or> \<not> is_word_char (last a)" and "b = [] \<or> \<not> is_word_char (hd b)"
  shows "re_search (whole_word w) s"
proof -
  let ?p = "start_at (rev a) (u @ b)"
  have "at_word_boundary ?p" using assms(3-5)
    by (auto simp: at_word_boundary_def start_at_def hd_append hd_rev)
  moreover have "matches (lit w) ?p (advance u b ?p)"
    unfolding matches_lit using assms(2) by (auto simp: start_at_def lower_def)
  moreover have "at_word_boundary (advance u b ?p)"
    using assms(3,4,6) by (auto simp: at_word_boundary_def hd_append hd_rev)
  ultimately have "matches (whole_word w) ?p (advance u b ?p)"
    by (auto simp: whole_word_def)
  then show ?thesis unfolding re_search_iff assms(1) by blast
qed

end
