(* ===== verification/Intent_Parser.thy ===== *)
theory Intent_Parser
  imports Regular_Expressions
begin

text \<open>
  \<open>core/cognition/intent_parser.py\<close>: from a line of text to an intent. The three patterns are
  expressions of the regular expression library; the clock readings become a due date.
\<close>

section \<open>Patterns\<close>

abbreviation digit :: regex where
  "digit \<equiv> Cls is_digit"

abbreviation lazy_text :: regex where
  "lazy_text \<equiv> Seq (Cls not_newline) (LazyStar (Cls not_newline))"

abbreviation some_text :: regex where
  "some_text \<equiv> Plus (Cls not_newline)"

definition clock_regex :: regex where
  "clock_regex = seqs [digit, Opt digit, Opt (seqs [lit '':'', digit, digit]), spaces, Opt (Alt (lit ''am'') (lit ''pm''))]"

definition SCHEDULE_PATTERN :: regex where
  "SCHEDULE_PATTERN = seqs [LineStart, spaces, lit ''schedule'', some_space, Grp ''task'' lazy_text, some_space,
     lit ''tomorrow'', Opt (seqs [some_space, lit ''at'', some_space, Grp ''clock'' clock_regex]), spaces, LineEnd]"

definition MARK_COMPLETED_PATTERN :: regex where
  "MARK_COMPLETED_PATTERN = seqs [LineStart, spaces, lit ''mark'', some_space, Grp ''task'' lazy_text, some_space,
     lit ''completed'', spaces, LineEnd]"

definition CANCEL_PATTERN :: regex where
  "CANCEL_PATTERN = seqs [LineStart, spaces, lit ''cancel'', Opt (Seq some_space (lit ''task'')),
     Opt (Seq some_space (Grp ''task'' some_text)), spaces, LineEnd]"

definition CLOCK_PATTERN :: regex where
  "CLOCK_PATTERN = seqs [LineStart, Grp ''hour'' (Seq digit (Opt digit)),
     Opt (Seq (lit '':'') (Grp ''minute'' (Seq digit digit))),
     Opt (Seq spaces (Grp ''ampm'' (Alt (lit ''am'') (lit ''pm'')))), LineEnd]"

section \<open>Clock times\<close>

text \<open>\<open>int\<close> of a string of decimal digits.\<close>

definition digits_value :: "string \<Rightarrow> int" where
  "digits_value s = fold (\<lambda>c n. 10 * n + (int (of_char c) - 48)) s 0"

text \<open>A \<open>time\<close> as its hour and minute.\<close>

definition parse_clock :: "string \<Rightarrow> exc + int \<times> int" where
  "parse_clock clock_text =
     (case re_match CLOCK_PATTERN clock_text of
        None \<Rightarrow> Inl (ValueError ''Invalid clock string'')
      | Some groups \<Rightarrow>
          (let hour = digits_value (case map_of groups ''hour'' of None \<Rightarrow> [] | Some h \<Rightarrow> h);
               minute = digits_value (or_else (map_of groups ''minute'') ''0'')
           in result_bind
             (case map_of groups ''ampm'' of
                Some ampm \<Rightarrow>
                  if hour < 1 \<or> hour > 12 then Inl (ValueError ''Invalid hour for 12h format'')
                  else if ampm = ''am'' then Inr (if hour = 12 then 0 else hour)
                  else Inr (if hour = 12 then 12 else hour + 12)
              | None \<Rightarrow> if hour > 23 then Inl (ValueError ''Invalid hour for 24h format'') else Inr hour)
             (\<lambda>hour. if minute < 0 \<or> minute > 59 then Inl (ValueError ''Invalid minute'')
                else Inr (hour, minute))))"

definition minute_micros :: int where
  "minute_micros = 60000000"

definition parse_tomorrow_time :: "py_env \<Rightarrow> datetime \<Rightarrow> string option \<Rightarrow> exc + string" where
  "parse_tomorrow_time env current clock_text =
     result_bind
       (case clock_text of
          Some (c # cs) \<Rightarrow> parse_clock (lower (strip (c # cs)))
        | _ \<Rightarrow> Inr (9, 0))
       (\<lambda>(hour, minute).
          let shifted = dt_wall current + day_micros in
          if \<not> in_datetime_range shifted then Inl OverflowError
          else let tomorrow = shifted div day_micros;
                   tz = (case dt_offset current of None \<Rightarrow> Some 0 | z \<Rightarrow> z)
               in Inr (env_iso env (DateTime (tomorrow * day_micros + (60 * hour + minute) * minute_micros) tz)))"

section \<open>Intents\<close>

definition make_intent :: "py_env \<Rightarrow> string \<Rightarrow> pydict \<Rightarrow> datetime \<Rightarrow> pyfloat \<Rightarrow> pydict" where
  "make_intent env intent_type entities current confidence =
     [(''intent_type'', PStr intent_type), (''entities'', PDict entities),
      (''timestamp'', PStr (env_iso env current)), (''confidence_score'', PFloat confidence)]"

definition group_text :: "(string \<times> string) list \<Rightarrow> string \<Rightarrow> string" where
  "group_text groups name = (case map_of groups name of None \<Rightarrow> [] | Some s \<Rightarrow> s)"

definition normalize_spaces :: "string \<Rightarrow> string" where
  "normalize_spaces s = join '' '' (words s)"

definition parse_intent :: "py_env \<Rightarrow> datetime \<Rightarrow> string \<Rightarrow> exc + pydict" where
  "parse_intent env current text_in =
     (let normalized = normalize_spaces (strip text_in) in
      if normalized = [] then Inr (make_intent env ''unknown'' [] current (Fin 0))
      else case re_match SCHEDULE_PATTERN normalized of
        Some groups \<Rightarrow>
          result_bind (parse_tomorrow_time env current (map_of groups ''clock'')) (\<lambda>due_at.
          Inr (make_intent env ''schedule_task''
            [(''task'', PStr (strip (group_text groups ''task''))), (''due_at'', PStr due_at)] current
            (float_round (93 / 100))))
      | None \<Rightarrow>
      (case re_match MARK_COMPLETED_PATTERN normalized of
        Some groups \<Rightarrow>
          Inr (make_intent env ''mark_completed'' [(''task'', PStr (strip (group_text groups ''task'')))] current
            (float_round (96 / 100)))
      | None \<Rightarrow>
      (case re_match CANCEL_PATTERN normalized of
        Some groups \<Rightarrow>
          Inr (make_intent env ''cancel_task''
            (case map_of groups ''task'' of Some (c # cs) \<Rightarrow> [(''task'', PStr (strip (c # cs)))] | _ \<Rightarrow> []) current
            (float_round (91 / 100)))
      | None \<Rightarrow>
          Inr (make_intent env ''unknown'' [(''raw_text'', PStr normalized)] current (float_round (25 / 100))))))"

section \<open>Words\<close>

definition proper_word :: "string \<Rightarrow> bool" where
  "proper_word w \<longleftrightarrow> w \<noteq> [] \<and> (\<forall>c\<in>set w. \<not> is_space c)"

lemma words_space: "is_space c \<Longrightarrow> words (c # s) = words s"
  by (simp add: words.simps [of "c # s"] words.simps [of s])

lemma words_word_append:
  assumes "proper_word w" and "s = [] \<or> is_space (hd s)"
  shows "words (w @ s) = w # words s"
proof -
  obtain c cs where w: "w = c # cs" "\<not> is_space c" "\<forall>x\<in>set cs. \<not> is_space x"
    using assms(1) by (cases w) (auto simp: proper_word_def)
  have "takeWhile (\<lambda>x. \<not> is_space x) (cs @ s) = cs" "dropWhile (\<lambda>x. \<not> is_space x) (cs @ s) = s"
    using w(3) assms(2) by (cases s; simp add: takeWhile_append2 dropWhile_append2)+
  with w show ?thesis by (simp add: words.simps [of "c # cs @ s"])
qed

lemma words_join:
  "(\<forall>w\<in>set ws. proper_word w) \<Longrightarrow> words (join '' '' ws) = ws"
proof (induction "'' ''" ws rule: join.induct)
  case 1
  show ?case by (simp add: words.simps)
next
  case (2 w)
  then show ?case using words_word_append [of w "[]"] by (simp add: words.simps [of "[]"])
next
  case (3 w v ws)
  have "is_space (CHR '' '')" by (simp add: is_space_def)
  then have "words (w @ '' '' @ join '' '' (v # ws)) = w # words (join '' '' (v # ws))"
    using 3(2) words_word_append [of w "'' '' @ join '' '' (v # ws)"] by (simp add: words_space)
  with 3 show ?case by simp
qed

lemma proper_words: "w \<in> set (words s) \<Longrightarrow> proper_word w"
proof (induction s rule: words.induct)
  case (1 s)
  show ?case
  proof (cases "dropWhile is_space s")
    case Nil
    with 1(2) show ?thesis by (simp add: words.simps [of s])
  next
    case (Cons c t)
    then have "\<not> is_space c" using hd_dropWhile [of is_space s] by simp
    then have "proper_word (c # takeWhile (\<lambda>x. \<not> is_space x) t)"
      by (auto simp: proper_word_def dest: set_takeWhileD)
    with 1 Cons show ?thesis by (auto simp: words.simps [of s])
  qed
qed

lemma words_dropWhile: "words (dropWhile is_space s) = words s"
  by (simp add: words.simps [of s] words.simps [of "dropWhile is_space s"])

lemma words_spaces: "(\<forall>c\<in>set s. is_space c) \<Longrightarrow> words s = []"
  by (induction s) (auto simp: words_space words.simps [of "[]"])

lemma words_append_spaces:
  "(\<forall>c\<in>set t. is_space c) \<Longrightarrow> words (s @ t) = words s"
proof (induction s rule: words.induct)
  case (1 s)
  show ?case
  proof (cases "dropWhile is_space s")
    case Nil
    then have "\<forall>c\<in>set s. is_space c" by (simp add: dropWhile_eq_Nil_conv)
    with 1(2) have "words (s @ t) = []" "words s = []" by (auto intro!: words_spaces)
    then show ?thesis by simp
  next
    case (Cons c v)
    then have d: "dropWhile is_space (s @ t) = c # v @ t"
      by (metis append_Cons dropWhile_append1 dropWhile_eq_Nil_conv list.distinct(1))
    have "takeWhile (\<lambda>x. \<not> is_space x) (v @ t) = takeWhile (\<lambda>x. \<not> is_space x) v"
      using 1(2) by (cases t) (auto simp: takeWhile_append intro!: takeWhile_eq_all_conv [THEN iffD2, symmetric])
    moreover have "words (dropWhile (\<lambda>x. \<not> is_space x) (v @ t)) = words (dropWhile (\<lambda>x. \<not> is_space x) v)"
    proof (cases "dropWhile (\<lambda>x. \<not> is_space x) v")
      case Nil
      then have "dropWhile (\<lambda>x. \<not> is_space x) (v @ t) = t"
        using 1(2) by (cases t) (auto simp: dropWhile_append dropWhile_eq_Nil_conv)
      moreover have "words [] = []" by (simp add: words.simps)
      ultimately show ?thesis using 1(2) unfolding Nil by (simp add: words_spaces)
    next
      case (Cons d ds)
      then have "dropWhile (\<lambda>x. \<not> is_space x) (v @ t) = dropWhile (\<lambda>x. \<not> is_space x) v @ t"
        by (metis dropWhile_append1 dropWhile_eq_Nil_conv list.distinct(1))
      with 1 \<open>dropWhile is_space s = c # v\<close> show ?thesis by simp
    qed
    ultimately show ?thesis by (simp add: words.simps [of "s @ t"] words.simps [of s] d Cons)
  qed
qed

lemma words_strip [simp]: "words (strip s) = words s"
proof -
  obtain t where "dropWhile is_space s = strip s @ t" "\<forall>c\<in>set t. is_space c"
  proof
    let ?r = "rev (dropWhile is_space s)"
    show "dropWhile is_space s = strip s @ rev (takeWhile is_space ?r)"
      unfolding strip_def by (metis rev_append rev_rev_ident takeWhile_dropWhile_id)
    show "\<forall>c\<in>set (rev (takeWhile is_space ?r)). is_space c" by (auto dest: set_takeWhileD)
  qed
  then have "words (dropWhile is_space s) = words (strip s)" by (simp add: words_append_spaces)
  then show ?thesis by (simp add: words_dropWhile)
qed

lemma normalize_spaces_strip: "normalize_spaces (strip s) = join '' '' (words s)"
  by (simp add: normalize_spaces_def)

section \<open>Commands and their intents\<close>

lemma join_append: "us \<noteq> [] \<Longrightarrow> vs \<noteq> [] \<Longrightarrow> join sep (us @ vs) = join sep us @ sep @ join sep vs"
  by (induction sep us rule: join.induct) (auto simp: neq_Nil_conv)

lemma join_Cons: "vs \<noteq> [] \<Longrightarrow> join sep (w # vs) = w @ sep @ join sep vs"
  using join_append [of "[w]" vs sep] by simp

lemma join_ends:
  assumes "ws \<noteq> []" and "\<forall>w\<in>set ws. proper_word w"
  shows "join '' '' ws \<noteq> [] \<and> \<not> is_space (hd (join '' '' ws)) \<and> \<not> is_space (last (join '' '' ws))"
  using assms
proof (induction "'' ''" ws rule: join.induct)
  case (3 w v ws)
  then have "w \<noteq> []" "\<not> is_space (hd w)" by (auto simp: proper_word_def)
  with 3 show ?case by simp
qed (auto simp: proper_word_def)

lemma join_no_newline:
  assumes "\<forall>w\<in>set ws. proper_word w"
  shows "\<forall>c\<in>set (join '' '' ws). not_newline c"
proof -
  have nl: "not_newline c" if "\<not> is_space c" for c
    using that by (auto simp: not_newline_def is_space_def Let_def)
  have "not_newline (CHR '' '')" by (simp add: not_newline_def)
  with assms show ?thesis
    by (induction "'' ''" ws rule: join.induct) (auto simp: proper_word_def intro: nl)
qed

lemma append_same_length: "a @ b = c @ d \<Longrightarrow> length a = length c \<Longrightarrow> a = c \<and> b = d"
  by simp

text \<open>Leading spaces read by a pattern that goes on with a letter.\<close>

lemma no_leading_space:
  "u @ v = s \<Longrightarrow> \<forall>c\<in>set u. is_space c \<Longrightarrow> s \<noteq> [] \<Longrightarrow> \<not> is_space (hd s) \<Longrightarrow> u = []"
  by (cases u) auto

lemma no_trailing_space:
  "u @ v = s \<Longrightarrow> \<forall>c\<in>set v. is_space c \<Longrightarrow> s \<noteq> [] \<Longrightarrow> \<not> is_space (last s) \<Longrightarrow> v = []"
  by (cases v rule: rev_cases) auto

lemma one_leading_space:
  assumes "u @ v = CHR '' '' # s" and "u \<noteq> []" and "\<forall>c\<in>set u. is_space c" and "s \<noteq> []" "\<not> is_space (hd s)"
  shows "u = '' '' \<and> v = s"
  using assms no_leading_space [of "tl u" v s] by (cases u) auto

lemma one_trailing_space:
  assumes "u @ v = s @ '' ''" and "v \<noteq> []" and "\<forall>c\<in>set v. is_space c" and "s \<noteq> []" "\<not> is_space (last s)"
  shows "v = '' '' \<and> u = s"
proof -
  obtain v' x where v: "v = v' @ [x]" using assms(2) by (cases v rule: rev_cases) auto
  with assms no_trailing_space [of u v' s] show ?thesis by auto
qed

lemma at_line_end_spaces: "at_line_end p \<Longrightarrow> \<forall>c\<in>set (ahead p). is_space c"
  by (auto simp: at_line_end_def not_newline_def is_space_def Let_def split: list.splits)

lemma mark_pattern_groups:
  assumes m: "lower m = ''mark''" "proper_word m" and c: "lower c = ''completed''" "proper_word c"
    and x: "x \<noteq> []" "\<not> is_space (hd x)" "\<not> is_space (last x)"
    and q: "matches MARK_COMPLETED_PATTERN (start_at [] (m @ '' '' @ x @ '' '' @ c)) q"
  shows "caps q = [(''task'', x)]"
proof -
  obtain u0 u1 s1 g s2 u2 s3 e where all: "m @ '' '' @ x @ '' '' @ c = u0 @ u1 @ s1 @ g @ s2 @ u2 @ s3 @ e"
    and u0: "\<forall>c\<in>set u0. is_space c" and u1: "map lower_char u1 = map lower_char ''mark''"
    and s1: "s1 \<noteq> []" "\<forall>c\<in>set s1. is_space c" and s2: "s2 \<noteq> []" "\<forall>c\<in>set s2. is_space c"
    and u2: "map lower_char u2 = map lower_char ''completed''" and s3: "\<forall>c\<in>set s3. is_space c"
    and e: "\<forall>c\<in>set e. is_space c" and q: "caps q = [(''task'', g)]"
  proof -
    let ?s = "m @ '' '' @ x @ '' '' @ c"
    obtain p1 p2 p3 p4 p5 p6 where p: "matches spaces (start_at [] ?s) p1" "matches (lit ''mark'') p1 p2"
      "matches some_space p2 p3" "matches (Grp ''task'' lazy_text) p3 p4" "matches some_space p4 p5"
      "matches (lit ''completed'') p5 p6" "matches spaces p6 q" "at_line_end q"
      using q unfolding MARK_COMPLETED_PATTERN_def seqs_Cons matches_simps(6,7) by blast
    obtain u0 where u0: "?s = u0 @ ahead p1" "\<forall>c\<in>set u0. is_space c" "caps p1 = []"
      using star_reads [OF p(1)] by (auto simp: start_at_def)
    obtain g where g: "ahead p3 = g @ ahead p4" "caps p4 = (''task'', g) # caps p3"
      using group_reads [OF p(4)] by blast
    show thesis
      using that u0 g lit_reads [OF p(2)] some_reads [OF p(3)] some_reads [OF p(5)] lit_reads [OF p(6)]
        star_reads [OF p(7)] at_line_end_spaces [OF p(8)] by force
  qed
  have "m \<noteq> []" "\<not> is_space (hd m)" using m by (auto simp: proper_word_def)
  then have "u0 = []" using no_leading_space [OF all [symmetric] u0] by simp
  moreover have "length u1 = length m" using u1 m(1) by (metis length_map lower_def)
  ultimately have "'' '' @ x @ '' '' @ c = s1 @ g @ s2 @ u2 @ s3 @ e" using all by simp
  then have "x @ '' '' @ c = g @ s2 @ u2 @ s3 @ e"
    using one_leading_space [of s1 "g @ s2 @ u2 @ s3 @ e" "x @ '' '' @ c"] s1 x by simp
  then have body: "(g @ s2 @ u2) @ (s3 @ e) = x @ '' '' @ c" by simp
  have "s3 @ e = []"
    using no_trailing_space [OF body] s3 e c(2) by (auto simp: proper_word_def)
  then have "(g @ s2) @ u2 = (x @ '' '') @ c" using body by simp
  moreover have "length u2 = length c" using u2 c(1) by (metis length_map lower_def)
  ultimately have "g @ s2 = x @ '' ''" by (metis append_eq_append_conv)
  then have "g = x" using one_trailing_space [of g s2 x] s2 x by simp
  with q show ?thesis by simp
qed

lemma lower_literals:
  "map lower_char ''mark'' = ''mark''" "map lower_char ''completed'' = ''completed''"
  "map lower_char ''schedule'' = ''schedule''"
  by code_simp+

lemma mark_pattern_matches:
  assumes "lower m = ''mark''" and "lower c = ''completed''" and "x \<noteq> []" and "\<forall>c\<in>set x. not_newline c"
  shows "\<exists>q. matches MARK_COMPLETED_PATTERN (start_at [] (m @ '' '' @ x @ '' '' @ c)) q"
proof -
  let ?p = "start_at [] (m @ '' '' @ x @ '' '' @ c)"
  let ?p2 = "advance m ('' '' @ x @ '' '' @ c) ?p"
  let ?p3 = "advance '' '' (x @ '' '' @ c) ?p2"
  let ?p4 = "(advance x ('' '' @ c) ?p3)\<lparr>caps := (''task'', x) # caps ?p3\<rparr>"
  let ?p5 = "advance '' '' c ?p4"
  let ?p6 = "advance c [] ?p5"
  have sp: "is_space (CHR '' '')" by (simp add: is_space_def)
  have "matches LineStart ?p ?p" by (simp add: start_at_def)
  moreover have "matches spaces ?p ?p" by (rule star_end)
  moreover have "matches (lit ''mark'') ?p ?p2"
    unfolding matches_lit lower_literals using assms(1)
    by (intro exI [of _ m] exI [of _ "'' '' @ x @ '' '' @ c"]) (simp add: start_at_def lower_def)
  moreover have "matches some_space ?p2 ?p3" unfolding matches_some using sp
    by (intro exI [of _ "'' ''"] exI [of _ "x @ '' '' @ c"]) simp
  moreover have "matches (Grp ''task'' lazy_text) ?p3 ?p4"
    unfolding matches_group_lazy_some using assms(3,4) by (intro exI [of _ x] exI [of _ "'' '' @ c"]) simp
  moreover have "matches some_space ?p4 ?p5" unfolding matches_some using sp
    by (intro exI [of _ "'' ''"] exI [of _ c]) simp
  moreover have "matches (lit ''completed'') ?p5 ?p6"
    unfolding matches_lit lower_literals using assms(2) by (intro exI [of _ c] exI [of _ "[]"]) (simp add: lower_def)
  moreover have "matches spaces ?p6 ?p6" by (rule star_end)
  moreover have "matches LineEnd ?p6 ?p6" by (simp add: at_line_end_def)
  ultimately have "matches MARK_COMPLETED_PATTERN ?p ?p6"
    unfolding MARK_COMPLETED_PATTERN_def seqs_Cons by blast
  then show ?thesis by blast
qed

text \<open>A pattern that starts with another word does not match.\<close>

lemma schedule_pattern_other_word:
  assumes "s \<noteq> []" "\<not> is_space (hd s)" and "lower_char (hd s) \<noteq> CHR ''s''"
  shows "re_match SCHEDULE_PATTERN s = None"
  unfolding re_match_None
proof (intro allI notI)
  fix q
  assume "matches SCHEDULE_PATTERN (start_at [] s) q"
  then obtain p1 p2 where p: "matches spaces (start_at [] s) p1" "matches (lit ''schedule'') p1 p2"
    unfolding SCHEDULE_PATTERN_def seqs_Cons matches_simps(6) by blast
  obtain u0 where u0: "s = u0 @ ahead p1" "\<forall>c\<in>set u0. is_space c"
    using star_reads [OF p(1)] by (auto simp: start_at_def)
  have "u0 = []" by (rule no_leading_space [OF u0(1) [symmetric] u0(2) assms(1,2)])
  moreover from lit_reads [OF p(2)]
  obtain u where u: "ahead p1 = u @ ahead p2" "map lower_char u = map lower_char ''schedule''" by (elim exE conjE)
  moreover from u(2) have "map lower_char u = ''schedule''" by (simp only: lower_literals)
  then have "u \<noteq> []" "lower_char (hd u) = CHR ''s''" by (cases u; simp)+
  ultimately show False using assms(3) u0(1) by (metis append_Nil hd_append2)
qed

text \<open>
  C33. A line whose words are \<open>mark\<close>, a task title and \<open>completed\<close>, in any case and spacing, is parsed
  as the command to complete the task with exactly this title, even when the title itself contains
  the words of a command.
\<close>

theorem mark_command_parses:
  assumes "words s = m # ws @ [c]" and "ws \<noteq> []" and "lower m = ''mark''" and "lower c = ''completed''"
  shows "parse_intent env current s =
     Inr (make_intent env ''mark_completed'' [(''task'', PStr (join '' '' ws))] current (float_round (96 / 100)))"
proof -
  let ?x = "join '' '' ws"
  have proper: "\<forall>w\<in>set (words s). proper_word w" using proper_words by blast
  then have mc: "proper_word m" "proper_word c" and ws: "\<forall>w\<in>set ws. proper_word w"
    using assms(1) by auto
  have x: "?x \<noteq> []" "\<not> is_space (hd ?x)" "\<not> is_space (last ?x)" using join_ends [OF assms(2) ws] by blast+
  have norm: "normalize_spaces (strip s) = m @ '' '' @ ?x @ '' '' @ c"
    using assms(2) by (simp add: normalize_spaces_strip assms(1) join_Cons join_append)
  have m: "m \<noteq> []" "\<not> is_space (hd m)" "lower_char (hd m) = CHR ''m''"
    using mc(1) assms(3) by (cases m; auto simp: proper_word_def lower_def)+
  have "re_match SCHEDULE_PATTERN (m @ '' '' @ ?x @ '' '' @ c) = None"
    using m by (intro schedule_pattern_other_word) simp_all
  moreover have "re_match MARK_COMPLETED_PATTERN (m @ '' '' @ ?x @ '' '' @ c) = Some [(''task'', ?x)]"
    using mark_pattern_matches [OF assms(3,4) x(1) join_no_newline [OF ws]]
      mark_pattern_groups [OF assms(3) mc(1) assms(4) mc(2) x] re_match_unique by blast
  moreover have "strip ?x = ?x" using x by (simp add: strip_def dropWhile_idem_hd hd_rev)
  ultimately show ?thesis using m by (simp add: parse_intent_def norm Let_def group_text_def)
qed

theorem mark_command_parses_witness:
  "parse_intent stub_env (DateTime 0 None) '' Mark the  report COMPLETED'' =
     Inr (make_intent stub_env ''mark_completed'' [(''task'', PStr ''the report'')] (DateTime 0 None)
       (float_round (96 / 100)))"
proof -
  have "words '' Mark the  report COMPLETED'' = ''Mark'' # [''the'', ''report''] @ [''COMPLETED'']" by code_simp
  moreover have "lower ''Mark'' = ''mark''" "lower ''COMPLETED'' = ''completed''" by code_simp+
  moreover have "join '' '' [''the'', ''report''] = ''the report''" by simp
  ultimately show ?thesis
    using mark_command_parses [of _ "''Mark''" "[''the'', ''report'']" "''COMPLETED''"] by (metis list.distinct(1))
qed

end
