(* ===== verification/Reasoning_Engine.thy ===== *)
theory Reasoning_Engine
  imports Intent_Parser
begin

text \<open>
  \<open>core/cognition/reasoning_engine.py\<close>: advisory strategies from a language model, with the patterns
  that withhold unsafe output. The language model is an argument; it may return any text or raise.
\<close>

section \<open>Output and patterns\<close>

record structured_output =
  so_summary :: string
  so_strategy_steps :: "string list"
  so_safe_to_present :: bool
  so_blocked_reason :: "string option"

type_synonym llm_client = "string \<Rightarrow> exc + string"

definition stub_llm :: llm_client where
  "stub_llm _ = Inr ''Focus on your highest-priority goal first. Break work into small time-boxed actions. Review progress at the end of the day.''"

text \<open>The text of a pattern, with a tilde for each backslash.\<close>

definition pattern_text :: "string \<Rightarrow> string" where
  "pattern_text s = map (\<lambda>c. if c = CHR ''~'' then CHR 0x5C else c) s"

abbreviation any_text :: regex where
  "any_text \<equiv> Star (Cls not_newline)"

definition two_words :: "string \<Rightarrow> string \<Rightarrow> regex" where
  "two_words u v = seqs [WordBoundary, lit u, some_space, lit v, WordBoundary]"

definition word_then :: "string \<Rightarrow> string list \<Rightarrow> regex" where
  "word_then u vs = seqs [whole_word u, any_text, WordBoundary, alts vs, WordBoundary]"

definition UNSAFE_PATTERNS :: "(string \<times> regex) list" where
  "UNSAFE_PATTERNS =
    [(''~bdelete~b'', whole_word ''delete''),
     (''~bdrop~b'', whole_word ''drop''),
     (''~bcreate~s+task~b'', two_words ''create'' ''task''),
     (''~bcomplete~s+task~b'', two_words ''complete'' ''task''),
     (''~bcancel~s+task~b'', two_words ''cancel'' ''task''),
     (''~barchive~s+task~b'', two_words ''archive'' ''task''),
     (''~barchive~b.*~b(task|tasks|all|everything)~b'',
        word_then ''archive'' [''task'', ''tasks'', ''all'', ''everything'']),
     (''~blifecycle~b'', whole_word ''lifecycle''),
     (''~blifecycle_manager~b'', whole_word ''lifecycle_manager''),
     (''~btransition~b'', whole_word ''transition''),
     (''~btask_store~b'', whole_word ''task_store''),
     (''~bcommand_router~b'', whole_word ''command_router''),
     (''~bbypass~s+router~b'', two_words ''bypass'' ''router''),
     (''~bmodify~b.*~bdatabase~b'', word_then ''modify'' [''database'']),
     (''~bdatabase~b'', whole_word ''database''),
     (''~breduce~s+threshold~b'', two_words ''reduce'' ''threshold''),
     (''~bthreshold~b.*~bzero~b'', word_then ''threshold'' [''zero''])]"

definition call_of :: "string \<Rightarrow> regex" where
  "call_of w = seqs [WordBoundary, lit w, spaces, lit ''('']"

definition MUTATION_COMMAND_PATTERNS :: "regex list" where
  "MUTATION_COMMAND_PATTERNS = [call_of ''create_task'', call_of ''archive'', call_of ''update_task'', call_of ''delete'']"

definition changes_a_task :: regex where
  "changes_a_task = seqs [WordBoundary, alts [''change'', ''update'', ''fix''], WordBoundary, any_text,
     WordBoundary, lit ''task'']"

definition AMBIGUOUS_PATTERNS :: "regex list" where
  "AMBIGUOUS_PATTERNS =
    [seqs [whole_word ''maybe'', any_text, changes_a_task], changes_a_task,
     whole_word ''not sure'', whole_word ''somehow'']"

definition MAX_REASONING_LENGTH :: nat where
  "MAX_REASONING_LENGTH = 420"

definition ADVISORY_ONLY_MESSAGE :: string where
  "ADVISORY_ONLY_MESSAGE = ''This is an explanation only. Actions require user confirmation.''"

definition LOW_ENERGY_SUMMARY_PREFIX :: string where
  "LOW_ENERGY_SUMMARY_PREFIX = ''Low-energy strategy:''"

section \<open>Checks\<close>

definition find_unsafe_reason :: "string \<Rightarrow> string option" where
  "find_unsafe_reason generated_text =
     (case filter (\<lambda>(_, r). re_search r generated_text) UNSAFE_PATTERNS of
        [] \<Rightarrow> None
      | (name, _) # _ \<Rightarrow> Some (''UNSAFE_TOKEN:'' @ pattern_text name))"

definition has_mutation_command :: "string \<Rightarrow> bool" where
  "has_mutation_command generated_text = list_ex (\<lambda>r. re_search r generated_text) MUTATION_COMMAND_PATTERNS"

definition is_ambiguous_request :: "py_env \<Rightarrow> pydict \<Rightarrow> bool" where
  "is_ambiguous_request env context =
     (let request_text = strip (join '' '' (map (\<lambda>key. py_str env (dict_get_or context key (PStr [])))
        [''goal'', ''notes'', ''constraints'']))
      in request_text \<noteq> [] \<and> list_ex (\<lambda>r. re_search r request_text) AMBIGUOUS_PATTERNS)"

text \<open>The allowed keys in the order in which the set is iterated, which Python leaves open.\<close>

definition sanitize_context :: "string list \<Rightarrow> pydict \<Rightarrow> pydict" where
  "sanitize_context allowed_keys context =
     concat (map (\<lambda>key. if dict_has context key then [(key, dict_get context key)] else []) allowed_keys)"

definition reasoning_keys :: "string list" where
  "reasoning_keys = [''goal'', ''constraints'', ''horizon_days'', ''priorities'', ''notes'', ''low_energy'']"

definition build_prompt :: "py_env \<Rightarrow> pydict \<Rightarrow> string" where
  "build_prompt env context =
     ''Generate concise advisory strategy for the provided context only.'' @ [CHR 0x0A] @ ''Context: '' @
     env_repr env (PDict context) @ [CHR 0x0A] @
     ''Do not output commands, lifecycle operations, or deletion instructions.''"

section \<open>Bounded text\<close>

text \<open>\<open>s.rfind(p)\<close>.\<close>

definition rfind :: "string \<Rightarrow> string \<Rightarrow> int" where
  "rfind s p = (case filter (\<lambda>i. starts_with (drop i s) p) (rev [0..<Suc (length s)]) of
     [] \<Rightarrow> - 1 | i # _ \<Rightarrow> int i)"

definition bound_text :: "nat \<Rightarrow> string \<Rightarrow> string" where
  "bound_text limit s =
     (let compact = normalize_spaces s in
      if length compact \<le> limit then compact
      else let cut = take limit compact in
        case filter (\<lambda>d. rfind cut d > int (limit div 2)) [''. '', ''! '', ''? ''] of
          d # _ \<Rightarrow> strip (take (nat (rfind cut d) + 1) cut)
        | [] \<Rightarrow>
            (let space_index = rfind cut '' '' in
             if space_index > int (limit div 2) then strip (take (nat space_index) cut) else strip cut))"

definition step_separator :: "char \<Rightarrow> bool" where
  "step_separator c \<longleftrightarrow> c = CHR ''.'' \<or> c = CHR 0x0A"

text \<open>\<open>re.split\<close> at the maximal runs of separators.\<close>

function split_runs :: "(char \<Rightarrow> bool) \<Rightarrow> string \<Rightarrow> string list" where
  "split_runs f s = (let chunk = takeWhile (\<lambda>c. \<not> f c) s in
     case dropWhile (\<lambda>c. \<not> f c) s of
       [] \<Rightarrow> [chunk]
     | c # cs \<Rightarrow> chunk # split_runs f (dropWhile f cs))"
  by pat_completeness auto
termination
proof (relation "measure (length \<circ> snd)", goal_cases)
  case (2 f s chunk c cs)
  have "length (dropWhile f cs) \<le> length cs" by (rule length_dropWhile_le)
  also have "length cs < length (dropWhile (\<lambda>c. \<not> f c) s)" using 2 by simp
  also have "\<dots> \<le> length s" by (rule length_dropWhile_le)
  finally show ?case by simp
qed simp

declare split_runs.simps [simp del]

fun collect_steps :: "string list \<Rightarrow> string list \<Rightarrow> string list" where
  "collect_steps [] steps = steps"
| "collect_steps (chunk # chunks) steps =
     (let cleaned = normalize_spaces chunk;
          steps' = (if cleaned \<noteq> [] then steps @ [cleaned] else steps)
      in if 5 \<le> length steps' then steps' else collect_steps chunks steps')"

definition extract_steps :: "string \<Rightarrow> string list" where
  "extract_steps s = collect_steps (split_runs step_separator s) []"

section \<open>Strategies\<close>

definition compress_low_energy_output :: "string list \<Rightarrow> structured_output" where
  "compress_low_energy_output steps =
     (case steps of
        [] \<Rightarrow> \<lparr>so_summary = bound_text MAX_REASONING_LENGTH
                (LOW_ENERGY_SUMMARY_PREFIX @ '' Keep one priority and defer optional work.''),
              so_strategy_steps = [], so_safe_to_present = True, so_blocked_reason = None\<rparr>
      | step # _ \<Rightarrow>
          (let compact_step = bound_text 140 step in
           \<lparr>so_summary = bound_text MAX_REASONING_LENGTH (LOW_ENERGY_SUMMARY_PREFIX @ '' '' @ compact_step),
            so_strategy_steps = [compact_step], so_safe_to_present = True, so_blocked_reason = None\<rparr>))"

definition generate_strategy :: "py_env \<Rightarrow> string list \<Rightarrow> llm_client \<Rightarrow> pydict \<Rightarrow> structured_output" where
  "generate_strategy env allowed_keys llm context =
     (let safe_context = sanitize_context allowed_keys context in
      if is_ambiguous_request env safe_context then
        \<lparr>so_summary = ADVISORY_ONLY_MESSAGE,
         so_strategy_steps = [''Clarify your exact objective before requesting strategy output.''],
         so_safe_to_present = True, so_blocked_reason = None\<rparr>
      else case llm (build_prompt env safe_context) of
        Inl _ \<Rightarrow>
          \<lparr>so_summary = ''Strategy generation is temporarily unavailable.'', so_strategy_steps = [],
           so_safe_to_present = False, so_blocked_reason = Some ''LLM_FAILURE''\<rparr>
      | Inr raw \<Rightarrow>
          if has_mutation_command raw then
            \<lparr>so_summary = bound_text MAX_REASONING_LENGTH ADVISORY_ONLY_MESSAGE, so_strategy_steps = [],
             so_safe_to_present = True, so_blocked_reason = None\<rparr>
          else case find_unsafe_reason raw of
            Some unsafe_reason \<Rightarrow>
              \<lparr>so_summary = bound_text MAX_REASONING_LENGTH ADVISORY_ONLY_MESSAGE, so_strategy_steps = [],
               so_safe_to_present = False, so_blocked_reason = Some unsafe_reason\<rparr>
          | None \<Rightarrow>
              (let steps = extract_steps (bound_text MAX_REASONING_LENGTH raw) in
               if truthy (dict_get_or safe_context ''low_energy'' (PBool False))
               then compress_low_energy_output steps
               else \<lparr>so_summary = (case steps of [] \<Rightarrow> ''No strategy available.'' | s # _ \<Rightarrow> s),
                     so_strategy_steps = steps, so_safe_to_present = True, so_blocked_reason = None\<rparr>))"

section \<open>Lengths\<close>

lemma length_strip: "length (strip s) \<le> length s"
proof -
  have "length (strip s) \<le> length (dropWhile is_space s)"
    using length_dropWhile_le [of is_space "rev (dropWhile is_space s)"] by (simp add: strip_def)
  then show ?thesis using length_dropWhile_le [of is_space s] by simp
qed

lemma bound_text_length: "length (bound_text limit s) \<le> limit"
proof -
  have "length (strip (take n (take limit t))) \<le> limit" for n and t :: string
    using length_strip [of "take n (take limit t)"] by simp
  moreover have "length (strip (take limit t)) \<le> limit" for t :: string
    using length_strip [of "take limit t"] by simp
  ultimately show ?thesis by (simp add: bound_text_def Let_def split: list.split)
qed

lemma sum_words: "sum_list (map (\<lambda>w. length w + 1) (words s)) \<le> length s + 1"
proof (induction s rule: length_induct)
  case (1 s)
  show ?case
  proof (cases "dropWhile is_space s")
    case Nil
    then have "words s = []" by (auto simp: dropWhile_eq_Nil_conv intro: words_spaces)
    then show ?thesis by simp
  next
    case (Cons c t)
    let ?w = "takeWhile (\<lambda>x. \<not> is_space x) t" and ?r = "dropWhile (\<lambda>x. \<not> is_space x) t"
    have ws: "words s = (c # ?w) # words ?r" by (simp add: words.simps [of s] Cons)
    have len: "length (c # ?w) + length ?r \<le> length s"
    proof -
      have "length ?w + length ?r = length t" by (metis length_append takeWhile_dropWhile_id)
      then show ?thesis using length_dropWhile_le [of is_space s] by (simp add: Cons)
    qed
    have "sum_list (map (\<lambda>w. length w + 1) (words ?r)) \<le> length ?r"
    proof (cases ?r)
      case Nil
      have "words [] = []" by (simp add: words.simps)
      then show ?thesis by (simp only: Nil) simp
    next
      case r: (Cons d ds)
      then have "is_space d" using hd_dropWhile [of "\<lambda>x. \<not> is_space x" t] by auto
      moreover have "length ds < length s" using len by (simp add: r)
      ultimately show ?thesis using 1 by (simp add: r words_space)
    qed
    with len show ?thesis by (simp add: ws)
  qed
qed

lemma length_join: "ws \<noteq> [] \<Longrightarrow> length (join '' '' ws) + 1 = sum_list (map (\<lambda>w. length w + 1) ws)"
  by (induction "'' ''" ws rule: join.induct) auto

lemma length_normalize_spaces: "length (normalize_spaces s) \<le> length s"
  using sum_words [of s] length_join [of "words s"] by (cases "words s = []") (auto simp: normalize_spaces_def)

lemma split_runs_length: "chunk \<in> set (split_runs f s) \<Longrightarrow> length chunk \<le> length s"
proof (induction f s rule: split_runs.induct)
  case (1 f s)
  show ?case
  proof (cases "dropWhile (\<lambda>c. \<not> f c) s")
    case Nil
    with 1(2) show ?thesis by (simp add: split_runs.simps [of f s] length_takeWhile_le)
  next
    case (Cons c cs)
    have "length (dropWhile f cs) \<le> length s"
      using length_dropWhile_le [of f cs] length_dropWhile_le [of "\<lambda>c. \<not> f c" s] by (simp add: Cons)
    with 1 Cons show ?thesis
      by (fastforce simp: split_runs.simps [of f s] Let_def length_takeWhile_le intro: order_trans)
  qed
qed

lemma collect_steps_ok:
  assumes "length steps < 5" and "\<forall>s\<in>set steps. s \<noteq> [] \<and> length s \<le> n"
    and "\<forall>c\<in>set chunks. length c \<le> n"
  shows "length (collect_steps chunks steps) \<le> 5 \<and> (\<forall>s\<in>set (collect_steps chunks steps). s \<noteq> [] \<and> length s \<le> n)"
  using assms
proof (induction chunks arbitrary: steps)
  case (Cons chunk chunks)
  define steps' where "steps' = (if normalize_spaces chunk \<noteq> [] then steps @ [normalize_spaces chunk] else steps)"
  have "length (normalize_spaces chunk) \<le> n"
    using Cons.prems(3) length_normalize_spaces [of chunk] by simp
  then have ok: "\<forall>s\<in>set steps'. s \<noteq> [] \<and> length s \<le> n" "length steps' \<le> 5"
    using Cons.prems(1,2) by (auto simp: steps'_def)
  have eq: "collect_steps (chunk # chunks) steps = (if 5 \<le> length steps' then steps' else collect_steps chunks steps')"
    by (simp add: steps'_def Let_def)
  show ?case
  proof (cases "5 \<le> length steps'")
    case True
    then show ?thesis unfolding eq using ok by simp
  next
    case False
    then have "length steps' < 5" by simp
    from Cons.IH [OF this ok(1)] Cons.prems(3) False show ?thesis unfolding eq by simp
  qed
qed simp

lemma extract_steps_ok:
  "length (extract_steps s) \<le> 5 \<and> (\<forall>t\<in>set (extract_steps s). t \<noteq> [] \<and> length t \<le> length s)"
  unfolding extract_steps_def by (rule collect_steps_ok) (auto dest: split_runs_length)

lemma bound_advisory: "bound_text MAX_REASONING_LENGTH ADVISORY_ONLY_MESSAGE = ADVISORY_ONLY_MESSAGE"
  by code_simp

section \<open>Properties\<close>

text \<open>
  C39. Whatever the language model returns, the strategy is bounded: at most five steps, none of them
  empty, and no summary or step longer than the limit of 420 characters.
\<close>

theorem strategy_is_bounded:
  "length (so_summary (generate_strategy env keys llm context)) \<le> MAX_REASONING_LENGTH
   \<and> length (so_strategy_steps (generate_strategy env keys llm context)) \<le> 5
   \<and> list_all (\<lambda>s. length s \<le> MAX_REASONING_LENGTH) (so_strategy_steps (generate_strategy env keys llm context))"
proof -
  define ok where "ok out \<longleftrightarrow> length (so_summary out) \<le> MAX_REASONING_LENGTH
    \<and> length (so_strategy_steps out) \<le> 5
    \<and> list_all (\<lambda>s. length s \<le> MAX_REASONING_LENGTH) (so_strategy_steps out)" for out :: structured_output
  have low: "ok (compress_low_energy_output steps)" for steps
    using bound_text_length [of MAX_REASONING_LENGTH] order_trans [OF bound_text_length [of 140], of MAX_REASONING_LENGTH]
    by (auto simp: ok_def compress_low_energy_output_def Let_def MAX_REASONING_LENGTH_def split: list.split)
  have steps: "length (extract_steps (bound_text MAX_REASONING_LENGTH raw)) \<le> 5"
    "t \<in> set (extract_steps (bound_text MAX_REASONING_LENGTH raw)) \<Longrightarrow> length t \<le> MAX_REASONING_LENGTH" for raw t
    using extract_steps_ok [of "bound_text MAX_REASONING_LENGTH raw"] bound_text_length [of MAX_REASONING_LENGTH raw]
    by (auto intro: order_trans)
  have plain: "ok \<lparr>so_summary = (case extract_steps (bound_text MAX_REASONING_LENGTH raw) of
        [] \<Rightarrow> ''No strategy available.'' | s # _ \<Rightarrow> s),
      so_strategy_steps = extract_steps (bound_text MAX_REASONING_LENGTH raw),
      so_safe_to_present = True, so_blocked_reason = None\<rparr>" for raw
    using steps(1) [of raw] steps(2) [of _ raw] by (auto simp: ok_def list_all_iff MAX_REASONING_LENGTH_def split: list.splits)
  have "ok (generate_strategy env keys llm context)"
    unfolding generate_strategy_def Let_def bound_advisory
    using low plain
    by (simp split: sum.split option.split) (simp add: ok_def ADVISORY_ONLY_MESSAGE_def MAX_REASONING_LENGTH_def)
  then show ?thesis by (simp add: ok_def)
qed

text \<open>Words that withhold a text in which they occur as whole words.\<close>

definition forbidden_words :: "string list" where
  "forbidden_words = [''delete'', ''drop'', ''lifecycle'', ''transition'', ''task_store'', ''command_router'', ''database'']"

lemma forbidden_word_unsafe:
  assumes "w \<in> set forbidden_words" and "re_search (whole_word w) raw"
  shows "find_unsafe_reason raw \<noteq> None"
proof -
  have "set (map whole_word forbidden_words) \<subseteq> set (map snd UNSAFE_PATTERNS)"
    unfolding forbidden_words_def UNSAFE_PATTERNS_def list.map snd_conv list.set by blast
  then obtain name where "(name, whole_word w) \<in> set UNSAFE_PATTERNS" using assms(1) by auto
  then have "filter (\<lambda>(_, r). re_search r raw) UNSAFE_PATTERNS \<noteq> []"
    using assms(2) by (force simp: filter_empty_conv)
  then show ?thesis by (auto simp: find_unsafe_reason_def split: list.split)
qed

text \<open>
  C38. A text of the language model in which one of the forbidden words occurs as a whole word, in any
  case, reaches no one: the output is the fixed advisory message with no step of the text, or the
  fixed request for clarification that does not look at the text.
\<close>

theorem forbidden_text_is_withheld:
  assumes "w \<in> set forbidden_words" and "lower u = w" and "list_all is_word_char u"
    and "a = [] \<or> \<not> is_word_char (last a)" and "b = [] \<or> \<not> is_word_char (hd b)"
    and "llm (build_prompt env (sanitize_context keys context)) = Inr (a @ u @ b)"
  shows "so_summary (generate_strategy env keys llm context) = ADVISORY_ONLY_MESSAGE \<and>
     so_strategy_steps (generate_strategy env keys llm context)
       \<in> {[], [''Clarify your exact objective before requesting strategy output.'']}"
proof -
  have "list_all (\<lambda>w. lower w = w \<and> w \<noteq> []) forbidden_words" by code_simp
  then have w: "lower w = w" "w \<noteq> []" using assms(1) by (auto simp: list_all_iff)
  then have "u \<noteq> []" using assms(2) by (auto simp: lower_def)
  then have "re_search (whole_word w) (a @ u @ b)"
    using assms w by (intro re_search_whole_word [of _ a u b]) (auto simp: list_all_iff)
  with assms(1) have "find_unsafe_reason (a @ u @ b) \<noteq> None" by (rule forbidden_word_unsafe)
  then show ?thesis by (auto simp: generate_strategy_def Let_def assms(6) bound_advisory)
qed

theorem forbidden_text_is_withheld_witness:
  "so_summary (generate_strategy stub_env reasoning_keys (\<lambda>_. Inr ''Please DELETE all.'') []) = ADVISORY_ONLY_MESSAGE"
proof -
  have "lower ''DELETE'' = ''delete''" "list_all is_word_char ''DELETE''" "\<not> is_word_char (last ''Please '')"
    "\<not> is_word_char (hd '' all.'')" "''delete'' \<in> set forbidden_words" by code_simp+
  then show ?thesis
    using forbidden_text_is_withheld [of "''delete''" "''DELETE''" "''Please ''" "'' all.''"
        "\<lambda>_. Inr ''Please DELETE all.''" stub_env reasoning_keys "[]"] by simp
qed

end
