(* ===== verification/Interaction.thy ===== *)
theory Interaction
  imports Router_Properties Proactive Reasoning_Engine
begin

text \<open>
  From a line of user input to an answer: \<open>core/identity/\<close> (identities, login, tier policy, access
  control), \<open>core/cognition/explanation_engine.py\<close>, \<open>interface/interaction_controller.py\<close> and
  \<open>interface/cli_shell.py\<close>. The controller takes its parser and its reasoning engine as arguments, as
  the class does; \<open>apcos_input\<close> wires it the way \<open>apcos/bootstrap/container.py\<close> does.
\<close>

section \<open>Identities\<close>

record identity_context =
  id_user_id :: string
  id_tier :: string
  id_authenticated :: bool

definition VALID_TIERS :: "string list" where
  "VALID_TIERS = [''OWNER'', ''FAMILY'', ''GUEST'']"

text \<open>\<open>IdentityContext(...)\<close> with its \<open>__post_init__\<close>.\<close>

definition make_identity :: "string \<Rightarrow> string \<Rightarrow> bool \<Rightarrow> exc + identity_context" where
  "make_identity user_id tier authenticated =
     (let user = strip user_id; t = upper (strip tier) in
      if user = [] then Inl (ValueError ''user_id must not be empty'')
      else if t \<notin> set VALID_TIERS then Inl (ValueError ''Unsupported identity tier'')
      else Inr \<lparr>id_user_id = user, id_tier = t, id_authenticated = authenticated\<rparr>)"

definition default_identity :: "exc + identity_context" where
  "default_identity = make_identity ''owner_session'' ''OWNER'' True"

definition user_id_char :: "char \<Rightarrow> bool" where
  "user_id_char c \<longleftrightarrow> (let n = (of_char c :: nat)
     in (65 \<le> n \<and> n \<le> 90) \<or> (97 \<le> n \<and> n \<le> 122) \<or> (48 \<le> n \<and> n \<le> 57) \<or> n = 95 \<or> n = 46 \<or> n = 45)"

definition LOGIN_PATTERN :: regex where
  "LOGIN_PATTERN = seqs [LineStart, spaces, lit ''login'', some_space,
     Grp ''tier'' (Alt (lit ''owner'') (Alt (lit ''family'') (lit ''guest''))),
     Opt (Seq some_space (Grp ''user_id'' (Plus (Cls user_id_char)))), spaces, LineEnd]"

text \<open>\<open>None\<close> for a text that is no login command.\<close>

definition resolve_identity :: "string \<Rightarrow> exc + identity_context option" where
  "resolve_identity input_str =
     (case re_match LOGIN_PATTERN (strip input_str) of
        None \<Rightarrow> Inr None
      | Some groups \<Rightarrow>
          (let tier = upper (group_text groups ''tier'');
               user_id = or_else (map_of groups ''user_id'') (lower tier @ ''_session'')
           in result_bind (make_identity user_id tier True) (\<lambda>i. Inr (Some i))))"

section \<open>Access control\<close>

definition INTENT_TO_ACTION :: "(string \<times> string) list" where
  "INTENT_TO_ACTION =
     [(''create_task'', ''CREATE''), (''schedule_task'', ''CREATE''), (''complete_task'', ''COMPLETE''),
      (''mark_completed'', ''COMPLETE''), (''archive_task'', ''ARCHIVE''), (''cancel_task'', ''ARCHIVE''),
      (''strategy'', ''STRATEGY'')]"

definition PERMISSIONS :: "(string \<times> string list) list" where
  "PERMISSIONS = [(''OWNER'', [''CREATE'', ''COMPLETE'', ''ARCHIVE'', ''STRATEGY'']),
     (''FAMILY'', [''COMPLETE'', ''STRATEGY'']), (''GUEST'', [''STRATEGY''])]"

definition is_allowed :: "string \<Rightarrow> identity_context \<Rightarrow> bool" where
  "is_allowed intent_type identity =
     (if \<not> id_authenticated identity then False
      else case map_of INTENT_TO_ACTION (lower (strip intent_type)) of
        None \<Rightarrow> False
      | Some action \<Rightarrow>
          (case map_of PERMISSIONS (id_tier identity) of None \<Rightarrow> False | Some allowed \<Rightarrow> action \<in> set allowed))"

section \<open>Explanation engine\<close>

definition action_templates :: "((string \<times> string) \<times> string) list" where
  "action_templates =
    [((''executed'', ''CREATE_TASK''), ''Your task has been scheduled successfully.''),
     ((''executed'', ''COMPLETE_TASK''), ''Your task has been marked as completed.''),
     ((''executed'', ''CANCEL_TASK''), ''Your task has been archived.''),
     ((''challenge_required'', ''COMPLETE_TASK''),
        ''Before proceeding, please confirm this action aligns with your goal.''),
     ((''challenge_required'', ''CANCEL_TASK''),
        ''Before archiving, please confirm this action aligns with your goal.'')]"

definition internal_error_text :: string where
  "internal_error_text = ''I could not execute that due to an internal system error.''"

definition error_templates :: "(string \<times> string) list" where
  "error_templates =
    [(''LOW_CONFIDENCE'', ''I could not execute that because command confidence was too low.''),
     (''INVALID_ENTITY'', ''I could not execute that because details were invalid.''),
     (''INVALID_INTENT_SHAPE'', ''I could not execute that because the command format was invalid.''),
     (''INVALID_TRANSITION'', ''I could not execute that because the lifecycle transition is not allowed.''),
     (''UNSUPPORTED_INTENT'', ''I could not execute that because the intent is unsupported.''),
     (''ACCESS_DENIED'', ''Access denied for your current identity tier.''),
     (''INTERNAL_ERROR'', internal_error_text)]"

text \<open>\<open>_normalize_result\<close>: \<open>asdict\<close> of a command result.\<close>

definition result_dict :: "command_result \<Rightarrow> pydict" where
  "result_dict res =
     [(''status'', PStr (res_status res)), (''action'', PStr (res_action res)),
      (''audit_id'', PStr (res_audit_id res)), (''message_key'', PStr (res_message_key res)),
      (''metadata'', PDict (res_metadata res)),
      (''error_code'', case res_error_code res of None \<Rightarrow> PNone | Some c \<Rightarrow> PStr c),
      (''challenge_payload'', case res_challenge_payload res of None \<Rightarrow> PNone | Some d \<Rightarrow> PDict d)]"

definition generate_response :: "py_env \<Rightarrow> pydict \<Rightarrow> string" where
  "generate_response env result =
     (let code = dict_get result ''error_code'';
          by_code = (if truthy code then map_of error_templates (py_str env code) else None)
      in case by_code of
        Some s \<Rightarrow> s
      | None \<Rightarrow>
          (case map_of action_templates
              (py_str env (dict_get_or result ''status'' (PStr [])), py_str env (dict_get_or result ''action'' (PStr []))) of
             Some s \<Rightarrow> s
           | None \<Rightarrow> internal_error_text))"

section \<open>Interaction controller\<close>

type_synonym intent_parser = "string \<Rightarrow> exc + pydict"
type_synonym reasoning_engine = "pydict \<Rightarrow> (command_router, structured_output) prog"

record interaction =
  ic_router :: command_router
  ic_proactive :: proactive_controller
  ic_identity :: identity_context

definition init_interaction :: "command_router \<Rightarrow> proactive_controller \<Rightarrow> exc + interaction" where
  "init_interaction router proactive =
     result_bind default_identity (\<lambda>identity.
       Inr \<lparr>ic_router = router, ic_proactive = proactive, ic_identity = identity\<rparr>)"

definition set_identity :: "identity_context \<Rightarrow> interaction \<Rightarrow> interaction" where
  "set_identity identity ic = ic\<lparr>ic_identity := identity\<rparr>"

definition safe_internal_error :: "py_env \<Rightarrow> string" where
  "safe_internal_error env =
     generate_response env [(''status'', PStr ''rejected''), (''action'', PStr ''UNKNOWN''),
       (''audit_id'', PStr ''interaction-error''), (''message_key'', PStr ''COMMAND_REJECTED''),
       (''metadata'', PDict []), (''error_code'', PStr ''INTERNAL_ERROR'')]"

definition access_denied_response :: "py_env \<Rightarrow> string \<Rightarrow> interaction \<Rightarrow> string" where
  "access_denied_response env intent_type ic =
     generate_response env [(''status'', PStr ''rejected''), (''action'', PStr ''UNKNOWN''),
       (''audit_id'', PStr ''access-denied''), (''message_key'', PStr ''COMMAND_REJECTED''),
       (''metadata'', PDict [(''intent_type'', PStr intent_type), (''identity_tier'', PStr (id_tier (ic_identity ic)))]),
       (''error_code'', PStr ''ACCESS_DENIED'')]"

definition is_strategy_mode :: "string \<Rightarrow> bool" where
  "is_strategy_mode s \<longleftrightarrow> starts_with (lower s) ''/strategy'' \<or> starts_with (lower s) ''strategy:''"

text \<open>Each run of control characters becomes one space.\<close>

definition is_control :: "char \<Rightarrow> bool" where
  "is_control c \<longleftrightarrow> (let n = (of_char c :: nat) in n \<le> 31 \<or> n = 127)"

fun squeeze_controls :: "bool \<Rightarrow> string \<Rightarrow> string" where
  "squeeze_controls inside [] = []"
| "squeeze_controls inside (c # cs) =
     (if is_control c then (if inside then [] else '' '') @ squeeze_controls True cs
      else c # squeeze_controls False cs)"

definition sanitize_for_reasoning :: "string \<Rightarrow> string" where
  "sanitize_for_reasoning s = take 500 (strip (squeeze_controls False s))"

record strategy_request =
  sq_raw_query :: string
  sq_sanitized_query :: string

definition parse_strategy_request :: "string \<Rightarrow> strategy_request" where
  "parse_strategy_request s =
     (let cleaned = strip s;
          raw_query = (if starts_with (lower cleaned) ''/strategy''
            then strip (drop (length ''/strategy'') cleaned)
            else strip (drop 1 (dropWhile (\<lambda>c. c \<noteq> CHR '':'') cleaned)))
      in \<lparr>sq_raw_query = raw_query, sq_sanitized_query = sanitize_for_reasoning raw_query\<rparr>)"

text \<open>\<open>_router_audit_count\<close> of the router: it has \<open>get_audit_events\<close> and that does not raise.\<close>

definition router_audit_count :: "command_router \<Rightarrow> nat option" where
  "router_audit_count rt = Some (length (get_audit_events rt))"

fun number_steps :: "nat \<Rightarrow> string list \<Rightarrow> string list" where
  "number_steps _ [] = []"
| "number_steps i (step # steps) =
     (let cleaned = strip step in
      (if cleaned \<noteq> [] then [dec_nat i @ ''. '' @ cleaned] else []) @ number_steps (Suc i) steps)"

definition newline :: string where
  "newline = [CHR 0x0A]"

definition handle_strategy_input :: "py_env \<Rightarrow> reasoning_engine \<Rightarrow> string \<Rightarrow> interaction \<Rightarrow> string \<times> interaction" where
  "handle_strategy_input env reasoning raw_text ic =
     (let request = parse_strategy_request raw_text; query = PStr (sq_sanitized_query request) in
      if sq_sanitized_query request = [] then (''Provide a strategy request after /strategy.'', ic)
      else
        let before_audit = router_audit_count (ic_router ic) in
        case reasoning [(''goal'', query), (''notes'', query)] (ic_router ic) of
          (Inl _, rt) \<Rightarrow> (safe_internal_error env, ic\<lparr>ic_router := rt\<rparr>)
        | (Inr strategy_output, rt) \<Rightarrow>
            (let after_audit = router_audit_count rt; ic' = ic\<lparr>ic_router := rt\<rparr> in
             if before_audit \<noteq> None \<and> after_audit \<noteq> None \<and> after_audit \<noteq> before_audit
             then (safe_internal_error env, ic')
             else if \<not> so_safe_to_present strategy_output then (safe_internal_error env, ic')
             else
               let summary = strip (so_summary strategy_output); steps = so_strategy_steps strategy_output in
               if summary = [] \<and> steps = [] then (''No strategy available.'', ic')
               else (join newline ((if summary \<noteq> [] then ''Strategy: '' @ summary else ''Strategy:'')
                       # number_steps 1 (take 5 steps)), ic')))"

definition build_proactive_context :: "command_result \<Rightarrow> pydict" where
  "build_proactive_context res =
     [(''last_action'', PStr (res_action res)), (''task_id'', dict_get (res_metadata res) ''task_id''),
      (''overdue_tasks'', PInt 0), (''scheduled_tasks_today'', PInt 0), (''goal_alignment_score'', PFloat (Fin 1))]"

text \<open>\<open>_scan_proactive\<close>: the controller has no \<open>scan\<close>, so \<open>evaluate\<close> is called.\<close>

definition scan_proactive :: "py_env \<Rightarrow> datetime \<Rightarrow> pydict \<Rightarrow> (proactive_controller, pydict list) prog" where
  "scan_proactive env clock context = evaluate_proactive env context clock False"

text \<open>\<open>_trigger_recalibration\<close> swallows every exception.\<close>

definition trigger_recalibration :: "py_env \<Rightarrow> proactive_controller \<Rightarrow> proactive_controller" where
  "trigger_recalibration env pc = snd (recalibrate_threshold env pc)"

definition render_suggestions :: "py_env \<Rightarrow> pydict list \<Rightarrow> string" where
  "render_suggestions env suggestions =
     join newline (concat (map (\<lambda>suggestion.
       let message = strip (py_str env (dict_get_or suggestion ''message'' (PStr [])))
       in if message \<noteq> [] then [''Proactive: '' @ message] else []) suggestions))"

definition process_post_action :: "py_env \<Rightarrow> datetime \<Rightarrow> command_result \<Rightarrow> (interaction, string) prog" where
  "process_post_action env clock res ic =
     (if res_status res \<noteq> ''executed'' then (Inr [], ic)
      else case scan_proactive env clock (build_proactive_context res) (ic_proactive ic) of
        (Inl e, pc) \<Rightarrow> (Inl e, ic\<lparr>ic_proactive := pc\<rparr>)
      | (Inr suggestions, pc) \<Rightarrow>
          (let ic' = ic\<lparr>ic_proactive := trigger_recalibration env pc\<rparr>
           in (Inr (if suggestions = [] then [] else render_suggestions env suggestions), ic')))"

definition handle_input ::
  "py_env \<Rightarrow> datetime \<Rightarrow> intent_parser \<Rightarrow> reasoning_engine \<Rightarrow> string \<Rightarrow> (interaction, string) prog" where
  "handle_input env clock parser reasoning user_text ic =
     (let t = strip user_text in
      if t = [] then (Inr ''Please enter a command.'', ic)
      else case resolve_identity t of
        Inl e \<Rightarrow> (Inl e, ic)
      | Inr (Some identity) \<Rightarrow>
          (Inr (''Logged in as '' @ id_tier identity @ ''.''), ic\<lparr>ic_identity := identity\<rparr>)
      | Inr None \<Rightarrow>
          if is_strategy_mode t then
            if \<not> is_allowed ''strategy'' (ic_identity ic)
            then (Inr (access_denied_response env ''strategy'' ic), ic)
            else (case handle_strategy_input env reasoning t ic of (answer, ic') \<Rightarrow> (Inr answer, ic'))
          else case parser t of
            Inl _ \<Rightarrow> (Inr (safe_internal_error env), ic)
          | Inr intent \<Rightarrow>
              (let intent_type = py_str env (dict_get_or intent ''intent_type'' (PStr [])) in
               if \<not> is_allowed intent_type (ic_identity ic)
               then (Inr (access_denied_response env intent_type ic), ic)
               else case route env (PDict intent) (ic_router ic) of
                 (Inl _, rt) \<Rightarrow> (Inr (safe_internal_error env), ic\<lparr>ic_router := rt\<rparr>)
               | (Inr command_result, rt) \<Rightarrow>
                   (let response = generate_response env (result_dict command_result) in
                    case process_post_action env clock command_result (ic\<lparr>ic_router := rt\<rparr>) of
                      (Inl e, ic') \<Rightarrow> (Inl e, ic')
                    | (Inr proactive_suffix, ic') \<Rightarrow>
                        (Inr (if proactive_suffix \<noteq> [] then response @ newline @ proactive_suffix else response), ic'))))"

section \<open>Shell\<close>

datatype shell_event = Line string | Interrupt | EndOfFile

definition HELP_TEXT :: string where
  "HELP_TEXT = ''Commands:'' @ newline @ ''  login owner|family|guest [user_id]'' @ newline @
     ''  schedule meeting tomorrow at 10'' @ newline @ ''  mark <task> completed'' @ newline @
     ''  cancel task <task>'' @ newline @ ''  /strategy <question>'' @ newline @ ''  help'' @ newline @ ''  exit''"

text \<open>
  The loop over what \<open>input_func\<close> delivers, with the texts given to \<open>output_func\<close>. Input that ends
  raises \<open>EOFError\<close>. The handler is a method of the controller that may raise.
\<close>

fun shell_loop :: "(string \<Rightarrow> ('s, string) prog) \<Rightarrow> shell_event list \<Rightarrow> 's \<Rightarrow> string list \<times> 's" where
  "shell_loop handler [] s = ([newline @ ''Session ended. Exiting APCOS CLI.''], s)"
| "shell_loop handler (EndOfFile # _) s = ([newline @ ''Session ended. Exiting APCOS CLI.''], s)"
| "shell_loop handler (Interrupt # _) s = ([newline @ ''Session interrupted. Exiting APCOS CLI.''], s)"
| "shell_loop handler (Line user_input # events) s =
     (let command = strip user_input; lowered = lower command in
      if lowered = ''exit'' \<or> lowered = ''quit'' then ([''Exiting APCOS CLI.''], s)
      else if lowered = ''help'' then
        (let (out, s') = shell_loop handler events s in (HELP_TEXT # out, s'))
      else if command = [] then
        (let (out, s') = shell_loop handler events s in (''Please enter a command.'' # out, s'))
      else case handler command s of
        (r, s1) \<Rightarrow>
          (let response = (case r of Inl _ \<Rightarrow> internal_error_text | Inr answer \<Rightarrow> answer);
               (out, s') = shell_loop handler events s1
           in (response # out, s')))"

definition run_shell :: "(string \<Rightarrow> ('s, string) prog) \<Rightarrow> shell_event list \<Rightarrow> 's \<Rightarrow> string list \<times> 's" where
  "run_shell handler events s =
     (let (out, s') = shell_loop handler events s in (''APCOS CLI ready. Type 'help' for commands.'' # out, s'))"

section \<open>Wiring\<close>

text \<open>The controller as \<open>build_app\<close> wires it, with a language model.\<close>

definition apcos_reasoning :: "py_env \<Rightarrow> string list \<Rightarrow> llm_client \<Rightarrow> reasoning_engine" where
  "apcos_reasoning env keys llm context = ret (generate_strategy env keys llm context)"

definition apcos_input :: "py_env \<Rightarrow> datetime \<Rightarrow> string list \<Rightarrow> llm_client \<Rightarrow> string \<Rightarrow> (interaction, string) prog" where
  "apcos_input env clock keys llm =
     handle_input env clock (parse_intent env clock) (apcos_reasoning env keys llm)"

end
