(* ===== verification/Interaction_Properties.thy ===== *)
theory Interaction_Properties
  imports Interaction
begin

text \<open>
  What the interaction layer guarantees over whole sessions: who may change tasks, that every input
  gets an answer, and what the answers can be.
\<close>

section \<open>Logging in\<close>

lemma upper_lower_char: "upper_char (lower_char c) = upper_char c"
proof -
  have "of_char c < (256::nat)" by (rule nat_of_char_less_256)
  moreover have "of_char (char_of (n::nat) :: char) = n" if "n < 256" for n using that by simp
  ultimately show ?thesis
    by (simp add: lower_char_def upper_char_def Let_def)
qed

lemma upper_lower: "upper (lower s) = upper s"
  by (induction s) (simp_all add: upper_def lower_def upper_lower_char)

lemma matches_alt_lit:
  "matches (Alt (lit u) (Alt (lit v) (lit w))) p q \<Longrightarrow>
   \<exists>t. ahead p = t @ ahead q \<and> (lower t = lower u \<or> lower t = lower v \<or> lower t = lower w) \<and> caps q = caps p
     \<and> q = advance t (ahead q) p"
  unfolding matches_simps(3) matches_lit lower_def by auto

lemma login_groups:
  assumes "re_match LOGIN_PATTERN s = Some groups"
  obtains t where "map_of groups ''tier'' = Some t" "lower t \<in> {''owner'', ''family'', ''guest''}"
    "\<And>u. map_of groups ''user_id'' = Some u \<Longrightarrow> u \<noteq> [] \<and> (\<forall>c\<in>set u. user_id_char c)"
proof -
  obtain q where q: "matches LOGIN_PATTERN (start_at [] s) q" "groups = caps q"
    using assms all_matches_iff by (fastforce simp: re_match_def split: list.splits)
  obtain p1 p2 p3 p4 p5 where p: "matches spaces (start_at [] s) p1" "matches (lit ''login'') p1 p2"
    "matches some_space p2 p3"
    "matches (Grp ''tier'' (Alt (lit ''owner'') (Alt (lit ''family'') (lit ''guest'')))) p3 p4"
    "matches (Opt (Seq some_space (Grp ''user_id'' (Plus (Cls user_id_char))))) p4 p5" "matches spaces p5 q"
    using q(1) unfolding LOGIN_PATTERN_def seqs_Cons matches_simps(6,7) by blast
  have c3: "caps p3 = []"
    using star_reads [OF p(1)] lit_reads [OF p(2)] some_reads [OF p(3)] by (auto simp: start_at_def)
  obtain q4 where q4: "matches (Alt (lit ''owner'') (Alt (lit ''family'') (lit ''guest''))) p3 q4"
    "p4 = capture ''tier'' p3 q4" using p(4) unfolding matches_simps(5) by blast
  obtain t where t: "ahead p3 = t @ ahead q4" "lower t \<in> {lower ''owner'', lower ''family'', lower ''guest''}"
    "caps q4 = caps p3" using matches_alt_lit [OF q4(1)] by blast
  then have c4: "caps p4 = [(''tier'', t)]" using q4(2) c3 by (simp add: capture_def)
  have low: "lower ''owner'' = ''owner''" "lower ''family'' = ''family''" "lower ''guest'' = ''guest''" by code_simp+
  have c5: "caps p5 = [(''tier'', t)] \<or> (\<exists>u. caps p5 = [(''user_id'', u), (''tier'', t)] \<and> u \<noteq> [] \<and> (\<forall>c\<in>set u. user_id_char c))"
  proof -
    from p(5) consider "p5 = p4" | r r' where "matches some_space p4 r" "matches (Plus (Cls user_id_char)) r r'"
      "p5 = capture ''user_id'' r r'"
      unfolding Opt_def matches_simps(1,2,3,5) by blast
    then show ?thesis
    proof cases
      case 1
      then show ?thesis using c4 by simp
    next
      case 2
      obtain u where "ahead r = u @ ahead r'" "u \<noteq> []" "\<forall>c\<in>set u. user_id_char c" "caps r' = caps r"
        using some_reads [OF 2(2)] by blast
      moreover have "caps r = caps p4" using some_reads [OF 2(1)] by blast
      ultimately show ?thesis using 2(3) c4 by (simp add: capture_def)
    qed
  qed
  have "groups = caps p5" using star_reads [OF p(6)] q(2) by auto
  then show thesis using that [of t] t(2) c5 unfolding low by auto
qed

lemma user_id_not_space: "user_id_char c \<Longrightarrow> \<not> is_space c"
  by (auto simp: user_id_char_def is_space_def Let_def)

lemma strip_proper: "\<forall>c\<in>set s. \<not> is_space c \<Longrightarrow> strip s = s"
proof (cases "s = []")
  case False
  assume "\<forall>c\<in>set s. \<not> is_space c"
  then have "\<not> is_space (hd s)" "\<not> is_space (last s)" using False by auto
  then show ?thesis using False by (simp add: strip_def dropWhile_idem_hd hd_rev)
qed (simp add: strip_def)

lemma login_tier:
  assumes "lower t \<in> {''owner'', ''family'', ''guest''}"
  shows "upper t \<in> set VALID_TIERS" "strip (upper t) = upper t" "upper (upper t) = upper t"
    "lower (upper t) @ ''_session'' \<noteq> []" "strip (lower (upper t) @ ''_session'') \<noteq> []"
proof -
  have up: "upper t = upper (lower t)" by (simp add: upper_lower)
  have "list_all (\<lambda>w. upper w \<in> set VALID_TIERS \<and> strip (upper w) = upper w \<and> upper (upper w) = upper w
      \<and> strip (lower (upper w) @ ''_session'') \<noteq> []) [''owner'', ''family'', ''guest'']"
    by code_simp
  then show "upper t \<in> set VALID_TIERS" "strip (upper t) = upper t" "upper (upper t) = upper t"
    "lower (upper t) @ ''_session'' \<noteq> []" "strip (lower (upper t) @ ''_session'') \<noteq> []"
    using assms unfolding up by auto
qed

text \<open>A login command never raises and always gives an authenticated identity of a valid tier.\<close>

lemma resolve_identity_cases:
  obtains "resolve_identity s = Inr None"
  | i where "resolve_identity s = Inr (Some i)" "id_tier i \<in> set VALID_TIERS" "id_authenticated i"
proof (cases "re_match LOGIN_PATTERN (strip s)")
  case None
  then show thesis using that(1) by (simp add: resolve_identity_def)
next
  case (Some groups)
  obtain t where t: "map_of groups ''tier'' = Some t" "lower t \<in> {''owner'', ''family'', ''guest''}"
    and user: "\<And>u. map_of groups ''user_id'' = Some u \<Longrightarrow> u \<noteq> [] \<and> (\<forall>c\<in>set u. user_id_char c)"
    using login_groups [OF Some] by blast
  note tier = login_tier [OF t(2)]
  have "strip (or_else (map_of groups ''user_id'') (lower (upper t) @ ''_session'')) \<noteq> []"
    using user tier(5) strip_proper user_id_not_space by (auto simp: or_else_def split: option.split)
  then show thesis
    using that(2) Some t(1) tier
    by (simp add: resolve_identity_def group_text_def make_identity_def Let_def)
qed

section \<open>What an input does to the router\<close>

lemma process_post_action_frame:
  "process_post_action env clock res ic = (r, ic') \<Longrightarrow> ic_router ic' = ic_router ic \<and> ic_identity ic' = ic_identity ic"
  by (auto simp: process_post_action_def Let_def split: prod.splits sum.splits if_splits)

lemma apcos_strategy_frame:
  "snd (handle_strategy_input env (apcos_reasoning env' keys llm) t ic) = ic"
  by (simp add: handle_strategy_input_def apcos_reasoning_def Let_def)

text \<open>The router is left alone, or routes one intent the identity is allowed to give.\<close>

lemma apcos_input_router:
  obtains "ic_router (snd (apcos_input env clock keys llm t ic)) = ic_router ic"
  | intent where "parse_intent env clock (strip t) = Inr intent"
      "is_allowed (py_str env (dict_get_or intent ''intent_type'' (PStr []))) (ic_identity ic)"
      "ic_router (snd (apcos_input env clock keys llm t ic)) = router_step (env, PDict intent) (ic_router ic)"
proof (cases "strip t = []")
  case True
  then show thesis using that(1) by (simp add: apcos_input_def handle_input_def)
next
  case False
  show thesis
  proof (cases rule: resolve_identity_cases [of "strip t"])
    case 1
    show thesis
    proof (cases "is_strategy_mode (strip t)")
      case True
      with False 1 have "ic_router (snd (apcos_input env clock keys llm t ic)) = ic_router ic"
        by (simp add: apcos_input_def handle_input_def Let_def apcos_strategy_frame split: prod.split)
           (metis apcos_strategy_frame snd_conv)
      then show thesis by (rule that(1))
    next
      case no: False
      show thesis
      proof (cases "parse_intent env clock (strip t)")
        case (Inl e)
        with False 1 no show thesis using that(1) by (simp add: apcos_input_def handle_input_def Let_def)
      next
        case (Inr intent)
        let ?allowed = "is_allowed (py_str env (dict_get_or intent ''intent_type'' (PStr []))) (ic_identity ic)"
        show thesis
        proof (cases ?allowed)
          case False
          with \<open>strip t \<noteq> []\<close> 1 no Inr show thesis
            using that(1) by (simp add: apcos_input_def handle_input_def Let_def)
        next
          case True
          have "ic_router (snd (apcos_input env clock keys llm t ic)) = snd (route env (PDict intent) (ic_router ic))"
            using True \<open>strip t \<noteq> []\<close> 1 no Inr
            by (auto simp: apcos_input_def handle_input_def Let_def split: prod.split sum.split
                dest: process_post_action_frame)
          then show thesis using that(2) [OF Inr True] by simp
        qed
      qed
    qed
  next
    case (2 i)
    with False show thesis using that(1) by (simp add: apcos_input_def handle_input_def Let_def)
  qed
qed

section \<open>Sessions\<close>

datatype session_op =
    InputOp py_env datetime "string list" llm_client string
  | IdentityOp identity_context

fun session_step :: "session_op \<Rightarrow> interaction \<Rightarrow> interaction" where
  "session_step (InputOp env clock keys llm t) ic = snd (apcos_input env clock keys llm t ic)"
| "session_step (IdentityOp identity) ic = set_identity identity ic"

definition session_inv :: "interaction \<Rightarrow> bool" where
  "session_inv ic \<longleftrightarrow> router_legacy (ic_router ic)"

definition session_after :: "interaction \<Rightarrow> interaction \<Rightarrow> bool" where
  "session_after ic ic' \<longleftrightarrow> router_extends (ic_router ic) (ic_router ic')"

lemma session_step_router:
  "ic_router (session_step x ic) = ic_router ic \<or>
   (\<exists>y. ic_router (session_step x ic) = router_step y (ic_router ic))"
proof (cases x)
  case (InputOp env clock keys llm t)
  show ?thesis
    by (cases rule: apcos_input_router [of env clock keys llm t ic]) (auto simp: InputOp)
qed (simp add: set_identity_def)

interpretation session_run: machine session_step session_inv session_after
proof
  fix s t u :: interaction and x
  show "session_inv s \<Longrightarrow> session_inv (session_step x s)"
    using session_step_router [of x s] router_legacy_run.step_inv by (auto simp: session_inv_def)
  show "session_inv s \<Longrightarrow> session_after s (session_step x s)"
    using session_step_router [of x s] router_legacy_run.step_after router_legacy_run.after_refl
    by (auto simp: session_inv_def session_after_def)
  show "session_after s s" by (simp add: session_after_def router_legacy_run.after_refl)
  show "session_after s t \<Longrightarrow> session_after t u \<Longrightarrow> session_after s u"
    using router_legacy_run.after_trans by (auto simp: session_after_def)
qed

lemma init_session:
  assumes "init_store key None default_options [] 0 = Inr s" and "init_router env0 s cl doc = Inr rt"
    and "init_interaction rt pc = Inr ic"
  shows "session_inv ic"
proof -
  note f = init_router_facts [OF assms(2)]
  have "never_active s"
    using init_store_fields [OF assms(1)] by (simp add: never_active_def abs_tasks_def find_row_def)
  then have "router_legacy rt" using f legacy_inv_init [OF assms(1)] by (simp add: router_legacy_def)
  moreover have "ic_router ic = rt" using assms(3) by (auto simp: init_interaction_def result_bind_Inr_iff)
  ultimately show ?thesis by (simp add: session_inv_def)
qed

lemma allowed_actions:
  assumes "is_allowed it i"
  shows "id_tier i = ''GUEST'' \<Longrightarrow> lower (strip it) = ''strategy''"
    "id_tier i \<noteq> ''OWNER'' \<Longrightarrow> lower (strip it) \<in> {''complete_task'', ''mark_completed'', ''strategy''}"
  using assms
  by (auto simp: is_allowed_def PERMISSIONS_def INTENT_TO_ACTION_def split: if_splits option.splits)

lemma normalized_intent_type:
  assumes "validate_and_normalize_intent env (PDict d) = Inr intent"
  shows "in_intent_type intent = lower (strip (py_str env (dict_get_or d ''intent_type'' (PStr []))))"
proof -
  have "dict_has d ''intent_type''"
    using assms by (auto simp: validate_and_normalize_intent_def REQUIRED_INTENT_KEYS_def split: if_splits)
  then have "dict_get_or d ''intent_type'' (PStr []) = dict_get d ''intent_type''" by (rule dict_get_or_has)
  moreover have "normalize_intent_type (dict_get d ''intent_type'') = Inr (in_intent_type intent)"
    using assms by (cases "dict_get d ''entities''")
      (auto simp: validate_and_normalize_intent_def result_bind_Inr_iff Let_def split: if_splits)
  ultimately show ?thesis by (cases "dict_get d ''intent_type''") (auto split: if_splits)
qed

text \<open>The parser only makes intents of four types.\<close>

lemma parsed_intent_type:
  assumes "parse_intent env clock t = Inr intent"
  shows "dict_get_or intent ''intent_type'' (PStr [])
    \<in> {PStr ''unknown'', PStr ''schedule_task'', PStr ''mark_completed'', PStr ''cancel_task''}"
  using assms by (auto simp: parse_intent_def Let_def make_intent_def dict_get_or_def result_bind_Inr_iff
      split: if_splits option.splits)

lemma lower_strip_types:
  "lower (strip ''unknown'') = ''unknown''" "lower (strip ''schedule_task'') = ''schedule_task''"
  "lower (strip ''mark_completed'') = ''mark_completed''" "lower (strip ''cancel_task'') = ''cancel_task''"
  by code_simp+

lemma non_owner_keeps_rows:
  assumes "session_inv ic" and "id_tier (ic_identity ic) \<noteq> ''OWNER''"
  shows "ts_rows (rt_task_store (ic_router (snd (apcos_input env clock keys llm t ic)))) =
      ts_rows (rt_task_store (ic_router ic))"
    "id_tier (ic_identity ic) = ''GUEST'' \<Longrightarrow> ic_router (snd (apcos_input env clock keys llm t ic)) = ic_router ic"
proof -
  have inv: "router_legacy (ic_router ic)" using assms(1) by (simp add: session_inv_def)
  have "ts_rows (rt_task_store (ic_router (snd (apcos_input env clock keys llm t ic)))) =
      ts_rows (rt_task_store (ic_router ic))
    \<and> (id_tier (ic_identity ic) = ''GUEST'' \<longrightarrow>
        ic_router (snd (apcos_input env clock keys llm t ic)) = ic_router ic)"
  proof (cases rule: apcos_input_router [of env clock keys llm t ic])
    case 1
    then show ?thesis by simp
  next
    case (2 intent)
    let ?it = "py_str env (dict_get_or intent ''intent_type'' (PStr []))"
    have types: "lower (strip ?it) \<in> {''unknown'', ''schedule_task'', ''mark_completed'', ''cancel_task''}"
      using parsed_intent_type [OF 2(1)] by (auto simp: lower_strip_types)
    then have no_guest: "id_tier (ic_identity ic) \<noteq> ''GUEST''" using allowed_actions(1) [OF 2(2)] by auto
    have "lower (strip ?it) = ''mark_completed''" using allowed_actions(2) [OF 2(2) assms(2)] types by auto
    then have "ts_rows (rt_task_store (snd (route env (PDict intent) (ic_router ic)))) = ts_rows (rt_task_store (ic_router ic))"
      by (intro legacy_completion_keeps_rows [OF inv]) (simp add: normalized_intent_type)
    with no_guest 2(3) show ?thesis by simp
  qed
  then show "ts_rows (rt_task_store (ic_router (snd (apcos_input env clock keys llm t ic)))) =
      ts_rows (rt_task_store (ic_router ic))"
    "id_tier (ic_identity ic) = ''GUEST'' \<Longrightarrow> ic_router (snd (apcos_input env clock keys llm t ic)) = ic_router ic"
    by blast+
qed

text \<open>
  C4. In the default configuration only the owner changes tasks: after any session of inputs, logins
  and identity changes, an input of a user of another tier leaves every row of the task table as it
  is, and an input of a guest does not reach the router at all, whatever the language model says.
\<close>

theorem only_the_owner_changes_tasks:
  assumes "init_store key None default_options [] 0 = Inr s" and "init_router env0 s cl doc = Inr rt"
    and "init_interaction rt pc = Inr ic0" and "ic = fold session_step ops ic0"
    and "id_tier (ic_identity ic) \<noteq> ''OWNER''"
  shows "ts_rows (rt_task_store (ic_router (snd (apcos_input env clock keys llm t ic)))) =
      ts_rows (rt_task_store (ic_router ic))
    \<and> (id_tier (ic_identity ic) = ''GUEST'' \<longrightarrow>
        ic_router (snd (apcos_input env clock keys llm t ic)) = ic_router ic)"
proof -
  have "session_inv ic" unfolding assms(4) by (rule session_run.run_inv [OF init_session [OF assms(1-3)]])
  then show ?thesis using non_owner_keeps_rows assms(5) by blast
qed

definition family_identity :: identity_context where
  "family_identity = \<lparr>id_user_id = ''ann'', id_tier = ''FAMILY'', id_authenticated = True\<rparr>"

lemma default_owner: "default_identity = Inr \<lparr>id_user_id = ''owner_session'', id_tier = ''OWNER'', id_authenticated = True\<rparr>"
  by code_simp

lemma sample_session:
  obtains s rt ic where "init_store ''k'' None default_options [] 0 = Inr s"
    "init_router stub_env s None (Some sample_config) = Inr rt" "init_interaction rt sample_controller = Inr ic"
proof (rule fresh_router)
  fix s rt
  assume "init_store ''k'' None default_options [] 0 = Inr s" "init_router stub_env s None (Some sample_config) = Inr rt"
  then show thesis using that by (simp add: init_interaction_def default_owner)
qed

theorem only_the_owner_changes_tasks_witness:
  "\<exists>s rt ic0 ic. init_store ''k'' None default_options [] 0 = Inr s
     \<and> init_router stub_env s None (Some sample_config) = Inr rt
     \<and> init_interaction rt sample_controller = Inr ic0 \<and> ic = fold session_step [IdentityOp family_identity] ic0
     \<and> id_tier (ic_identity ic) \<noteq> ''OWNER''
     \<and> ts_rows (rt_task_store (ic_router (snd (apcos_input stub_env (DateTime 0 None) reasoning_keys stub_llm
           ''cancel task milk'' ic)))) = ts_rows (rt_task_store (ic_router ic))"
proof (rule sample_session)
  fix s rt ic0
  assume init: "init_store ''k'' None default_options [] 0 = Inr s"
    "init_router stub_env s None (Some sample_config) = Inr rt" "init_interaction rt sample_controller = Inr ic0"
  let ?ic = "fold session_step [IdentityOp family_identity] ic0"
  have tier: "id_tier (ic_identity ?ic) \<noteq> ''OWNER''" by (simp add: set_identity_def family_identity_def)
  from only_the_owner_changes_tasks [OF init refl tier] init tier show ?thesis by blast
qed

section \<open>Answers\<close>

text \<open>A detector that sees nothing in the fixed context of the controller, as the default one does.\<close>

definition calm_detector :: "pattern_detector \<Rightarrow> bool" where
  "calm_detector pd \<longleftrightarrow> 0 \<le> pd_overload_threshold pd \<and> \<not> float_lt (Fin 1) (pd_goal_deviation_threshold pd)"

lemma detect_calm: "calm_detector pd \<Longrightarrow> detect env pd (build_proactive_context res) = Inr []"
  by (simp add: detect_def build_proactive_context_def dict_get_or_def calm_detector_def Let_def)

lemma scan_calm:
  assumes "calm_detector (pc_pattern_detector pc)"
  shows "\<exists>pc'. scan_proactive env clock (build_proactive_context res) pc = (Inr [], pc')"
  using detect_calm [OF assms] by (simp add: scan_proactive_def evaluate_proactive_def Let_def rank_suggestions_def)

lemma process_post_action_calm:
  assumes "calm_detector (pc_pattern_detector (ic_proactive ic))"
  shows "\<exists>ic'. process_post_action env clock res ic = (Inr [], ic')"
  using scan_calm [OF assms, of env clock res] by (auto simp: process_post_action_def Let_def)

text \<open>
  C18. Every input is answered: with the detector of the default wiring, or any detector that is calm,
  the controller returns a text for every input, every parser and every reasoning engine, whatever
  they raise. The answer to an executed command is the explanation alone: the scan for suggestions
  that follows it gets a context in which nothing can be found.
\<close>

theorem every_input_is_answered:
  assumes "calm_detector (pc_pattern_detector (ic_proactive ic))"
  shows "(\<exists>answer. fst (handle_input env clock parser reasoning t ic) = Inr answer)
    \<and> fst (process_post_action env clock res ic) = Inr []"
proof -
  have post: "\<exists>ic'. process_post_action env clock r (ic\<lparr>ic_router := rt\<rparr>) = (Inr [], ic')" for r rt
    using assms by (intro process_post_action_calm) simp
  have "\<exists>answer. fst (handle_input env clock parser reasoning t ic) = Inr answer"
  proof (cases rule: resolve_identity_cases [of "strip t"])
    case 1
    show ?thesis
    proof (cases "parser (strip t)")
      case (Inr intent)
      obtain r rt where r: "route env (PDict intent) (ic_router ic) = (r, rt)" by fastforce
      show ?thesis
      proof (cases r)
        case (Inl e)
        with 1 Inr r show ?thesis by (simp add: handle_input_def Let_def split: prod.split)
      next
        case ok: (Inr res)
        obtain ic' where "process_post_action env clock res (ic\<lparr>ic_router := rt\<rparr>) = (Inr [], ic')"
          using post by blast
        with 1 Inr r ok show ?thesis by (simp add: handle_input_def Let_def split: prod.split)
      qed
    qed (use 1 in \<open>simp add: handle_input_def Let_def split: prod.split\<close>)
  qed (simp add: handle_input_def Let_def)
  moreover obtain ic' where "process_post_action env clock res ic = (Inr [], ic')"
    using process_post_action_calm [OF assms] by blast
  ultimately show ?thesis by simp
qed

lemma default_detector_calm:
  "calm_detector \<lparr>pd_overload_threshold = 8, pd_goal_deviation_threshold = float_round (6 / 10)\<rparr>"
  using float_round_unit [of "6 / 10"] by (auto simp: calm_detector_def)

theorem every_input_is_answered_witness:
  "\<exists>s rt ic answer. init_store ''k'' None default_options [] 0 = Inr s
     \<and> init_router stub_env s None (Some sample_config) = Inr rt \<and> init_interaction rt sample_controller = Inr ic
     \<and> fst (handle_input stub_env (DateTime 0 None) (\<lambda>_. Inl KeyError) (\<lambda>_. raise_exc KeyError) ''hello'' ic) = Inr answer"
proof (rule sample_session)
  fix s rt ic
  assume init: "init_store ''k'' None default_options [] 0 = Inr s"
    "init_router stub_env s None (Some sample_config) = Inr rt" "init_interaction rt sample_controller = Inr ic"
  have "pc_pattern_detector (ic_proactive ic) = sample_detector"
    using init(3)
    by (auto simp: init_interaction_def default_owner sample_controller_def init_proactive_def outside_unit_def)
  then have "calm_detector (pc_pattern_detector (ic_proactive ic))"
    by (simp add: calm_detector_def sample_detector_def)
  from every_input_is_answered [OF this, of stub_env "DateTime 0 None" "\<lambda>_. Inl KeyError" "\<lambda>_. raise_exc KeyError" "''hello''"]
  show ?thesis using init by blast
qed

lemma denied_text: "access_denied_response env it ic = ''Access denied for your current identity tier.''"
  by (simp add: access_denied_response_def generate_response_def dict_get_def error_templates_def)

text \<open>
  A text the parser does not recognise is answered with the message that access is denied, for
  every tier, the owner included, and never reaches the router's own answers for such intents.
\<close>

theorem unrecognised_input_is_denied:
  assumes "strip t \<noteq> []" and "resolve_identity (strip t) = Inr None" and "\<not> is_strategy_mode (strip t)"
    and "re_match SCHEDULE_PATTERN (normalize_spaces (strip t)) = None"
    and "re_match MARK_COMPLETED_PATTERN (normalize_spaces (strip t)) = None"
    and "re_match CANCEL_PATTERN (normalize_spaces (strip t)) = None"
  shows "apcos_input env clock keys llm t ic = (Inr ''Access denied for your current identity tier.'', ic)"
proof -
  obtain entities conf where "parse_intent env clock (strip t) = Inr (make_intent env ''unknown'' entities clock conf)"
    using assms(4-6) by (cases "normalize_spaces (strip t) = []") (simp_all add: parse_intent_def Let_def)
  moreover have "\<not> is_allowed ''unknown'' (ic_identity ic)"
    by (simp add: is_allowed_def lower_strip_types INTENT_TO_ACTION_def)
  ultimately show ?thesis using assms(1-3)
    by (simp add: apcos_input_def handle_input_def Let_def make_intent_def dict_get_or_def denied_text)
qed

theorem unrecognised_input_is_denied_witness:
  "\<exists>s rt ic. init_store ''k'' None default_options [] 0 = Inr s
     \<and> init_router stub_env s None (Some sample_config) = Inr rt \<and> init_interaction rt sample_controller = Inr ic
     \<and> id_tier (ic_identity ic) = ''OWNER''
     \<and> apcos_input stub_env (DateTime 0 None) reasoning_keys stub_llm ''hello'' ic =
        (Inr ''Access denied for your current identity tier.'', ic)"
proof (rule sample_session)
  fix s rt ic
  assume init: "init_store ''k'' None default_options [] 0 = Inr s"
    "init_router stub_env s None (Some sample_config) = Inr rt" "init_interaction rt sample_controller = Inr ic"
  have "id_tier (ic_identity ic) = ''OWNER''"
    using init(3) by (auto simp: init_interaction_def default_owner)
  moreover have "strip ''hello'' \<noteq> []" "resolve_identity (strip ''hello'') = Inr None"
    "\<not> is_strategy_mode (strip ''hello'')"
    "re_match SCHEDULE_PATTERN (normalize_spaces (strip ''hello'')) = None"
    "re_match MARK_COMPLETED_PATTERN (normalize_spaces (strip ''hello'')) = None"
    "re_match CANCEL_PATTERN (normalize_spaces (strip ''hello'')) = None"
    by code_simp+
  ultimately show ?thesis using init unrecognised_input_is_denied [of "''hello''" stub_env] by blast
qed

definition stays_in_shell :: "shell_event \<Rightarrow> bool" where
  "stays_in_shell e = (case e of Line u \<Rightarrow> lower (strip u) \<noteq> ''exit'' \<and> lower (strip u) \<noteq> ''quit'' | _ \<Rightarrow> False)"

lemma shell_loop_outputs:
  "length (fst (shell_loop handler events s)) = Suc (length (takeWhile stays_in_shell events))"
  by (induction handler events s rule: shell_loop.induct)
    (auto simp: stays_in_shell_def Let_def split: prod.splits sum.splits)

text \<open>
  The shell prints one greeting, exactly one text for every line until the first line that leaves
  it or the end of the input, and one farewell, whatever the handler does or raises.
\<close>

theorem shell_answers_every_line:
  "length (fst (run_shell handler events s)) = length (takeWhile stays_in_shell events) + 2"
  using shell_loop_outputs [of handler events s] by (auto simp: run_shell_def Let_def split: prod.split)

end
