(* ===== verification/Resource_Governor.thy ===== *)
theory Resource_Governor
  imports Apcos_Prelude "HOL-Library.Transitive_Closure_Table"
begin

text \<open>
  Runtime protection: \<open>core/behavior/cpu_monitor.py\<close>, \<open>memory_monitor.py\<close>, \<open>power_state_manager.py\<close>,
  \<open>thread_limiter.py\<close>, \<open>resource_governor.py\<close>, and \<open>voice/model_manager.py\<close> with the timeout of
  \<open>voice/asr_engine_real.py\<close>, which the governor steers. What a sampler, a reader or the clock returns is
  an argument of the call. The thread limiter is also modelled as a relation of the interleaved steps of
  its callers, since its two counters are not changed together.
\<close>

section \<open>Monitors\<close>

record cpu_monitor =
  cm_threshold_percent :: pyfloat
  cm_window_size :: nat
  cm_window :: "pyfloat list"

definition init_cpu_monitor :: "pyfloat \<Rightarrow> int \<Rightarrow> exc + cpu_monitor" where
  "init_cpu_monitor threshold_percent window_size =
     (if window_size < 1 then Inl (ValueError ''window_size must be >= 1'')
      else Inr \<lparr>cm_threshold_percent = threshold_percent, cm_window_size = nat window_size, cm_window = []\<rparr>)"

text \<open>\<open>deque(maxlen=n).append\<close>.\<close>

definition bounded_append :: "nat \<Rightarrow> 'a list \<Rightarrow> 'a \<Rightarrow> 'a list" where
  "bounded_append n xs x = (let ys = xs @ [x] in drop (length ys - n) ys)"

definition current_usage :: "pyfloat \<Rightarrow> cpu_monitor \<Rightarrow> pyfloat \<times> cpu_monitor" where
  "current_usage sample cm =
     (let value = float_max (Fin 0) (float_min (Fin 100) sample)
      in (value, cm\<lparr>cm_window := bounded_append (cm_window_size cm) (cm_window cm) value\<rparr>))"

fun fin_value :: "pyfloat \<Rightarrow> rat" where
  "fin_value (Fin q) = q"
| "fin_value _ = 0"

text \<open>\<open>statistics.mean\<close> adds exactly and rounds once; the window holds finite floats only.\<close>

definition window_mean :: "pyfloat list \<Rightarrow> pyfloat" where
  "window_mean xs = float_round (sum_list (map fin_value xs) / of_nat (length xs))"

definition average_usage :: "pyfloat \<Rightarrow> cpu_monitor \<Rightarrow> pyfloat \<times> cpu_monitor" where
  "average_usage sample cm =
     (let cm' = (if cm_window cm = [] then snd (current_usage sample cm) else cm)
      in (if cm_window cm' \<noteq> [] then window_mean (cm_window cm') else Fin 0, cm'))"

definition is_over_threshold :: "pyfloat \<Rightarrow> cpu_monitor \<Rightarrow> bool \<times> cpu_monitor" where
  "is_over_threshold sample cm =
     (case average_usage sample cm of (average, cm') \<Rightarrow> (float_ge average (cm_threshold_percent cm'), cm'))"

text \<open>The memory monitor is its threshold.\<close>

definition current_usage_mb :: "pyfloat \<Rightarrow> pyfloat" where
  "current_usage_mb reading = float_max (Fin 0) reading"

definition is_pressure_high :: "pyfloat \<Rightarrow> pyfloat \<Rightarrow> bool" where
  "is_pressure_high threshold_mb reading = float_ge (current_usage_mb reading) threshold_mb"

section \<open>Power modes\<close>

datatype power_mode = NORMAL | LOW_POWER | CRITICAL

fun mode_value :: "power_mode \<Rightarrow> string" where
  "mode_value NORMAL = ''NORMAL''"
| "mode_value LOW_POWER = ''LOW_POWER''"
| "mode_value CRITICAL = ''CRITICAL''"

definition init_power_mode :: "string \<Rightarrow> power_mode" where
  "init_power_mode initial_mode =
     (if initial_mode = ''LOW_POWER'' then LOW_POWER else if initial_mode = ''CRITICAL'' then CRITICAL else NORMAL)"

definition update_mode :: "bool \<Rightarrow> bool \<Rightarrow> power_mode" where
  "update_mode cpu_over_threshold memory_pressure_high =
     (if cpu_over_threshold \<and> memory_pressure_high then CRITICAL
      else if cpu_over_threshold \<or> memory_pressure_high then LOW_POWER else NORMAL)"

record power_state_snapshot =
  ps_mode :: power_mode
  ps_cpu_over_threshold :: bool
  ps_memory_pressure_high :: bool

definition power_snapshot :: "bool \<Rightarrow> bool \<Rightarrow> power_state_snapshot" where
  "power_snapshot cpu_over memory_high =
     \<lparr>ps_mode = update_mode cpu_over memory_high, ps_cpu_over_threshold = cpu_over, ps_memory_pressure_high = memory_high\<rparr>"

section \<open>Thread limiter\<close>

record thread_limiter =
  tl_max_threads :: int
  tl_semaphore :: int
  tl_in_use :: int

definition init_limiter :: "int \<Rightarrow> exc + thread_limiter" where
  "init_limiter max_threads =
     (if max_threads < 1 then Inl (ValueError ''max_threads must be >= 1'')
      else Inr \<lparr>tl_max_threads = max_threads, tl_semaphore = max_threads, tl_in_use = 0\<rparr>)"

text \<open>
  The calls of one thread. A semaphore at zero for the whole wait makes \<open>acquire\<close> return \<open>False\<close>; a
  bounded semaphore that is released above its start value raises.
\<close>

definition acquire_slot :: "thread_limiter \<Rightarrow> bool \<times> thread_limiter" where
  "acquire_slot th =
     (if tl_semaphore th = 0 then (False, th)
      else (True, th\<lparr>tl_semaphore := tl_semaphore th - 1, tl_in_use := tl_in_use th + 1\<rparr>))"

definition release_semaphore :: "(thread_limiter, unit) prog" where
  "release_semaphore th =
     (if tl_semaphore th \<ge> tl_max_threads th then (Inl (ValueError ''Semaphore released too many times''), th)
      else (Inr (), th\<lparr>tl_semaphore := tl_semaphore th + 1\<rparr>))"

definition release_slot :: "(thread_limiter, unit) prog" where
  "release_slot th =
     (if tl_in_use th < 1 then (Inr (), th)
      else release_semaphore (th\<lparr>tl_in_use := tl_in_use th - 1\<rparr>))"

definition available_slots :: "thread_limiter \<Rightarrow> int" where
  "available_slots th = max 0 (tl_max_threads th - tl_in_use th)"

subsection \<open>Interleaved callers\<close>

text \<open>
  \<open>acquire_slot\<close> takes the semaphore and then counts under the lock; \<open>release_slot\<close> counts under the
  lock and then gives the semaphore back. Between the two steps other threads run: \<open>acquiring\<close> and
  \<open>releasing\<close> are the numbers of threads in between, \<open>raised\<close> whether a release has raised.
\<close>

record limiter_system =
  ls_limiter :: thread_limiter
  ls_acquiring :: int
  ls_releasing :: int
  ls_raised :: bool

inductive limiter_step :: "limiter_system \<Rightarrow> limiter_system \<Rightarrow> bool" where
  take_semaphore: "0 < tl_semaphore (ls_limiter s) \<Longrightarrow>
     limiter_step s (s\<lparr>ls_limiter := (ls_limiter s)\<lparr>tl_semaphore := tl_semaphore (ls_limiter s) - 1\<rparr>,
       ls_acquiring := ls_acquiring s + 1\<rparr>)"
| count_acquired: "0 < ls_acquiring s \<Longrightarrow>
     limiter_step s (s\<lparr>ls_limiter := (ls_limiter s)\<lparr>tl_in_use := tl_in_use (ls_limiter s) + 1\<rparr>,
       ls_acquiring := ls_acquiring s - 1\<rparr>)"
| count_released: "1 \<le> tl_in_use (ls_limiter s) \<Longrightarrow>
     limiter_step s (s\<lparr>ls_limiter := (ls_limiter s)\<lparr>tl_in_use := tl_in_use (ls_limiter s) - 1\<rparr>,
       ls_releasing := ls_releasing s + 1\<rparr>)"
| give_semaphore: "0 < ls_releasing s \<Longrightarrow> release_semaphore (ls_limiter s) = (r, th) \<Longrightarrow>
     limiter_step s (s\<lparr>ls_limiter := th, ls_releasing := ls_releasing s - 1,
       ls_raised := (ls_raised s \<or> (\<exists>e. r = Inl e))\<rparr>)"

definition idle_limiter :: "thread_limiter \<Rightarrow> limiter_system" where
  "idle_limiter th = \<lparr>ls_limiter = th, ls_acquiring = 0, ls_releasing = 0, ls_raised = False\<rparr>"

section \<open>Model manager\<close>

record asr_model =
  asr_estimated_bytes :: int

record model_loader =
  ml_takes_size :: bool
  ml_call :: "string option \<Rightarrow> exc + asr_model"

definition default_model_loader :: model_loader where
  "default_model_loader = \<lparr>ml_takes_size = True,
     ml_call = (\<lambda>z. Inr \<lparr>asr_estimated_bytes = (if z = Some ''SMALL'' \<or> z = None then 32 else 16)\<rparr>)\<rparr>"

record model_manager =
  mm_loader :: model_loader
  mm_model :: "asr_model option"
  mm_load_count :: int
  mm_estimated_model_bytes :: int
  mm_last_used_at :: pyfloat
  mm_model_size :: string
  mm_active_transcriptions :: int

definition init_manager :: "model_loader \<Rightarrow> model_manager" where
  "init_manager loader = \<lparr>mm_loader = loader, mm_model = None, mm_load_count = 0, mm_estimated_model_bytes = 0,
     mm_last_used_at = Fin 0, mm_model_size = ''SMALL'', mm_active_transcriptions = 0\<rparr>"

definition call_loader :: "model_loader \<Rightarrow> string \<Rightarrow> exc + asr_model" where
  "call_loader loader model_size =
     (case (if ml_takes_size loader then ml_call loader (Some model_size) else ml_call loader None) of
        Inr m \<Rightarrow> Inr m
      | Inl _ \<Rightarrow> ml_call loader None)"

definition load_asr_model :: "pyfloat \<Rightarrow> (model_manager, asr_model) prog" where
  "load_asr_model now mm =
     (case mm_model mm of
        Some m \<Rightarrow> (Inr m, mm\<lparr>mm_last_used_at := now\<rparr>)
      | None \<Rightarrow>
          (case call_loader (mm_loader mm) (mm_model_size mm) of
             Inl e \<Rightarrow> (Inl e, mm)
           | Inr m \<Rightarrow> (Inr m, mm\<lparr>mm_model := Some m, mm_load_count := mm_load_count mm + 1,
                mm_estimated_model_bytes := asr_estimated_bytes m, mm_last_used_at := now\<rparr>)))"

definition drop_model :: "model_manager \<Rightarrow> model_manager" where
  "drop_model mm = mm\<lparr>mm_model := None, mm_estimated_model_bytes := 0\<rparr>"

definition unload_asr_model :: "model_manager \<Rightarrow> model_manager" where
  "unload_asr_model mm = drop_model mm"

definition mark_transcription_start :: "pyfloat \<Rightarrow> model_manager \<Rightarrow> model_manager" where
  "mark_transcription_start now mm =
     mm\<lparr>mm_active_transcriptions := mm_active_transcriptions mm + 1, mm_last_used_at := now\<rparr>"

definition mark_transcription_end :: "pyfloat \<Rightarrow> model_manager \<Rightarrow> model_manager" where
  "mark_transcription_end now mm =
     mm\<lparr>mm_active_transcriptions := (if 0 < mm_active_transcriptions mm then mm_active_transcriptions mm - 1
          else mm_active_transcriptions mm), mm_last_used_at := now\<rparr>"

definition float_le_zero :: "pyfloat \<Rightarrow> bool" where
  "float_le_zero x \<longleftrightarrow> float_ge (Fin 0) x"

definition unload_if_idle :: "pyfloat \<Rightarrow> pyfloat \<Rightarrow> bool \<Rightarrow> model_manager \<Rightarrow> bool \<times> model_manager" where
  "unload_if_idle now idle_seconds force mm =
     (if float_le_zero idle_seconds \<and> \<not> force then (False, mm)
      else if mm_model mm = None then (False, mm)
      else if 0 < mm_active_transcriptions mm then (False, mm)
      else if \<not> force \<and> float_lt (float_sub now (mm_last_used_at mm)) idle_seconds then (False, mm)
      else (True, drop_model mm))"

definition downgrade_model :: "model_manager \<Rightarrow> bool \<times> model_manager" where
  "downgrade_model mm =
     (if mm_model_size mm = ''TINY'' then (False, mm) else (True, drop_model (mm\<lparr>mm_model_size := ''TINY''\<rparr>)))"

definition upgrade_model :: "model_manager \<Rightarrow> bool \<times> model_manager" where
  "upgrade_model mm =
     (if mm_model_size mm = ''SMALL'' then (False, mm) else (True, drop_model (mm\<lparr>mm_model_size := ''SMALL''\<rparr>)))"

section \<open>Governor\<close>

text \<open>
  The registered objects are parts of the governor's state: the model manager, the limiter, the power
  manager (its mode) and the speech engine (its timeout in seconds).
\<close>

record resource_governor =
  rg_cpu_monitor :: cpu_monitor
  rg_memory_threshold :: pyfloat
  rg_evaluation_interval :: pyfloat
  rg_model_downgrade_enabled :: bool
  rg_idle_unload_seconds :: pyfloat
  rg_model_manager :: "model_manager option"
  rg_thread_limiter :: "thread_limiter option"
  rg_power_manager :: "power_mode option"
  rg_asr_timeout :: "pyfloat option"
  rg_default_asr_timeout :: "pyfloat option"
  rg_evaluation_paused :: bool
  rg_cpu_budget_scale :: pyfloat

definition init_governor :: "cpu_monitor \<Rightarrow> pyfloat \<Rightarrow> pyfloat \<Rightarrow> bool \<Rightarrow> pyfloat \<Rightarrow> resource_governor" where
  "init_governor cm memory_threshold interval downgrade_enabled idle_unload_seconds =
     \<lparr>rg_cpu_monitor = cm, rg_memory_threshold = memory_threshold,
      rg_evaluation_interval = float_max (float_round (1 / 10)) interval,
      rg_model_downgrade_enabled = downgrade_enabled,
      rg_idle_unload_seconds = float_max (Fin 1) idle_unload_seconds, rg_model_manager = None,
      rg_thread_limiter = None, rg_power_manager = None, rg_asr_timeout = None, rg_default_asr_timeout = None,
      rg_evaluation_paused = False, rg_cpu_budget_scale = Fin 1\<rparr>"

definition register_model_manager :: "model_manager \<Rightarrow> resource_governor \<Rightarrow> resource_governor" where
  "register_model_manager mm rg = rg\<lparr>rg_model_manager := Some mm\<rparr>"

definition register_thread_pool :: "thread_limiter \<Rightarrow> resource_governor \<Rightarrow> resource_governor" where
  "register_thread_pool th rg = rg\<lparr>rg_thread_limiter := Some th\<rparr>"

definition register_power_manager :: "power_mode \<Rightarrow> resource_governor \<Rightarrow> resource_governor" where
  "register_power_manager mode rg = rg\<lparr>rg_power_manager := Some mode\<rparr>"

definition register_asr_engine :: "pyfloat \<Rightarrow> resource_governor \<Rightarrow> resource_governor" where
  "register_asr_engine timeout_seconds rg =
     rg\<lparr>rg_asr_timeout := Some timeout_seconds, rg_default_asr_timeout := Some timeout_seconds\<rparr>"

text \<open>\<open>ASREngine.set_timeout\<close>.\<close>

definition bounded_timeout :: "pyfloat \<Rightarrow> pyfloat" where
  "bounded_timeout t = float_max (float_round (5 / 100)) t"

definition set_asr_timeout :: "pyfloat \<Rightarrow> resource_governor \<Rightarrow> resource_governor" where
  "set_asr_timeout t rg = rg\<lparr>rg_asr_timeout := map_option (\<lambda>_. bounded_timeout t) (rg_asr_timeout rg)\<rparr>"

definition pause_evaluation :: "resource_governor \<Rightarrow> bool \<times> resource_governor" where
  "pause_evaluation rg = (\<not> rg_evaluation_paused rg, rg\<lparr>rg_evaluation_paused := True\<rparr>)"

definition resume_evaluation :: "resource_governor \<Rightarrow> bool \<times> resource_governor" where
  "resume_evaluation rg = (rg_evaluation_paused rg, rg\<lparr>rg_evaluation_paused := False\<rparr>)"

definition reduce_cpu_budget :: "pyfloat \<Rightarrow> resource_governor \<Rightarrow> bool \<times> resource_governor" where
  "reduce_cpu_budget budget_scale rg =
     (let target = float_max (float_round (1 / 10)) (float_min (Fin 1) budget_scale) in
      if float_ge target (rg_cpu_budget_scale rg) then (False, rg)
      else let rg' = rg\<lparr>rg_cpu_budget_scale := target\<rparr>
        in (True, case rg_asr_timeout rg of None \<Rightarrow> rg'
              | Some current \<Rightarrow> set_asr_timeout (float_min current (float_round (35 / 100))) rg'))"

definition force_model_downgrade :: "resource_governor \<Rightarrow> bool \<times> resource_governor" where
  "force_model_downgrade rg =
     (case rg_model_manager rg of
        None \<Rightarrow> (False, rg)
      | Some mm \<Rightarrow> (case downgrade_model mm of (b, mm') \<Rightarrow> (b, rg\<lparr>rg_model_manager := Some mm'\<rparr>)))"

definition force_model_unload :: "pyfloat \<Rightarrow> resource_governor \<Rightarrow> bool \<times> resource_governor" where
  "force_model_unload now rg =
     (case rg_model_manager rg of
        None \<Rightarrow> (False, rg)
      | Some mm \<Rightarrow> (case unload_if_idle now (Fin 0) True mm of (b, mm') \<Rightarrow> (b, rg\<lparr>rg_model_manager := Some mm'\<rparr>)))"

text \<open>The readings of one evaluation: the sampler, the memory reader twice, the clock.\<close>

record readings =
  rd_cpu :: pyfloat
  rd_memory :: pyfloat
  rd_memory_again :: pyfloat
  rd_monotonic :: pyfloat
  rd_time :: pyfloat

record governor_event =
  ge_timestamp :: pyfloat
  ge_cpu_usage_percent :: pyfloat
  ge_memory_usage_mb :: pyfloat
  ge_cpu_over_threshold :: bool
  ge_memory_pressure_high :: bool
  ge_power_mode :: string
  ge_thread_slots_available :: "int option"
  ge_evaluation_paused :: bool
  ge_cpu_budget_scale :: pyfloat
  ge_actions :: "string list"

text \<open>The block that acts on the models, then the block that sets the speech timeout.\<close>

definition govern_models ::
  "pyfloat \<Rightarrow> bool \<Rightarrow> bool \<Rightarrow> power_mode \<Rightarrow> resource_governor \<Rightarrow> model_manager \<Rightarrow> string list \<times> model_manager" where
  "govern_models now cpu_over memory_high mode rg mm0 =
     (let (first, mm1) =
        (if memory_high \<and> cpu_over then
           (case unload_if_idle now (Fin 0) True mm0 of (b, mm) \<Rightarrow> (if b then [''MODEL_UNLOADED_FORCE''] else [], mm))
         else if rg_model_downgrade_enabled rg \<and> (cpu_over \<or> memory_high) then
           (case downgrade_model mm0 of (b, mm) \<Rightarrow> (if b then [''MODEL_DOWNGRADED''] else [], mm))
         else if mode = NORMAL then
           (case upgrade_model mm0 of (b, mm) \<Rightarrow> (if b then [''MODEL_UPGRADED''] else [], mm))
         else ([], mm0));
        (idle, mm2) = unload_if_idle now (rg_idle_unload_seconds rg) False mm1
      in (first @ (if idle then [''MODEL_UNLOADED_IDLE''] else []), mm2))"

definition govern_timeout :: "bool \<Rightarrow> bool \<Rightarrow> power_mode \<Rightarrow> string \<Rightarrow> resource_governor \<Rightarrow> string list \<times> resource_governor" where
  "govern_timeout cpu_over memory_high mode current_size rg =
     (case rg_asr_timeout rg of
        None \<Rightarrow> ([], rg)
      | Some current \<Rightarrow>
          if (cpu_over \<or> memory_high) \<and> current_size = ''TINY''
          then ([''ASR_TIMEOUT_REDUCED''], set_asr_timeout (float_min current (float_round (5 / 10))) rg)
          else if mode = NORMAL
          then (case rg_default_asr_timeout rg of
                  None \<Rightarrow> ([], rg) | Some d \<Rightarrow> ([''ASR_TIMEOUT_RESTORED''], set_asr_timeout d rg))
          else ([], rg))"

definition evaluate_governor :: "readings \<Rightarrow> resource_governor \<Rightarrow> governor_event \<times> resource_governor" where
  "evaluate_governor rd rg0 =
     (let (cpu_usage, cm1) = current_usage (rd_cpu rd) (rg_cpu_monitor rg0);
          memory_usage_mb = current_usage_mb (rd_memory rd);
          (cpu_over, cm2) = is_over_threshold (rd_cpu rd) cm1;
          memory_high = is_pressure_high (rg_memory_threshold rg0) (rd_memory_again rd);
          mode = update_mode cpu_over memory_high;
          rg1 = rg0\<lparr>rg_cpu_monitor := cm2, rg_power_manager := Some mode\<rparr>;
          (actions, rg2) =
            (if rg_evaluation_paused rg1 then ([''EVALUATION_PAUSED''], rg1)
             else case rg_model_manager rg1 of
               None \<Rightarrow> ([], rg1)
             | Some mm \<Rightarrow>
                 (let (acts, mm') = govern_models (rd_monotonic rd) cpu_over memory_high mode rg1 mm;
                      (acts', rg2) = govern_timeout cpu_over memory_high mode (mm_model_size mm')
                         (rg1\<lparr>rg_model_manager := Some mm'\<rparr>)
                  in (acts @ acts', rg2)))
      in (\<lparr>ge_timestamp = rd_time rd, ge_cpu_usage_percent = cpu_usage, ge_memory_usage_mb = memory_usage_mb,
           ge_cpu_over_threshold = cpu_over, ge_memory_pressure_high = memory_high,
           ge_power_mode = mode_value mode,
           ge_thread_slots_available = map_option available_slots (rg_thread_limiter rg2),
           ge_evaluation_paused = rg_evaluation_paused rg2, ge_cpu_budget_scale = rg_cpu_budget_scale rg2,
           ge_actions = actions\<rparr>, rg2))"

section \<open>Interleavings of the limiter\<close>

inductive_cases limiter_stepE: "limiter_step s t"

definition limiter_inv :: "int \<Rightarrow> limiter_system \<Rightarrow> bool" where
  "limiter_inv n s \<longleftrightarrow> tl_max_threads (ls_limiter s) = n
     \<and> tl_semaphore (ls_limiter s) + tl_in_use (ls_limiter s) + ls_acquiring s + ls_releasing s = n
     \<and> 0 \<le> tl_semaphore (ls_limiter s) \<and> 0 \<le> tl_in_use (ls_limiter s) \<and> 0 \<le> ls_acquiring s
     \<and> 0 \<le> ls_releasing s \<and> \<not> ls_raised s"

lemma limiter_step_inv: "limiter_step s t \<Longrightarrow> limiter_inv n s \<Longrightarrow> limiter_inv n t"
  by (erule limiter_stepE) (auto simp: limiter_inv_def release_semaphore_def split: if_splits)

lemma limiter_run_inv: "limiter_step\<^sup>*\<^sup>* s t \<Longrightarrow> limiter_inv n s \<Longrightarrow> limiter_inv n t"
  by (induction rule: rtranclp_induct) (auto intro: limiter_step_inv)

text \<open>An undisturbed call of the model is a run of two steps.\<close>

lemma acquire_slot_steps:
  assumes "acquire_slot th = (True, th')" and "0 \<le> tl_semaphore th"
  shows "limiter_step\<^sup>*\<^sup>* (idle_limiter th) (idle_limiter th')"
proof -
  let ?s = "\<lparr>ls_limiter = th\<lparr>tl_semaphore := tl_semaphore th - 1\<rparr>, ls_acquiring = 1, ls_releasing = 0, ls_raised = False\<rparr>"
  have sem: "0 < tl_semaphore th" and th': "th' = th\<lparr>tl_semaphore := tl_semaphore th - 1, tl_in_use := tl_in_use th + 1\<rparr>"
    using assms by (auto simp: acquire_slot_def split: if_splits)
  have "limiter_step (idle_limiter th) ?s"
    using take_semaphore [of "idle_limiter th"] sem by (simp add: idle_limiter_def)
  moreover have "limiter_step ?s (idle_limiter th')"
    using count_acquired [of ?s] th' by (simp add: idle_limiter_def)
  ultimately show ?thesis by (meson converse_rtranclp_into_rtranclp rtranclp.rtrancl_refl)
qed

text \<open>
  C21. In every interleaving of any number of threads that acquire and release slots the counters stay
  within the limit, the slots taken and counted are never more than the limit, and the bounded
  semaphore never raises for a release too many.
\<close>

theorem thread_limiter_is_safe:
  assumes "init_limiter n = Inr th" and "limiter_step\<^sup>*\<^sup>* (idle_limiter th) s"
  shows "0 \<le> tl_in_use (ls_limiter s) \<and> tl_in_use (ls_limiter s) + ls_acquiring s + ls_releasing s \<le> n
    \<and> 0 \<le> tl_semaphore (ls_limiter s) \<and> tl_semaphore (ls_limiter s) \<le> n \<and> \<not> ls_raised s
    \<and> available_slots (ls_limiter s) = n - tl_in_use (ls_limiter s)"
proof -
  have "limiter_inv n (idle_limiter th)"
    using assms(1) by (auto simp: init_limiter_def limiter_inv_def idle_limiter_def split: if_splits)
  then have "limiter_inv n s" by (rule limiter_run_inv [OF assms(2)])
  then show ?thesis by (auto simp: limiter_inv_def available_slots_def)
qed

theorem thread_limiter_is_safe_witness:
  "\<exists>th s. init_limiter 1 = Inr th \<and> limiter_step\<^sup>*\<^sup>* (idle_limiter th) s \<and> tl_in_use (ls_limiter s) = 1
     \<and> available_slots (ls_limiter s) = 0"
proof -
  let ?th = "\<lparr>tl_max_threads = 1, tl_semaphore = 1, tl_in_use = 0\<rparr>"
  let ?th' = "\<lparr>tl_max_threads = 1, tl_semaphore = 0, tl_in_use = 1\<rparr>"
  have init: "init_limiter 1 = Inr ?th" by (simp add: init_limiter_def)
  have run: "limiter_step\<^sup>*\<^sup>* (idle_limiter ?th) (idle_limiter ?th')"
    by (rule acquire_slot_steps) (simp_all add: acquire_slot_def)
  from init run thread_limiter_is_safe [OF init run] show ?thesis by (auto simp: idle_limiter_def)
qed

section \<open>Runs of the governor\<close>

datatype governor_op =
    EvaluateGovernor readings
  | Pause
  | Resume
  | ReduceBudget pyfloat
  | ForceDowngrade
  | ForceUnload pyfloat
  | LoadModel pyfloat
  | StartTranscription pyfloat
  | EndTranscription pyfloat

definition on_manager :: "(model_manager \<Rightarrow> model_manager) \<Rightarrow> resource_governor \<Rightarrow> resource_governor" where
  "on_manager f rg = rg\<lparr>rg_model_manager := map_option f (rg_model_manager rg)\<rparr>"

fun governor_step :: "governor_op \<Rightarrow> resource_governor \<Rightarrow> resource_governor" where
  "governor_step (EvaluateGovernor rd) rg = snd (evaluate_governor rd rg)"
| "governor_step Pause rg = snd (pause_evaluation rg)"
| "governor_step Resume rg = snd (resume_evaluation rg)"
| "governor_step (ReduceBudget x) rg = snd (reduce_cpu_budget x rg)"
| "governor_step ForceDowngrade rg = snd (force_model_downgrade rg)"
| "governor_step (ForceUnload now) rg = snd (force_model_unload now rg)"
| "governor_step (LoadModel now) rg = on_manager (\<lambda>mm. snd (load_asr_model now mm)) rg"
| "governor_step (StartTranscription now) rg = on_manager (mark_transcription_start now) rg"
| "governor_step (EndTranscription now) rg = on_manager (mark_transcription_end now) rg"

definition manager_ok :: "model_manager \<Rightarrow> bool" where
  "manager_ok mm \<longleftrightarrow> (mm_model mm = None \<longrightarrow> mm_estimated_model_bytes mm = 0)
     \<and> (mm_model_size mm = ''SMALL'' \<or> mm_model_size mm = ''TINY'') \<and> 0 \<le> mm_active_transcriptions mm"

definition timeout_ok :: "pyfloat \<Rightarrow> bool" where
  "timeout_ok t \<longleftrightarrow> float_ge t (float_round (5 / 100))"

definition governor_ok :: "resource_governor \<Rightarrow> bool" where
  "governor_ok rg \<longleftrightarrow> float_ge (rg_cpu_budget_scale rg) (float_round (1 / 10)) \<and> float_ge (Fin 1) (rg_cpu_budget_scale rg)
     \<and> pred_option manager_ok (rg_model_manager rg) \<and> pred_option timeout_ok (rg_asr_timeout rg)"

definition budget_not_raised :: "resource_governor \<Rightarrow> resource_governor \<Rightarrow> bool" where
  "budget_not_raised rg rg' \<longleftrightarrow> \<not> float_lt (rg_cpu_budget_scale rg) (rg_cpu_budget_scale rg')
     \<and> (rg_cpu_budget_scale rg = NaN \<longleftrightarrow> rg_cpu_budget_scale rg' = NaN)"

lemma manager_ok_intros:
  "manager_ok mm \<Longrightarrow> manager_ok (drop_model mm)"
  "manager_ok mm \<Longrightarrow> manager_ok (snd (unload_if_idle now idle force mm))"
  "manager_ok mm \<Longrightarrow> manager_ok (snd (downgrade_model mm))"
  "manager_ok mm \<Longrightarrow> manager_ok (snd (upgrade_model mm))"
  "manager_ok mm \<Longrightarrow> manager_ok (snd (load_asr_model now mm))"
  "manager_ok mm \<Longrightarrow> manager_ok (mark_transcription_start now mm)"
  "manager_ok mm \<Longrightarrow> manager_ok (mark_transcription_end now mm)"
  by (auto simp: manager_ok_def drop_model_def unload_if_idle_def downgrade_model_def upgrade_model_def
      load_asr_model_def mark_transcription_start_def mark_transcription_end_def split: option.splits sum.splits)

lemma manager_ok_results:
  "downgrade_model mm = (b, mm') \<Longrightarrow> manager_ok mm \<Longrightarrow> manager_ok mm'"
  "unload_if_idle now idle force mm = (b, mm') \<Longrightarrow> manager_ok mm \<Longrightarrow> manager_ok mm'"
  by (metis manager_ok_intros(2,3) snd_conv)+

lemma govern_models_ok: "manager_ok mm \<Longrightarrow> manager_ok (snd (govern_models now c m mode rg mm))"
  unfolding govern_models_def Let_def
  by (auto split: prod.splits dest: manager_ok_intros(2-4) [where mm = mm])
    (metis manager_ok_intros(2-4) snd_conv)+

lemma bounded_timeout_ok: "timeout_ok (bounded_timeout t)"
proof -
  obtain x where "float_round (5 / 100) = Fin x" using float_round_unit [of "5 / 100"] by auto
  then show ?thesis by (cases t) (auto simp: timeout_ok_def bounded_timeout_def float_max_def)
qed

lemma float_lt_irrefl [simp]: "\<not> float_lt a a"
  by (cases a) auto

lemma set_asr_timeout_frame [simp]:
  "rg_model_manager (set_asr_timeout t rg) = rg_model_manager rg"
  "rg_cpu_budget_scale (set_asr_timeout t rg) = rg_cpu_budget_scale rg"
  "rg_evaluation_paused (set_asr_timeout t rg) = rg_evaluation_paused rg"
  "pred_option timeout_ok (rg_asr_timeout (set_asr_timeout t rg))"
  by (auto simp: set_asr_timeout_def bounded_timeout_ok option.pred_map comp_def pred_option_def)

lemma govern_timeout_frame:
  assumes "govern_timeout c m mode z rg = (acts, rg')"
  shows "rg_model_manager rg' = rg_model_manager rg" "rg_cpu_budget_scale rg' = rg_cpu_budget_scale rg"
    "rg_evaluation_paused rg' = rg_evaluation_paused rg"
    "pred_option timeout_ok (rg_asr_timeout rg) \<Longrightarrow> pred_option timeout_ok (rg_asr_timeout rg')"
  using assms by (auto simp: govern_timeout_def split: option.splits if_splits)

lemma evaluate_governor_cases:
  obtains cm mode where "rg_evaluation_paused rg \<or> rg_model_manager rg = None"
      "snd (evaluate_governor rd rg) = rg\<lparr>rg_cpu_monitor := cm, rg_power_manager := Some mode\<rparr>"
      "ge_actions (fst (evaluate_governor rd rg)) = (if rg_evaluation_paused rg then [''EVALUATION_PAUSED''] else [])"
  | mm cm mode c m acts where "\<not> rg_evaluation_paused rg" "rg_model_manager rg = Some mm"
      "govern_timeout c m mode (mm_model_size (snd (govern_models (rd_monotonic rd) c m mode
           (rg\<lparr>rg_cpu_monitor := cm, rg_power_manager := Some mode\<rparr>) mm)))
         (rg\<lparr>rg_cpu_monitor := cm, rg_power_manager := Some mode,
           rg_model_manager := Some (snd (govern_models (rd_monotonic rd) c m mode
             (rg\<lparr>rg_cpu_monitor := cm, rg_power_manager := Some mode\<rparr>) mm))\<rparr>)
       = (acts, snd (evaluate_governor rd rg))"
proof -
  obtain u cm1 where u: "current_usage (rd_cpu rd) (rg_cpu_monitor rg) = (u, cm1)" by fastforce
  obtain c cm2 where c: "is_over_threshold (rd_cpu rd) cm1 = (c, cm2)" by fastforce
  define m where "m = is_pressure_high (rg_memory_threshold rg) (rd_memory_again rd)"
  define mode where "mode = update_mode c m"
  let ?rg = "rg\<lparr>rg_cpu_monitor := cm2, rg_power_manager := Some mode\<rparr>"
  show thesis
  proof (cases "rg_evaluation_paused rg \<or> rg_model_manager rg = None")
    case True
    then have "snd (evaluate_governor rd rg) = ?rg"
      "ge_actions (fst (evaluate_governor rd rg)) = (if rg_evaluation_paused rg then [''EVALUATION_PAUSED''] else [])"
      by (auto simp: evaluate_governor_def u c Let_def m_def mode_def)
    with True show thesis by (rule that(1))
  next
    case False
    then obtain mm where mm: "rg_model_manager rg = Some mm" by auto
    obtain a mm' where g: "govern_models (rd_monotonic rd) c m mode ?rg mm = (a, mm')" by fastforce
    obtain a' rg' where t: "govern_timeout c m mode (mm_model_size mm') (?rg\<lparr>rg_model_manager := Some mm'\<rparr>) = (a', rg')"
      by fastforce
    have "snd (evaluate_governor rd rg) = rg'"
      using False mm g t by (simp add: evaluate_governor_def u c Let_def m_def [symmetric] mode_def [symmetric])
    then show thesis using that(2) [of mm c m mode cm2 a'] False mm g t by simp
  qed
qed

lemma governor_step_ok:
  assumes ok: "governor_ok rg"
  shows "governor_ok (governor_step x rg) \<and> budget_not_raised rg (governor_step x rg)"
proof (cases x)
  case (EvaluateGovernor rd)
  show ?thesis
  proof (cases rule: evaluate_governor_cases [of rg rd])
    case (1 cm mode)
    with ok EvaluateGovernor show ?thesis by (simp add: governor_ok_def budget_not_raised_def float_ge_not_lt)
  next
    case (2 mm cm mode c m acts)
    note f = govern_timeout_frame [OF 2(3)]
    have "manager_ok mm" "pred_option timeout_ok (rg_asr_timeout rg)" using ok 2(2) by (auto simp: governor_ok_def)
    with ok f EvaluateGovernor govern_models_ok show ?thesis
      by (simp add: governor_ok_def budget_not_raised_def)
  qed
next
  case (ReduceBudget b)
  let ?t = "float_max (float_round (1 / 10)) (float_min (Fin 1) b)"
  obtain q where q: "float_round (1 / 10) = Fin q" "q \<le> 1" using float_round_unit [of "1 / 10"] by auto
  then have t: "float_ge ?t (float_round (1 / 10))" "float_ge (Fin 1) ?t" "?t \<noteq> NaN"
    by (cases b; auto simp: float_max_def float_min_def)+
  have nn: "rg_cpu_budget_scale rg \<noteq> NaN" using ok by (auto simp: governor_ok_def)
  show ?thesis
  proof (cases "float_ge ?t (rg_cpu_budget_scale rg)")
    case True
    with ok ReduceBudget show ?thesis by (simp add: reduce_cpu_budget_def budget_not_raised_def Let_def)
  next
    case False
    then have "\<not> float_lt (rg_cpu_budget_scale rg) ?t"
      using t(3) nn by (cases ?t; cases "rg_cpu_budget_scale rg") auto
    then show ?thesis using ok ReduceBudget False t nn
      by (auto simp: reduce_cpu_budget_def budget_not_raised_def Let_def governor_ok_def split: option.splits)
  qed
qed (use ok in \<open>auto simp: governor_ok_def budget_not_raised_def pause_evaluation_def resume_evaluation_def
    force_model_downgrade_def force_model_unload_def on_manager_def option.pred_map pred_option_def
    split: option.splits prod.splits dest: manager_ok_results intro: manager_ok_intros\<close>)

lemma float_not_lt_trans:
  "\<not> float_lt a b \<Longrightarrow> \<not> float_lt b c \<Longrightarrow> b \<noteq> NaN \<Longrightarrow> \<not> float_lt a c"
  by (cases a; cases b; cases c) auto

interpretation governor_run: machine governor_step governor_ok budget_not_raised
proof
  fix s t u :: resource_governor and x
  show "governor_ok s \<Longrightarrow> governor_ok (governor_step x s)"
    and "governor_ok s \<Longrightarrow> budget_not_raised s (governor_step x s)"
    using governor_step_ok by blast+
  show "budget_not_raised s s" by (simp add: budget_not_raised_def)
  show "budget_not_raised s t \<Longrightarrow> budget_not_raised t u \<Longrightarrow> budget_not_raised s u"
    using float_not_lt_trans by (cases "rg_cpu_budget_scale t = NaN") (auto simp: budget_not_raised_def)
qed

text \<open>The governor as the voice session is wired: a fresh governor with its parts registered.\<close>

definition wired_governor ::
  "cpu_monitor \<Rightarrow> pyfloat \<Rightarrow> pyfloat \<Rightarrow> bool \<Rightarrow> pyfloat \<Rightarrow> model_loader \<Rightarrow> thread_limiter \<Rightarrow> string \<Rightarrow> pyfloat \<Rightarrow> resource_governor" where
  "wired_governor cm memory_threshold interval downgrade idle loader th power_name timeout_seconds =
     register_asr_engine (bounded_timeout timeout_seconds)
      (register_power_manager (init_power_mode power_name)
       (register_thread_pool th
        (register_model_manager (init_manager loader) (init_governor cm memory_threshold interval downgrade idle))))"

lemma wired_governor_ok: "governor_ok (wired_governor cm mt i d idle loader th power_name ts)"
proof -
  obtain q where "float_round (1 / 10) = Fin q" "q \<le> 1" using float_round_unit [of "1 / 10"] by auto
  then show ?thesis
    by (simp add: wired_governor_def governor_ok_def init_governor_def register_model_manager_def register_thread_pool_def
        register_power_manager_def register_asr_engine_def manager_ok_def init_manager_def bounded_timeout_ok)
qed


end
