(* ===== verification/Voice.thy ===== *)
theory Voice
  imports Interaction_Properties Resource_Governor
begin

text \<open>
  The voice pipeline: \<open>voice/thread_safe_queue.py\<close>, \<open>audio_stream.py\<close>, \<open>transcription_worker.py\<close>,
  \<open>wake_word.py\<close>, \<open>wake_word_engine.py\<close> (its trigger test and its life cycle), \<open>asr_engine_real.py\<close> (its text
  clean-up), \<open>voice_identity_stub.py\<close> and the session of \<open>voice_session.py\<close>. Audio is a list of bytes. What
  \<open>bytes.decode("utf-8", errors="ignore")\<close> gives, what the microphone delivers and what the model
  transcribes are arguments.
\<close>

type_synonym audio = "nat list"
type_synonym decoder = "audio \<Rightarrow> string"

section \<open>Bounded queue\<close>

record 'a ts_queue =
  tq_items :: "'a list"
  tq_max_size :: int
  tq_closed :: bool

definition init_queue :: "int \<Rightarrow> exc + 'a ts_queue" where
  "init_queue max_size =
     (if max_size < 1 then Inl (ValueError ''max_size must be >= 1'')
      else Inr \<lparr>tq_items = [], tq_max_size = max_size, tq_closed = False\<rparr>)"

text \<open>A queue that stays full, or empty, for the whole wait is refused, or gives nothing.\<close>

definition put_queue :: "'a \<Rightarrow> 'a ts_queue \<Rightarrow> bool \<times> 'a ts_queue" where
  "put_queue item q =
     (if tq_closed q then (False, q)
      else if tq_max_size q \<le> int (length (tq_items q)) then (False, q)
      else (True, q\<lparr>tq_items := tq_items q @ [item]\<rparr>))"

definition get_queue :: "'a ts_queue \<Rightarrow> 'a option \<times> 'a ts_queue" where
  "get_queue q =
     (if tq_closed q \<and> tq_items q = [] then (None, q)
      else case tq_items q of [] \<Rightarrow> (None, q) | x # xs \<Rightarrow> (Some x, q\<lparr>tq_items := xs\<rparr>))"

definition close_queue :: "'a ts_queue \<Rightarrow> 'a ts_queue" where
  "close_queue q = q\<lparr>tq_closed := True\<rparr>"

definition queue_size :: "'a ts_queue \<Rightarrow> nat" where
  "queue_size q = length (tq_items q)"

section \<open>Audio stream\<close>

record audio_stream =
  au_chunk_size :: nat
  au_max_buffer_chunks :: nat
  au_buffer :: "audio list"
  au_running :: bool
  au_dropped_chunks :: int

definition init_stream :: "int \<Rightarrow> int \<Rightarrow> exc + audio_stream" where
  "init_stream chunk_size max_buffer_chunks =
     (if chunk_size < 1 then Inl (ValueError ''chunk_size must be >= 1'')
      else if max_buffer_chunks < 1 then Inl (ValueError ''max_buffer_chunks must be >= 1'')
      else Inr \<lparr>au_chunk_size = nat chunk_size, au_max_buffer_chunks = nat max_buffer_chunks, au_buffer = [],
        au_running = False, au_dropped_chunks = 0\<rparr>)"

definition start_stream :: "audio_stream \<Rightarrow> audio_stream" where
  "start_stream au = au\<lparr>au_running := True\<rparr>"

definition stop_stream :: "audio_stream \<Rightarrow> audio_stream" where
  "stop_stream au = au\<lparr>au_running := False, au_buffer := []\<rparr>"

definition push_chunk :: "audio \<Rightarrow> audio_stream \<Rightarrow> audio_stream" where
  "push_chunk chunk au =
     (if chunk = [] then au
      else if \<not> au_running au then au
      else let au' = (if length (au_buffer au) = au_max_buffer_chunks au
                      then au\<lparr>au_buffer := List.tl (au_buffer au), au_dropped_chunks := au_dropped_chunks au + 1\<rparr>
                      else au)
        in au'\<lparr>au_buffer := au_buffer au' @ [take (au_chunk_size au') chunk]\<rparr>)"

text \<open>The source, if there is one, is asked only when nothing is buffered.\<close>

definition read_chunk :: "(nat \<Rightarrow> exc + audio) option \<Rightarrow> audio_stream \<Rightarrow> audio \<times> audio_stream" where
  "read_chunk source au =
     (if \<not> au_running au then ([], au)
      else case au_buffer au of
        x # xs \<Rightarrow> (x, au\<lparr>au_buffer := xs\<rparr>)
      | [] \<Rightarrow>
          (case source of
             None \<Rightarrow> ([], au)
           | Some f \<Rightarrow> (case f (au_chunk_size au) of Inl _ \<Rightarrow> ([], au) | Inr chunk \<Rightarrow> (take (au_chunk_size au) chunk, au))))"

section \<open>Wake words\<close>

definition init_trigger :: "string \<Rightarrow> exc + string" where
  "init_trigger trigger_phrase =
     (let normalized = normalize_spaces (strip (lower trigger_phrase)) in
      if normalized = [] then Inl (ValueError ''trigger_phrase must not be empty'') else Inr normalized)"

definition listen :: "string \<Rightarrow> string option \<Rightarrow> bool" where
  "listen trigger event =
     (case event of None \<Rightarrow> False | Some s \<Rightarrow> contains (normalize_spaces (strip (lower s))) trigger)"

text \<open>\<open>re.sub(r"\s+", " ", s)\<close>.\<close>

fun squeeze_spaces :: "bool \<Rightarrow> string \<Rightarrow> string" where
  "squeeze_spaces inside [] = []"
| "squeeze_spaces inside (c # cs) =
     (if is_space c then (if inside then [] else '' '') @ squeeze_spaces True cs else c # squeeze_spaces False cs)"

definition detect_trigger :: "decoder \<Rightarrow> string \<Rightarrow> audio \<Rightarrow> bool" where
  "detect_trigger decode trigger chunk \<longleftrightarrow>
     chunk \<noteq> [] \<and> contains (strip (squeeze_spaces False (lower (decode chunk)))) trigger"

record wake_engine =
  we_trigger :: string
  we_running :: bool
  we_wake_event :: bool

definition start_wake :: "wake_engine \<Rightarrow> wake_engine" where
  "start_wake we = we\<lparr>we_running := True\<rparr>"

definition stop_wake :: "wake_engine \<Rightarrow> wake_engine" where
  "stop_wake we = we\<lparr>we_running := False, we_wake_event := False\<rparr>"

definition wait_for_wake :: "wake_engine \<Rightarrow> bool \<times> wake_engine" where
  "wait_for_wake we = (we_wake_event we, we\<lparr>we_wake_event := False\<rparr>)"

text \<open>One round of the listener thread.\<close>

definition wake_round :: "decoder \<Rightarrow> (nat \<Rightarrow> exc + audio) option \<Rightarrow> wake_engine \<Rightarrow> audio_stream \<Rightarrow> wake_engine \<times> audio_stream" where
  "wake_round decode source we au =
     (if \<not> we_running we \<or> we_wake_event we then (we, au)
      else case read_chunk source au of
        (chunk, au') \<Rightarrow> (if detect_trigger decode (we_trigger we) chunk then we\<lparr>we_wake_event := True\<rparr> else we, au'))"

section \<open>Transcription worker\<close>

definition normalize_text :: "string \<Rightarrow> string" where
  "normalize_text s = normalize_spaces (strip (squeeze_controls False s))"

record transcription_worker =
  tw_audio_queue :: "audio ts_queue"
  tw_text_queue :: "string ts_queue"
  tw_thread_alive :: bool
  tw_thread_limiter :: "thread_limiter option"
  tw_slot_acquired :: bool
  tw_on_transcription :: "(string \<Rightarrow> exc + unit) option"

definition init_worker :: "int \<Rightarrow> thread_limiter option \<Rightarrow> exc + transcription_worker" where
  "init_worker max_queue_size limiter =
     result_bind (init_queue max_queue_size) (\<lambda>audio_queue.
     result_bind (init_queue max_queue_size) (\<lambda>text_queue.
     Inr \<lparr>tw_audio_queue = audio_queue, tw_text_queue = text_queue, tw_thread_alive = False,
          tw_thread_limiter = limiter, tw_slot_acquired = False, tw_on_transcription = None\<rparr>))"

definition set_on_transcription :: "(string \<Rightarrow> exc + unit) option \<Rightarrow> transcription_worker \<Rightarrow> transcription_worker" where
  "set_on_transcription callback tw = tw\<lparr>tw_on_transcription := callback\<rparr>"

definition start_worker :: "transcription_worker \<Rightarrow> bool \<times> transcription_worker" where
  "start_worker tw =
     (if tw_thread_alive tw then (True, tw)
      else case tw_thread_limiter tw of
        None \<Rightarrow> (True, tw\<lparr>tw_thread_alive := True\<rparr>)
      | Some th \<Rightarrow>
          (case acquire_slot th of
             (False, th') \<Rightarrow> (False, tw\<lparr>tw_thread_limiter := Some th', tw_slot_acquired := False\<rparr>)
           | (True, th') \<Rightarrow> (True, tw\<lparr>tw_thread_limiter := Some th', tw_slot_acquired := True, tw_thread_alive := True\<rparr>)))"

definition stop_worker :: "(transcription_worker, unit) prog" where
  "stop_worker tw =
     (let tw' = tw\<lparr>tw_audio_queue := close_queue (tw_audio_queue tw), tw_text_queue := close_queue (tw_text_queue tw),
                   tw_thread_alive := False\<rparr>
      in case tw_thread_limiter tw' of
        None \<Rightarrow> (Inr (), tw')
      | Some th \<Rightarrow>
          if \<not> tw_slot_acquired tw' then (Inr (), tw')
          else case release_slot th of
            (Inl e, th') \<Rightarrow> (Inl e, tw'\<lparr>tw_thread_limiter := Some th'\<rparr>)
          | (Inr _, th') \<Rightarrow> (Inr (), tw'\<lparr>tw_thread_limiter := Some th', tw_slot_acquired := False\<rparr>))"

definition submit_audio :: "audio \<Rightarrow> transcription_worker \<Rightarrow> bool \<times> transcription_worker" where
  "submit_audio audio_bytes tw =
     (if audio_bytes = [] then (False, tw)
      else case put_queue audio_bytes (tw_audio_queue tw) of (b, q) \<Rightarrow> (b, tw\<lparr>tw_audio_queue := q\<rparr>))"

definition get_transcription :: "transcription_worker \<Rightarrow> string option \<times> transcription_worker" where
  "get_transcription tw = (case get_queue (tw_text_queue tw) of (r, q) \<Rightarrow> (r, tw\<lparr>tw_text_queue := q\<rparr>))"

text \<open>
  One round of the worker thread, with what the engine transcribes. An exception of the engine or of the
  callback is not caught and ends the thread.
\<close>

definition worker_round :: "(audio \<Rightarrow> exc + string) \<Rightarrow> transcription_worker \<Rightarrow> transcription_worker" where
  "worker_round transcribe tw =
     (if \<not> tw_thread_alive tw then tw
      else case get_queue (tw_audio_queue tw) of
        (None, q) \<Rightarrow> tw\<lparr>tw_audio_queue := q\<rparr>
      | (Some audio, q) \<Rightarrow>
          (let tw1 = tw\<lparr>tw_audio_queue := q\<rparr> in
           case transcribe audio of
             Inl _ \<Rightarrow> tw1\<lparr>tw_thread_alive := False\<rparr>
           | Inr result \<Rightarrow>
               if result = [] then tw1
               else let tw2 = tw1\<lparr>tw_text_queue := snd (put_queue result (tw_text_queue tw1))\<rparr> in
                 case tw_on_transcription tw2 of
                   None \<Rightarrow> tw2
                 | Some callback \<Rightarrow>
                     (case callback result of Inl _ \<Rightarrow> tw2\<lparr>tw_thread_alive := False\<rparr> | Inr _ \<Rightarrow> tw2)))"

section \<open>Voice identity and session\<close>

definition resolve_voice_identity :: "decoder \<Rightarrow> audio \<Rightarrow> string option \<Rightarrow> exc + identity_context" where
  "resolve_voice_identity decode audio transcript =
     (let parts = (case transcript of Some (c # cs) \<Rightarrow> [lower (c # cs)] | _ \<Rightarrow> [])
            @ (if audio \<noteq> [] then [lower (decode audio)] else []);
          payload = join '' '' parts;
          tier = (if contains payload ''tier:guest'' then ''GUEST''
                  else if contains payload ''tier:family'' then ''FAMILY'' else ''OWNER'')
      in make_identity (lower tier @ ''_voice_session'') tier True)"

text \<open>
  \<open>VoiceSession.run_once\<close>: the wake event, the captured audio and the transcriber are arguments, the
  handler is \<open>handle_input\<close> of the controller.
\<close>

definition run_voice_once ::
  "decoder \<Rightarrow> string \<Rightarrow> string option \<Rightarrow> exc + audio \<Rightarrow> (audio \<Rightarrow> string)
   \<Rightarrow> (string \<Rightarrow> (interaction, string) prog) \<Rightarrow> (interaction, string option) prog" where
  "run_voice_once decode trigger event captured transcribe handler ic =
     (if \<not> listen trigger event then (Inr None, ic)
      else case captured of
        Inl _ \<Rightarrow> (Inr (Some internal_error_text), ic)
      | Inr audio \<Rightarrow>
          if audio = [] then (Inr (Some ''No speech detected.''), ic)
          else case resolve_voice_identity decode audio None of
            Inl e \<Rightarrow> (Inl e, ic)
          | Inr identity \<Rightarrow>
              (let ic' = set_identity identity ic; transcript = strip (transcribe audio) in
               if transcript = [] then (Inr (Some ''No speech detected.''), ic')
               else case handler transcript ic' of
                 (Inl _, ic'') \<Rightarrow> (Inr (Some internal_error_text), ic'')
               | (Inr response, ic'') \<Rightarrow> (Inr (Some response), ic'')))"

section \<open>Bounded buffers\<close>

text \<open>
  The contract of a buffer between threads: it never holds more than it has room for, a reader gets the
  oldest item, and a writer adds at the end, possibly losing items but never reordering or inventing
  one. What is written may be cut to size by \<open>cut\<close>.
\<close>

text \<open>A run of writes (\<open>Some x\<close>) and reads (\<open>None\<close>), with the items read.\<close>

fun fifo_run :: "('a \<Rightarrow> 'q \<Rightarrow> 'q) \<Rightarrow> ('q \<Rightarrow> 'a option \<times> 'q) \<Rightarrow> 'a option list \<Rightarrow> 'q \<Rightarrow> 'a list \<times> 'q" where
  "fifo_run push pop [] q = ([], q)"
| "fifo_run push pop (Some x # ops) q = fifo_run push pop ops (push x q)"
| "fifo_run push pop (None # ops) q =
     (case pop q of (r, q') \<Rightarrow> (case fifo_run push pop ops q' of
        (out, q'') \<Rightarrow> ((case r of None \<Rightarrow> out | Some x \<Rightarrow> x # out), q'')))"

definition written :: "'a option list \<Rightarrow> 'a list" where
  "written ops = concat (map (\<lambda>r. case r of None \<Rightarrow> [] | Some x \<Rightarrow> [x]) ops)"

locale bounded_fifo =
  fixes push :: "'a \<Rightarrow> 'q \<Rightarrow> 'q" and pop :: "'q \<Rightarrow> 'a option \<times> 'q"
    and items :: "'q \<Rightarrow> 'a list" and room :: "'q \<Rightarrow> nat" and cut :: "'q \<Rightarrow> 'a \<Rightarrow> 'a"
  assumes push_items: "subseq (items (push x q)) (items q @ [cut q x])"
    and push_bound: "0 < room q \<Longrightarrow> length (items q) \<le> room q \<Longrightarrow> length (items (push x q)) \<le> room q"
    and push_same: "room (push x q) = room q \<and> cut (push x q) = cut q"
    and pop_items: "pop q = (r, q') \<Longrightarrow> items q = (case r of None \<Rightarrow> [] | Some x \<Rightarrow> [x]) @ items q'"
    and pop_same: "pop q = (r, q') \<Longrightarrow> room q' = room q \<and> cut q' = cut q"
begin

lemma run_in_order:
  "fifo_run push pop ops q = (out, q') \<Longrightarrow> subseq (out @ items q') (items q @ map (cut q) (written ops))"
proof (induction ops arbitrary: q out)
  case Nil
  then show ?case by (simp add: written_def)
next
  case (Cons op ops)
  show ?case
  proof (cases op)
    case (Some x)
    then have "subseq (out @ items q') (items (push x q) @ map (cut (push x q)) (written ops))"
      using Cons by simp
    moreover have "subseq (items (push x q) @ map (cut q) (written ops)) ((items q @ [cut q x]) @ map (cut q) (written ops))"
      by (rule list_emb_append_mono [OF push_items subseq_order.refl])
    ultimately show ?thesis using Some push_same [of x q] by (simp add: written_def)
  next
    case None
    obtain r q1 where pop: "pop q = (r, q1)" by fastforce
    obtain out1 where run: "fifo_run push pop ops q1 = (out1, q')"
      and out: "out = (case r of None \<Rightarrow> out1 | Some x \<Rightarrow> x # out1)"
      using Cons.prems None pop by (auto split: prod.splits)
    have "subseq (out1 @ items q') (items q1 @ map (cut q1) (written ops))" by (rule Cons.IH [OF run])
    then show ?thesis
      using out pop_items [OF pop] pop_same [OF pop] None by (cases r) (simp_all add: written_def)
  qed
qed

lemma run_bound:
  "fifo_run push pop ops q = (out, q') \<Longrightarrow> 0 < room q \<Longrightarrow> length (items q) \<le> room q \<Longrightarrow> length (items q') \<le> room q"
proof (induction ops arbitrary: q out)
  case (Cons op ops)
  show ?case
  proof (cases op)
    case (Some x)
    with Cons.IH [of "push x q" out] Cons.prems push_bound [of q x] push_same [of x q] show ?thesis by simp
  next
    case None
    obtain r q1 where pop: "pop q = (r, q1)" by fastforce
    obtain out1 where run: "fifo_run push pop ops q1 = (out1, q')"
      using Cons.prems None pop by (auto split: prod.splits)
    have "length (items q1) \<le> room q1"
      using Cons.prems(3) pop_items [OF pop] pop_same [OF pop] by (cases r) auto
    from Cons.IH [OF run _ this] Cons.prems(2) pop_same [OF pop] show ?thesis by simp
  qed
qed simp

end

definition queue_room :: "'a ts_queue \<Rightarrow> nat" where
  "queue_room q = nat (tq_max_size q)"

interpretation voice_queue: bounded_fifo "\<lambda>x q. snd (put_queue x q)" get_queue tq_items queue_room "\<lambda>_ x. x"
proof
  fix x :: 'a and q q' :: "'a ts_queue" and r
  show "subseq (tq_items (snd (put_queue x q))) (tq_items q @ [x])"
    by (simp add: put_queue_def subseq_rev_drop_many)
  show "length (tq_items (snd (put_queue x q))) \<le> queue_room q" if "0 < queue_room q" "length (tq_items q) \<le> queue_room q"
    using that by (auto simp: put_queue_def queue_room_def)
  show "queue_room (snd (put_queue x q)) = queue_room q \<and> (\<lambda>x. x) = (\<lambda>x. x)" by (simp add: put_queue_def queue_room_def)
  show "tq_items q = (case r of None \<Rightarrow> [] | Some x \<Rightarrow> [x]) @ tq_items q'" if "get_queue q = (r, q')"
    using that by (auto simp: get_queue_def split: if_splits list.splits)
  show "queue_room q' = queue_room q \<and> (\<lambda>x. x) = (\<lambda>x. x)" if "get_queue q = (r, q')"
    using that by (auto simp: get_queue_def queue_room_def split: if_splits list.splits)
qed

text \<open>Reading from a stream without a source: empty bytes stand for nothing.\<close>

definition pop_chunk :: "audio_stream \<Rightarrow> audio option \<times> audio_stream" where
  "pop_chunk au = (case read_chunk None au of (chunk, au') \<Rightarrow>
     (if au_running au \<and> au_buffer au \<noteq> [] then Some chunk else None, au'))"

interpretation voice_stream: bounded_fifo push_chunk pop_chunk au_buffer au_max_buffer_chunks
  "\<lambda>au chunk. take (au_chunk_size au) chunk"
proof
  fix x :: audio and q q' :: audio_stream and r
  have tail: "subseq (List.tl (au_buffer q)) (au_buffer q)" by (cases "au_buffer q") auto
  show "subseq (au_buffer (push_chunk x q)) (au_buffer q @ [take (au_chunk_size q) x])"
    using tail by (simp add: push_chunk_def Let_def subseq_rev_drop_many)
  show "length (au_buffer (push_chunk x q)) \<le> au_max_buffer_chunks q" if "0 < au_max_buffer_chunks q" "length (au_buffer q) \<le> au_max_buffer_chunks q"
    using that by (cases "au_buffer q") (auto simp: push_chunk_def Let_def)
  show "au_max_buffer_chunks (push_chunk x q) = au_max_buffer_chunks q \<and>
      take (au_chunk_size (push_chunk x q)) = take (au_chunk_size q)"
    by (simp add: push_chunk_def Let_def)
  show "au_buffer q = (case r of None \<Rightarrow> [] | Some x \<Rightarrow> [x]) @ au_buffer q'" if "pop_chunk q = (r, q')"
    using that by (auto simp: pop_chunk_def read_chunk_def split: if_splits list.splits)
  show "au_max_buffer_chunks q' = au_max_buffer_chunks q \<and> take (au_chunk_size q') = take (au_chunk_size q)"
    if "pop_chunk q = (r, q')"
    using that by (auto simp: pop_chunk_def read_chunk_def split: if_splits list.splits)
qed

section \<open>Properties\<close>

text \<open>
  C29. Whatever is written to and read from the queues and the audio stream, in any interleaving, the
  buffers never hold more than their limit, and what comes out is what went in, in order and at most
  once each: items may be lost to the limit, never reordered, repeated or invented. Chunks of the
  stream are cut to the chunk size.
\<close>

theorem voice_buffers_keep_order:
  "(init_queue n = Inr q \<and> fifo_run (\<lambda>x q. snd (put_queue x q)) get_queue ops q = (out, q') \<longrightarrow>
      subseq (out @ tq_items q') (written ops) \<and> int (length (tq_items q')) \<le> n)
   \<and> (init_stream c m = Inr au \<and> fifo_run push_chunk pop_chunk chunks (start_stream au) = (heard, au') \<longrightarrow>
      subseq (heard @ au_buffer au') (map (take (nat c)) (written chunks)) \<and> int (length (au_buffer au')) \<le> m)"
proof (intro conjI impI; elim conjE)
  assume init: "init_queue n = Inr q" and run: "fifo_run (\<lambda>x q. snd (put_queue x q)) get_queue ops q = (out, q')"
  have q: "tq_items q = []" "queue_room q = nat n" "1 \<le> n"
    using init by (auto simp: init_queue_def queue_room_def split: if_splits)
  from voice_queue.run_in_order [OF run] q show "subseq (out @ tq_items q') (written ops)" by simp
  from voice_queue.run_bound [OF run] q show "int (length (tq_items q')) \<le> n" by simp
next
  assume init: "init_stream c m = Inr au" and run: "fifo_run push_chunk pop_chunk chunks (start_stream au) = (heard, au')"
  have au: "au_buffer (start_stream au) = []" "au_max_buffer_chunks (start_stream au) = nat m" "1 \<le> m"
      "au_chunk_size (start_stream au) = nat c"
    using init by (auto simp: init_stream_def start_stream_def split: if_splits)
  from voice_stream.run_in_order [OF run] au
  show "subseq (heard @ au_buffer au') (map (take (nat c)) (written chunks))" by simp
  from voice_stream.run_bound [OF run] au show "int (length (au_buffer au')) \<le> m" by simp
qed

theorem voice_buffers_keep_order_witness:
  "\<exists>au heard au'. init_stream 2 1 = Inr au
     \<and> fifo_run push_chunk pop_chunk [Some [1, 2, 3], Some [4], None] (start_stream au) = (heard, au')
     \<and> heard = [[4]] \<and> subseq (heard @ au_buffer au') (map (take (nat 2)) (written [Some [1, 2, 3], Some [4], None]))"
proof -
  let ?au = "\<lparr>au_chunk_size = 2, au_max_buffer_chunks = 1, au_buffer = [], au_running = False, au_dropped_chunks = 0\<rparr>"
  let ?ops = "[Some [1, 2, 3], Some [4], None :: audio option]"
  have init: "init_stream 2 1 = Inr ?au" by (simp add: init_stream_def)
  obtain heard au' where run: "fifo_run push_chunk pop_chunk ?ops (start_stream ?au) = (heard, au')" by fastforce
  have "heard = [[4]]" using run by (auto simp: start_stream_def push_chunk_def pop_chunk_def read_chunk_def Let_def)
  with init run voice_buffers_keep_order [of _ _ _ _ _ 2 1 ?au ?ops heard au'] show ?thesis by blast
qed

section \<open>The worker after a stop\<close>

datatype worker_op = StartWorker | StopWorker | Submit audio | Fetch | Round "audio \<Rightarrow> exc + string"

fun worker_step :: "worker_op \<Rightarrow> transcription_worker \<Rightarrow> transcription_worker" where
  "worker_step StartWorker tw = snd (start_worker tw)"
| "worker_step StopWorker tw = snd (stop_worker tw)"
| "worker_step (Submit a) tw = snd (submit_audio a tw)"
| "worker_step Fetch tw = snd (get_transcription tw)"
| "worker_step (Round f) tw = worker_round f tw"

definition deaf :: "transcription_worker \<Rightarrow> bool" where
  "deaf tw \<longleftrightarrow> tq_closed (tw_audio_queue tw)"

lemma queue_closed_kept:
  "put_queue x q = (b, q') \<Longrightarrow> tq_closed q' = tq_closed q"
  "get_queue q = (r, q') \<Longrightarrow> tq_closed q' = tq_closed q"
  by (auto simp: put_queue_def get_queue_def split: list.splits if_splits)

lemma stop_worker_deaf: "deaf (snd (stop_worker tw))"
  by (auto simp: deaf_def stop_worker_def Let_def close_queue_def split: option.splits prod.splits sum.splits)

lemma worker_step_deaf: "deaf tw \<Longrightarrow> deaf (worker_step op tw)"
proof (cases op)
  case StopWorker
  then show ?thesis by (simp add: stop_worker_deaf)
qed (auto simp: deaf_def start_worker_def submit_audio_def get_transcription_def worker_round_def Let_def
    split: option.splits prod.splits bool.splits sum.splits dest: queue_closed_kept)

lemma worker_run_deaf: "deaf tw \<Longrightarrow> deaf (fold worker_step ops tw)"
  by (induction ops arbitrary: tw) (simp_all add: worker_step_deaf)

text \<open>
  A transcription worker that has been stopped never takes audio again: stopping closes its queues
  for good, and no sequence of starts and other calls opens them, although \<open>start\<close> reports success
  whenever a thread slot is free.
\<close>

theorem stopped_worker_stays_deaf:
  "fst (submit_audio a (fold worker_step ops (snd (stop_worker tw)))) = False
   \<and> (tw_thread_limiter tw = None \<longrightarrow> fst (start_worker (snd (stop_worker tw))) = True)"
proof
  have "deaf (fold worker_step ops (snd (stop_worker tw)))" by (intro worker_run_deaf stop_worker_deaf)
  then show "fst (submit_audio a (fold worker_step ops (snd (stop_worker tw)))) = False"
    by (simp add: deaf_def submit_audio_def put_queue_def)
  show "tw_thread_limiter tw = None \<longrightarrow> fst (start_worker (snd (stop_worker tw))) = True"
    by (simp add: start_worker_def stop_worker_def Let_def)
qed

definition sample_worker :: transcription_worker where
  "sample_worker = \<lparr>tw_audio_queue = \<lparr>tq_items = [], tq_max_size = 32, tq_closed = False\<rparr>,
     tw_text_queue = \<lparr>tq_items = [], tq_max_size = 32, tq_closed = False\<rparr>, tw_thread_alive = True,
     tw_thread_limiter = None, tw_slot_acquired = False, tw_on_transcription = None\<rparr>"

theorem stopped_worker_stays_deaf_witness:
  "init_worker 32 None = Inr (sample_worker\<lparr>tw_thread_alive := False\<rparr>) \<and> fst (submit_audio [1] sample_worker)
   \<and> fst (start_worker (snd (stop_worker sample_worker)))
   \<and> \<not> fst (submit_audio [1] (fold worker_step [StartWorker] (snd (stop_worker sample_worker))))"
proof -
  have "tw_thread_limiter sample_worker = None" by (simp add: sample_worker_def)
  then show ?thesis using stopped_worker_stays_deaf [of "[1]" "[StartWorker]" sample_worker]
    by (simp add: init_worker_def init_queue_def sample_worker_def submit_audio_def put_queue_def)
qed

section \<open>A worker that crashes\<close>

text \<open>One life of a worker: it is started, gets audio, and the transcription raises.\<close>

definition short_life :: "(audio \<Rightarrow> exc + string) \<Rightarrow> audio \<Rightarrow> transcription_worker \<Rightarrow> transcription_worker" where
  "short_life transcribe a tw = worker_round transcribe (snd (submit_audio a (snd (start_worker tw))))"

lemma short_lives:
  assumes "init_limiter n = Inr th" and "init_worker m (Some th) = Inr tw" and "a \<noteq> []" and "transcribe a = Inl e" and "int k \<le> n"
  shows "(short_life transcribe a ^^ k) tw =
    tw\<lparr>tw_thread_limiter := Some (th\<lparr>tl_semaphore := n - int k, tl_in_use := int k\<rparr>), tw_slot_acquired := (0 < k)\<rparr>"
  using assms(5)
proof (induction k)
  case 0
  show ?case using assms(1,2) by (auto simp: init_limiter_def init_worker_def init_queue_def split: if_splits)
next
  case (Suc k)
  have tw: "\<not> tw_thread_alive tw" "tw_audio_queue tw = \<lparr>tq_items = [], tq_max_size = m, tq_closed = False\<rparr>" "1 \<le> m"
    using assms(2) by (auto simp: init_worker_def init_queue_def split: if_splits)
  have th: "tl_max_threads th = n" using assms(1) by (auto simp: init_limiter_def split: if_splits)
  have "(short_life transcribe a ^^ Suc k) tw = short_life transcribe a ((short_life transcribe a ^^ k) tw)" by simp
  also have "\<dots> = short_life transcribe a
      (tw\<lparr>tw_thread_limiter := Some (th\<lparr>tl_semaphore := n - int k, tl_in_use := int k\<rparr>), tw_slot_acquired := (0 < k)\<rparr>)"
    using Suc by simp
  also have "\<dots> = tw\<lparr>tw_thread_limiter := Some (th\<lparr>tl_semaphore := n - int (Suc k), tl_in_use := int (Suc k)\<rparr>), tw_slot_acquired := True\<rparr>"
    using Suc.prems tw assms(3,4)
    by (cases tw) (simp add: short_life_def start_worker_def acquire_slot_def submit_audio_def put_queue_def worker_round_def get_queue_def Let_def)
  finally show ?case by simp
qed

text \<open>
  C28. A worker whose thread dies of an exception keeps its thread slot, and the next start takes another
  one: after as many crashes as the limiter has slots no thread is running, no slot is free, and the
  worker cannot be started again.
\<close>

theorem crashed_worker_leaks_slots:
  assumes "init_limiter n = Inr th" and "init_worker m (Some th) = Inr tw" and "a \<noteq> []" and "transcribe a = Inl e"
  shows "\<not> tw_thread_alive ((short_life transcribe a ^^ nat n) tw)
    \<and> map_option available_slots (tw_thread_limiter ((short_life transcribe a ^^ nat n) tw)) = Some 0
    \<and> fst (start_worker ((short_life transcribe a ^^ nat n) tw)) = False"
proof -
  have n: "1 \<le> n" "tl_max_threads th = n" using assms(1) by (auto simp: init_limiter_def split: if_splits)
  have "\<not> tw_thread_alive tw" using assms(2) by (auto simp: init_worker_def init_queue_def split: if_splits)
  then show ?thesis
    using n short_lives [of n th m tw a transcribe e "nat n", OF assms] by (simp add: start_worker_def acquire_slot_def available_slots_def)
qed

theorem crashed_worker_leaks_slots_witness:
  "\<exists>th tw. init_limiter 2 = Inr th \<and> init_worker 32 (Some th) = Inr tw \<and> fst (start_worker tw)
     \<and> \<not> fst (start_worker ((short_life (\<lambda>_. Inl TypeError) [1] ^^ nat 2) tw))"
proof -
  let ?th = "\<lparr>tl_max_threads = 2, tl_semaphore = 2, tl_in_use = 0\<rparr>"
  have th: "init_limiter 2 = Inr ?th" by (simp add: init_limiter_def)
  obtain tw where tw: "init_worker 32 (Some ?th) = Inr tw" by (simp add: init_worker_def init_queue_def)
  have "fst (start_worker tw)" using tw by (auto simp: init_worker_def init_queue_def start_worker_def acquire_slot_def)
  with th tw crashed_worker_leaks_slots [OF th tw, of "[1]" "\<lambda>_. Inl TypeError" TypeError] show ?thesis by blast
qed

section \<open>Voice sessions\<close>

lemma voice_identity_marked:
  assumes "contains (lower (decode a)) ''tier:guest''" and "a \<noteq> []"
  shows "resolve_voice_identity decode a None =
    Inr \<lparr>id_user_id = ''guest_voice_session'', id_tier = ''GUEST'', id_authenticated = True\<rparr>"
proof -
  have "make_identity (lower ''GUEST'' @ ''_voice_session'') ''GUEST'' True =
      Inr \<lparr>id_user_id = ''guest_voice_session'', id_tier = ''GUEST'', id_authenticated = True\<rparr>" by code_simp
  with assms show ?thesis by (simp add: resolve_voice_identity_def)
qed

text \<open>
  Speech that carries the guest marker cannot change tasks: in the default configuration one voice
  cycle on it leaves the router as it is, whatever was said before, is transcribed, or the language
  model answers, even when the transcript is a login command.
\<close>

theorem guest_speech_changes_nothing:
  assumes "init_store key None default_options [] 0 = Inr s" and "init_router env0 s cl doc = Inr rt"
    and "init_interaction rt pc = Inr ic0" and "ic = fold session_step ops ic0"
    and "contains (lower (decode a)) ''tier:guest''"
  shows "ic_router (snd (run_voice_once decode trigger event (Inr a) transcribe (apcos_input env clock keys llm) ic)) =
    ic_router ic"
proof -
  have inv: "session_inv ic" unfolding assms(4) by (rule session_run.run_inv [OF init_session [OF assms(1-3)]])
  show ?thesis
  proof (cases "a = [] \<or> \<not> listen trigger event")
    case True
    then show ?thesis by (auto simp: run_voice_once_def)
  next
    case False
    let ?g = "\<lparr>id_user_id = ''guest_voice_session'', id_tier = ''GUEST'', id_authenticated = True\<rparr>"
    let ?ic = "set_identity ?g ic"
    have "session_inv ?ic" "id_tier (ic_identity ?ic) = ''GUEST''"
      using inv by (simp_all add: session_inv_def set_identity_def)
    from non_owner_keeps_rows(2) [OF this(1) _ this(2)] this(2)
    have "ic_router (snd (apcos_input env clock keys llm t ?ic)) = ic_router ic" for t
      by (simp add: set_identity_def)
    then show ?thesis
      using False voice_identity_marked [of decode a] assms(5)
      by (auto simp: run_voice_once_def Let_def set_identity_def split: prod.split sum.split) (metis snd_conv)+
  qed
qed

theorem guest_speech_changes_nothing_witness:
  "\<exists>s rt ic. init_store ''k'' None default_options [] 0 = Inr s
     \<and> init_router stub_env s None (Some sample_config) = Inr rt \<and> init_interaction rt sample_controller = Inr ic
     \<and> ic_router (snd (run_voice_once (map char_of) ''hey'' (Some ''hey'') (Inr (map of_char ''tier:guest''))
          (\<lambda>_. ''login owner'') (apcos_input stub_env (DateTime 0 None) reasoning_keys stub_llm) ic)) = ic_router ic"
proof (rule sample_session)
  fix s rt ic
  assume init: "init_store ''k'' None default_options [] 0 = Inr s"
    "init_router stub_env s None (Some sample_config) = Inr rt" "init_interaction rt sample_controller = Inr ic"
  have "contains (lower (map char_of (map of_char ''tier:guest'' :: audio))) ''tier:guest''" by code_simp
  with guest_speech_changes_nothing [of "''k''" s stub_env None "Some sample_config" rt sample_controller ic ic "[]"
      "map char_of" "map of_char ''tier:guest''"] init show ?thesis by auto
qed

end
