(* ===== verification/Hardware.thy ===== *)
theory Hardware
  imports Voice
begin

text \<open>
  The hardware layer \<open>services/hardware/\<close>: battery and thermal monitors, microphone health, sleep
  control, capability detection and the device state manager that signals the governor. What a reader
  or probe returns, or that it raises, is an argument of the call; the battery and the thermal reader
  are asked anew by every method, so one evaluation takes several readings.
\<close>

section \<open>Battery\<close>

datatype battery_reading = NoReading | Unreadable | Percent pyfloat

record battery_monitor =
  bm_low_percent :: pyfloat
  bm_critical_percent :: pyfloat

definition init_battery :: "pyfloat \<Rightarrow> pyfloat \<Rightarrow> exc + battery_monitor" where
  "init_battery low critical =
     (if float_lt low (Fin 0) \<or> float_lt critical (Fin 0) then Inl (ValueError ''battery thresholds must be >= 0'')
      else if float_lt low critical then Inl (ValueError ''critical_percent must be <= low_percent'')
      else Inr \<lparr>bm_low_percent = low, bm_critical_percent = critical\<rparr>)"

definition level_percent :: "exc + battery_reading \<Rightarrow> exc + pyfloat" where
  "level_percent reading =
     result_bind reading (\<lambda>r. Inr (case r of
        NoReading \<Rightarrow> Fin 100 | Unreadable \<Rightarrow> Fin 100
      | Percent p \<Rightarrow> float_max (Fin 0) (float_min (Fin 100) p)))"

definition battery_is_low :: "battery_monitor \<Rightarrow> exc + battery_reading \<Rightarrow> exc + bool" where
  "battery_is_low bm reading = result_bind (level_percent reading) (\<lambda>p. Inr (float_ge (bm_low_percent bm) p))"

definition battery_is_critical :: "battery_monitor \<Rightarrow> exc + battery_reading \<Rightarrow> exc + bool" where
  "battery_is_critical bm reading = result_bind (level_percent reading) (\<lambda>p. Inr (float_ge (bm_critical_percent bm) p))"

section \<open>Temperature\<close>

text \<open>What a temperature reader may return: objects are known by their \<open>current\<close>, if it converts.\<close>

datatype thermal_payload =
    NoSample
  | Number pyfloat
  | Samples "thermal_payload list"
  | Sensors "(string \<times> thermal_payload) list"
  | Sensor "pyfloat option"

fun extract_samples :: "thermal_payload \<Rightarrow> pyfloat list" where
  "extract_samples NoSample = []"
| "extract_samples (Number x) = [x]"
| "extract_samples (Samples ps) = concat (map extract_samples ps)"
| "extract_samples (Sensor (Some x)) = [x]"
| "extract_samples (Sensor None) = []"
| "extract_samples (Sensors _) = []"

definition temperature_celsius :: "exc + thermal_payload \<Rightarrow> exc + pyfloat" where
  "temperature_celsius payload =
     result_bind payload (\<lambda>p.
       let samples = (case p of Sensors entries \<Rightarrow> concat (map (\<lambda>(_, e). extract_samples e) entries) | _ \<Rightarrow> extract_samples p)
       in Inr (case samples of [] \<Rightarrow> Fin 0 | x # xs \<Rightarrow> float_max (Fin 0) (fold (\<lambda>y m. float_max m y) xs x)))"

definition is_over_limit :: "pyfloat \<Rightarrow> exc + thermal_payload \<Rightarrow> exc + bool" where
  "is_over_limit limit_celsius payload = result_bind (temperature_celsius payload) (\<lambda>t. Inr (float_ge t limit_celsius))"

section \<open>Microphone\<close>

record microphone_health =
  mh_max_no_input_checks :: int
  mh_consecutive_no_input :: int
  mh_last_error :: "string option"

definition init_microphone :: "int \<Rightarrow> exc + microphone_health" where
  "init_microphone max_no_input_checks =
     (if max_no_input_checks < 1 then Inl (ValueError ''max_no_input_checks must be >= 1'')
      else Inr \<lparr>mh_max_no_input_checks = max_no_input_checks, mh_consecutive_no_input = 0, mh_last_error = None\<rparr>)"

text \<open>The probe and the reader are optional; each may raise.\<close>

definition is_operational ::
  "(exc + bool) option \<Rightarrow> (exc + audio) option \<Rightarrow> microphone_health \<Rightarrow> bool \<times> microphone_health" where
  "is_operational probe reader mh =
     (case probe of
        Some (Inl _) \<Rightarrow> (False, mh\<lparr>mh_last_error := Some ''MICROPHONE_PROBE_FAILURE''\<rparr>)
      | Some (Inr False) \<Rightarrow> (False, mh\<lparr>mh_last_error := Some ''MICROPHONE_UNAVAILABLE''\<rparr>)
      | _ \<Rightarrow>
          (case reader of
             None \<Rightarrow> (True, mh\<lparr>mh_last_error := None\<rparr>)
           | Some (Inl _) \<Rightarrow> (False, mh\<lparr>mh_last_error := Some ''MICROPHONE_READ_FAILURE''\<rparr>)
           | Some (Inr chunk) \<Rightarrow>
               if chunk \<noteq> [] then (True, mh\<lparr>mh_consecutive_no_input := 0, mh_last_error := None\<rparr>)
               else let n = mh_consecutive_no_input mh + 1; mh' = mh\<lparr>mh_consecutive_no_input := n\<rparr> in
                 if n \<ge> mh_max_no_input_checks mh
                 then (False, mh'\<lparr>mh_last_error := Some ''MICROPHONE_NO_INPUT''\<rparr>)
                 else (True, mh'\<lparr>mh_last_error := None\<rparr>)))"

section \<open>Capabilities\<close>

record capabilities =
  cap_cpu_cores :: int
  cap_total_ram_mb :: int
  cap_has_battery :: bool
  cap_has_microphone :: bool
  cap_has_gpu :: bool

definition detect_capabilities :: "py_env \<Rightarrow> int \<Rightarrow> int \<Rightarrow> bool \<Rightarrow> bool \<Rightarrow> bool \<Rightarrow> exc + capabilities" where
  "detect_capabilities env cpu_probe ram_probe battery microphone gpu =
     (let total_ram_bytes = max 0 ram_probe in
      result_bind (if total_ram_bytes \<noteq> 0
          then result_bind (true_div total_ram_bytes (1024 * 1024)) (\<lambda>x. py_int env (PFloat x)) else Inr 0) (\<lambda>total_ram_mb.
      Inr \<lparr>cap_cpu_cores = max 1 cpu_probe, cap_total_ram_mb = total_ram_mb, cap_has_battery = battery,
           cap_has_microphone = microphone, cap_has_gpu = gpu\<rparr>))"

section \<open>The device\<close>

text \<open>
  The device state manager with the objects it holds: the sleep manager (its flag, the wake engine and
  the worker it stops), the microphone, the governor. The model manager is one object, used by the
  sleep manager and registered with the governor: it is kept once, and the governor works on it.
\<close>

record device =
  dv_battery :: battery_monitor
  dv_thermal_limit :: pyfloat
  dv_microphone :: microphone_health
  dv_sleeping :: bool
  dv_wake_engine :: "wake_engine option"
  dv_worker :: "transcription_worker option"
  dv_model_manager :: "model_manager option"
  dv_governor :: "resource_governor option"
  dv_state :: string

definition enter_sleep :: "pyfloat \<Rightarrow> (device, bool) prog" where
  "enter_sleep now dv =
     (if dv_sleeping dv then (Inr False, dv)
      else let dv1 = dv\<lparr>dv_wake_engine := map_option stop_wake (dv_wake_engine dv)\<rparr> in
        case (case dv_worker dv1 of
                None \<Rightarrow> (Inr (), dv1)
              | Some tw \<Rightarrow> (case stop_worker tw of (r, tw') \<Rightarrow> (r, dv1\<lparr>dv_worker := Some tw'\<rparr>))) of
          (Inl e, dv2) \<Rightarrow> (Inl e, dv2)
        | (Inr _, dv2) \<Rightarrow>
            (Inr True, dv2\<lparr>dv_model_manager := map_option (\<lambda>mm. snd (unload_if_idle now (Fin 0) True mm)) (dv_model_manager dv2),
               dv_sleeping := True\<rparr>))"

definition wake_up :: "device \<Rightarrow> bool \<times> device" where
  "wake_up dv =
     (if \<not> dv_sleeping dv then (False, dv)
      else case (case dv_worker dv of
                   None \<Rightarrow> (True, dv)
                 | Some tw \<Rightarrow> (case start_worker tw of (b, tw') \<Rightarrow> (b, dv\<lparr>dv_worker := Some tw'\<rparr>))) of
        (False, dv') \<Rightarrow> (False, dv')
      | (True, dv') \<Rightarrow> (True, dv'\<lparr>dv_wake_engine := map_option start_wake (dv_wake_engine dv'), dv_sleeping := False\<rparr>))"

text \<open>A call of the governor on the shared model manager.\<close>

definition on_governor :: "(resource_governor \<Rightarrow> bool \<times> resource_governor) \<Rightarrow> device \<Rightarrow> device" where
  "on_governor f dv =
     (case dv_governor dv of
        None \<Rightarrow> dv
      | Some rg \<Rightarrow> let rg' = snd (f (rg\<lparr>rg_model_manager := dv_model_manager dv\<rparr>))
          in dv\<lparr>dv_governor := Some rg', dv_model_manager := rg_model_manager rg'\<rparr>)"

definition signal_governor ::
  "pyfloat \<Rightarrow> bool \<Rightarrow> bool \<Rightarrow> bool \<Rightarrow> bool \<Rightarrow> bool \<Rightarrow> device \<Rightarrow> string list \<times> device" where
  "signal_governor now sleeping battery_low battery_critical thermal_over microphone_ok dv0 =
     (if dv_governor dv0 = None then ([], dv0)
      else let
        (a1, dv1) = (if sleeping then ([''GOVERNOR_PAUSED''], on_governor pause_evaluation dv0)
                     else ([''GOVERNOR_RESUMED''], on_governor resume_evaluation dv0));
        (a2, dv2) = (if thermal_over then ([''CPU_BUDGET_REDUCED''], on_governor (reduce_cpu_budget (Fin (1 / 2))) dv1)
                     else ([], dv1));
        (a3, dv3) = (if battery_low \<or> battery_critical
                     then ([''MODEL_DOWNGRADE_REQUESTED''], on_governor force_model_downgrade dv2) else ([], dv2));
        (a4, dv4) = (if battery_critical then ([''MODEL_UNLOAD_REQUESTED''], on_governor (force_model_unload now) dv3)
                     else ([], dv3));
        (a5, dv5) = (if \<not> microphone_ok then ([''GOVERNOR_PAUSED_MIC_FAILURE''], on_governor pause_evaluation dv4)
                     else ([], dv4))
      in (a1 @ a2 @ a3 @ a4 @ a5, dv5))"

record device_readings =
  dr_battery :: "nat \<Rightarrow> exc + battery_reading"
  dr_thermal :: "nat \<Rightarrow> exc + thermal_payload"
  dr_probe :: "(exc + bool) option"
  dr_audio :: "(exc + audio) option"
  dr_monotonic :: pyfloat

record device_report =
  rp_state :: string
  rp_battery_percent :: pyfloat
  rp_thermal_celsius :: pyfloat
  rp_microphone_operational :: bool
  rp_actions :: "string list"

definition device_state_of :: "bool \<Rightarrow> bool \<Rightarrow> bool \<Rightarrow> bool \<Rightarrow> bool \<Rightarrow> string" where
  "device_state_of sleeping battery_critical microphone_ok thermal_over battery_low =
     (if sleeping then ''SLEEP''
      else if battery_critical \<or> \<not> microphone_ok then ''CRITICAL''
      else if thermal_over then ''THERMAL_LIMIT''
      else if battery_low then ''LOW_BATTERY'' else ''IDLE'')"

definition evaluate_state :: "device_readings \<Rightarrow> (device, device_report) prog" where
  "evaluate_state rd dv =
     (case result_bind (level_percent (dr_battery rd 0)) (\<lambda>percent.
           result_bind (battery_is_low (dv_battery dv) (dr_battery rd 1)) (\<lambda>low.
           result_bind (battery_is_critical (dv_battery dv) (dr_battery rd 2)) (\<lambda>critical.
           result_bind (temperature_celsius (dr_thermal rd 0)) (\<lambda>celsius.
           result_bind (is_over_limit (dv_thermal_limit dv) (dr_thermal rd 1)) (\<lambda>over.
           Inr (percent, low, critical, celsius, over)))))) of
        Inl e \<Rightarrow> (Inl e, dv)
      | Inr (percent, low, critical, celsius, over) \<Rightarrow>
          (let sleeping = dv_sleeping dv;
               (microphone_ok, mh) = is_operational (dr_probe rd) (dr_audio rd) (dv_microphone dv);
               new_state = device_state_of sleeping critical microphone_ok over low;
               (actions, dv') = signal_governor (dr_monotonic rd) sleeping low critical over microphone_ok
                  (dv\<lparr>dv_microphone := mh\<rparr>)
           in (Inr \<lparr>rp_state = new_state, rp_battery_percent = percent, rp_thermal_celsius = celsius,
                    rp_microphone_operational = microphone_ok, rp_actions = actions\<rparr>,
               dv'\<lparr>dv_state := new_state\<rparr>)))"

section \<open>Signals and the governor\<close>

lemma on_governor_Some:
  assumes "dv_governor dv = Some rg"
  shows "dv_governor (on_governor f dv) = Some (snd (f (rg\<lparr>rg_model_manager := dv_model_manager dv\<rparr>)))"
  using assms by (simp add: on_governor_def Let_def)

lemma hints_keep_pause:
  "rg_evaluation_paused (snd (reduce_cpu_budget x rg)) = rg_evaluation_paused rg"
  "rg_evaluation_paused (snd (force_model_downgrade rg)) = rg_evaluation_paused rg"
  "rg_evaluation_paused (snd (force_model_unload now rg)) = rg_evaluation_paused rg"
  by (auto simp: reduce_cpu_budget_def force_model_downgrade_def force_model_unload_def Let_def
      split: option.splits prod.splits)

lemma pause_flags:
  "rg_evaluation_paused (snd (pause_evaluation rg))" "\<not> rg_evaluation_paused (snd (resume_evaluation rg))"
  by (simp_all add: pause_evaluation_def resume_evaluation_def)

definition paused_device :: "device \<Rightarrow> bool \<Rightarrow> bool" where
  "paused_device dv b \<longleftrightarrow> (\<exists>rg. dv_governor dv = Some rg \<and> rg_evaluation_paused rg = b)"

lemma paused_device_on:
  "paused_device dv b \<Longrightarrow> (\<And>rg. rg_evaluation_paused (snd (f rg)) = rg_evaluation_paused rg) \<Longrightarrow> paused_device (on_governor f dv) b"
  by (auto simp: paused_device_def on_governor_Some)

lemma paused_device_set:
  "dv_governor dv \<noteq> None \<Longrightarrow> paused_device (on_governor pause_evaluation dv) True"
  "dv_governor dv \<noteq> None \<Longrightarrow> paused_device (on_governor resume_evaluation dv) False"
  by (auto simp: paused_device_def on_governor_Some pause_flags)

lemma signal_governor_pause:
  assumes "dv_governor dv \<noteq> None"
  shows "paused_device (snd (signal_governor now sleeping low critical over mic dv)) (sleeping \<or> \<not> mic)"
proof -
  note keep = paused_device_on [OF _ hints_keep_pause(1)] paused_device_on [OF _ hints_keep_pause(2)]
    paused_device_on [OF _ hints_keep_pause(3)]
  define d1 where "d1 = (if sleeping then on_governor pause_evaluation dv else on_governor resume_evaluation dv)"
  define d2 where "d2 = (if over then on_governor (reduce_cpu_budget (Fin (1 / 2))) d1 else d1)"
  define d3 where "d3 = (if low \<or> critical then on_governor force_model_downgrade d2 else d2)"
  define d4 where "d4 = (if critical then on_governor (force_model_unload now) d3 else d3)"
  define d5 where "d5 = (if \<not> mic then on_governor pause_evaluation d4 else d4)"
  have "snd (signal_governor now sleeping low critical over mic dv) = d5"
    using assms by (cases "dv_governor dv") (simp_all add: signal_governor_def d1_def d2_def d3_def d4_def d5_def Let_def)
  moreover have "paused_device d1 sleeping" using assms paused_device_set by (simp add: d1_def)
  then have "paused_device d2 sleeping" using keep by (simp add: d2_def)
  then have "paused_device d3 sleeping" using keep by (simp add: d3_def)
  then have "paused_device d4 sleeping" using keep by (simp add: d4_def)
  then have "paused_device d5 (sleeping \<or> \<not> mic)"
    using paused_device_set(1) [of d4] by (auto simp: d5_def paused_device_def)
  ultimately show ?thesis by simp
qed

text \<open>
  C31. After an evaluation of the device that succeeds, the governor is paused exactly when the device
  sleeps or the microphone fails, whatever the battery and the thermal readings; and while it is
  paused, its own evaluation leaves the models and the speech timeout alone and reports only that.
\<close>

theorem device_pauses_governor:
  assumes "evaluate_state rd dv = (Inr report, dv')" and "dv_governor dv \<noteq> None"
  shows "\<exists>rg. dv_governor dv' = Some rg
    \<and> (rg_evaluation_paused rg \<longleftrightarrow> dv_sleeping dv \<or> \<not> rp_microphone_operational report)
    \<and> (rp_state report = ''SLEEP'' \<longleftrightarrow> dv_sleeping dv)
    \<and> (rg_evaluation_paused rg \<longrightarrow>
        ge_actions (fst (evaluate_governor r rg)) = [''EVALUATION_PAUSED'']
        \<and> rg_model_manager (snd (evaluate_governor r rg)) = rg_model_manager rg
        \<and> rg_asr_timeout (snd (evaluate_governor r rg)) = rg_asr_timeout rg)"
proof -
  obtain low critical over mic mh acts d where
    mic: "is_operational (dr_probe rd) (dr_audio rd) (dv_microphone dv) = (mic, mh)"
    and sig: "signal_governor (dr_monotonic rd) (dv_sleeping dv) low critical over mic (dv\<lparr>dv_microphone := mh\<rparr>) = (acts, d)"
    and report: "rp_microphone_operational report = mic" "rp_state report = device_state_of (dv_sleeping dv) critical mic over low"
    and dv': "dv' = d\<lparr>dv_state := rp_state report\<rparr>"
    using assms(1) by (auto simp: evaluate_state_def Let_def split: sum.splits prod.splits)
  have "paused_device d (dv_sleeping dv \<or> \<not> mic)"
    using signal_governor_pause [of "dv\<lparr>dv_microphone := mh\<rparr>" "dr_monotonic rd" "dv_sleeping dv" low critical over mic]
      sig assms(2) by simp
  then obtain rg where rg: "dv_governor dv' = Some rg" "rg_evaluation_paused rg \<longleftrightarrow> dv_sleeping dv \<or> \<not> mic"
    by (auto simp: paused_device_def dv')
  moreover have "ge_actions (fst (evaluate_governor r rg)) = [''EVALUATION_PAUSED'']
        \<and> rg_model_manager (snd (evaluate_governor r rg)) = rg_model_manager rg
        \<and> rg_asr_timeout (snd (evaluate_governor r rg)) = rg_asr_timeout rg" if "rg_evaluation_paused rg"
    using that by (cases rule: evaluate_governor_cases [of rg r]) auto
  ultimately show ?thesis using report by (auto simp: device_state_of_def)
qed

text \<open>A device that has no worker, sleeps, and holds an idle governor.\<close>

definition sample_device :: device where
  "sample_device =
     \<lparr>dv_battery = \<lparr>bm_low_percent = Fin 20, bm_critical_percent = Fin 10\<rparr>, dv_thermal_limit = Fin 80,
      dv_microphone = \<lparr>mh_max_no_input_checks = 3, mh_consecutive_no_input = 0, mh_last_error = None\<rparr>,
      dv_sleeping = True, dv_wake_engine = None, dv_worker = None, dv_model_manager = None,
      dv_governor = Some (init_governor \<lparr>cm_threshold_percent = Fin 80, cm_window_size = 5, cm_window = []\<rparr> (Fin 100) (Fin 5) True (Fin 60)), dv_state = ''IDLE''\<rparr>"

definition sample_readings :: device_readings where
  "sample_readings = \<lparr>dr_battery = (\<lambda>_. Inr NoReading), dr_thermal = (\<lambda>_. Inr (Samples [Number (Fin 90)])),
     dr_probe = None, dr_audio = Some (Inr []), dr_monotonic = Fin 0\<rparr>"

theorem device_pauses_governor_witness:
  "\<exists>rg. dv_governor (snd (evaluate_state sample_readings sample_device)) = Some rg
    \<and> ge_actions (fst (evaluate_governor
          \<lparr>rd_cpu = Fin 10, rd_memory = Fin 10, rd_memory_again = Fin 10, rd_monotonic = Fin 0, rd_time = Fin 0\<rparr> rg)) = [''EVALUATION_PAUSED'']"
proof -
  have run: "fst (evaluate_state sample_readings sample_device) = Inr x \<Longrightarrow>
      evaluate_state sample_readings sample_device = (Inr x, snd (evaluate_state sample_readings sample_device))" for x
    by (cases "evaluate_state sample_readings sample_device") simp
  obtain x where x: "fst (evaluate_state sample_readings sample_device) = Inr x"
    by (simp add: evaluate_state_def sample_readings_def sample_device_def level_percent_def battery_is_low_def
        battery_is_critical_def temperature_celsius_def is_over_limit_def is_operational_def Let_def case_prod_beta)
  show ?thesis
    using device_pauses_governor [OF run [OF x]] by (auto simp: sample_device_def)
qed

end
