(* ===== verification/Probes.thy ===== *)
theory Probes
  imports Hardware
begin

text \<open>
  Where the readings come from by default: the samplers and probes of \<open>core/behavior/cpu_monitor.py\<close>,
  \<open>core/behavior/memory_monitor.py\<close> and \<open>services/hardware/\<close>, which ask the optional package \<open>psutil\<close>, and how a foreign
  speech model is used by \<open>voice/asr_engine_real.py\<close> and measured by \<open>voice/model_manager.py\<close>. What \<open>psutil\<close> answers is an
  argument: \<open>None\<close> when it is not installed, and every call may raise. As documented, a temperature sensor is a named tuple
  of a label, the current temperature and two optional limits.
\<close>

section \<open>The package\<close>

record shwtemp =
  st_label :: string
  st_current :: pyfloat
  st_high :: "pyfloat option"
  st_critical :: "pyfloat option"

record psutil =
  ps_cpu_percent :: "exc + pyfloat"
  ps_memory_rss :: "exc + int"
  ps_virtual_memory_total :: "exc + int"
  ps_sensors_battery :: "exc + pyfloat option"
  ps_sensors_temperatures :: "exc + (string \<times> shwtemp list) list"

text \<open>\<open>try: return f() except Exception: return fallback\<close>, with the test for the package before it.\<close>

definition ask :: "psutil option \<Rightarrow> (psutil \<Rightarrow> exc + 'a) \<Rightarrow> 'a \<Rightarrow> 'a" where
  "ask package f fallback = (case package of None \<Rightarrow> fallback | Some ps \<Rightarrow> (case f ps of Inl _ \<Rightarrow> fallback | Inr x \<Rightarrow> x))"

lemma ask_simps [simp]:
  "ask None f x = x" "f ps = Inl e \<Longrightarrow> ask (Some ps) f x = x" "f ps = Inr y \<Longrightarrow> ask (Some ps) f x = y"
  by (simp_all add: ask_def)

section \<open>Default readers\<close>

definition default_cpu_sampler :: "psutil option \<Rightarrow> pyfloat" where
  "default_cpu_sampler package = ask package ps_cpu_percent (Fin 0)"

definition default_memory_reader :: "psutil option \<Rightarrow> pyfloat" where
  "default_memory_reader package = ask package (\<lambda>ps. result_bind (ps_memory_rss ps) (\<lambda>rss. true_div rss (1024 * 1024))) (Fin 0)"

definition default_battery_reader :: "psutil option \<Rightarrow> battery_reading" where
  "default_battery_reader package =
     (case ask package ps_sensors_battery None of None \<Rightarrow> NoReading | Some percent \<Rightarrow> Percent percent)"

text \<open>
  A named tuple is a sequence for Python, so the monitor does not look for its \<open>current\<close> but goes through all its
  items. The label is a string and gives nothing.
\<close>

definition limit_payload :: "pyfloat option \<Rightarrow> thermal_payload" where
  "limit_payload r = (case r of None \<Rightarrow> NoSample | Some x \<Rightarrow> Number x)"

definition sensor_payload :: "shwtemp \<Rightarrow> thermal_payload" where
  "sensor_payload st = Samples [Sensor None, Number (st_current st), limit_payload (st_high st), limit_payload (st_critical st)]"

definition default_temperature_reader :: "psutil option \<Rightarrow> thermal_payload" where
  "default_temperature_reader package =
     Sensors (map (\<lambda>(chip, entries). (chip, Samples (map sensor_payload entries))) (ask package ps_sensors_temperatures []))"

section \<open>Default probes\<close>

definition default_cpu_probe :: "int option \<Rightarrow> int" where
  "default_cpu_probe cpu_count = max 1 (case cpu_count of None \<Rightarrow> 1 | Some n \<Rightarrow> if n = 0 then 1 else n)"

definition default_ram_probe :: "psutil option \<Rightarrow> int" where
  "default_ram_probe package = ask package ps_virtual_memory_total 0"

definition default_battery_probe :: "psutil option \<Rightarrow> bool" where
  "default_battery_probe package = (ask package ps_sensors_battery None \<noteq> None)"

definition default_gpu_probe :: "string option \<Rightarrow> bool" where
  "default_gpu_probe APCOS_HAS_GPU =
     (strip (case APCOS_HAS_GPU of None \<Rightarrow> ''0'' | Some s \<Rightarrow> s) \<in> set [''1'', ''true'', ''TRUE'', ''yes'', ''YES''])"

definition default_microphone_probe :: bool where
  "default_microphone_probe = True"

definition detect_host :: "py_env \<Rightarrow> psutil option \<Rightarrow> int option \<Rightarrow> string option \<Rightarrow> exc + capabilities" where
  "detect_host env package cpu_count gpu =
     detect_capabilities env (default_cpu_probe cpu_count) (default_ram_probe package) (default_battery_probe package)
       default_microphone_probe (default_gpu_probe gpu)"

section \<open>Foreign models\<close>

text \<open>A model object is known by the attributes the code asks for; a method may raise.\<close>

record foreign_model =
  fm_transcribe_bytes :: "(audio \<Rightarrow> exc + pyval) option"
  fm_transcribe :: "(audio \<Rightarrow> exc + pyval) option"
  fm_call :: "(audio \<Rightarrow> exc + pyval) option"
  fm_estimated_bytes :: "exc + pyval"
  fm_sizeof :: "exc + int"

definition transcribe_with_model :: "py_env \<Rightarrow> foreign_model \<Rightarrow> audio \<Rightarrow> exc + string" where
  "transcribe_with_model env model audio_bytes =
     (case fm_transcribe_bytes model of
        Some f \<Rightarrow> result_bind (f audio_bytes) (\<lambda>v. Inr (py_str env v))
      | None \<Rightarrow>
          (case fm_transcribe model of
             Some f \<Rightarrow> result_bind (f audio_bytes) (\<lambda>output. Inr (case output of
                PDict d \<Rightarrow> py_str env (dict_get_or d ''text'' (PStr [])) | v \<Rightarrow> py_str env v))
           | None \<Rightarrow> (case fm_call model of Some f \<Rightarrow> result_bind (f audio_bytes) (\<lambda>v. Inr (py_str env v)) | None \<Rightarrow> Inr [])))"

definition estimate_model_size :: "py_env \<Rightarrow> foreign_model \<Rightarrow> int" where
  "estimate_model_size env model =
     (case result_bind (fm_estimated_bytes model) (py_int env) of
        Inr n \<Rightarrow> n
      | Inl _ \<Rightarrow> (case fm_sizeof model of Inr n \<Rightarrow> n | Inl _ \<Rightarrow> 0))"

section \<open>What the monitors make of it\<close>

lemma fold_float_max:
  "fold (\<lambda>y m. float_max m y) (map Fin qs) (Fin q) = Fin (fold max qs q)"
  by (induction qs arbitrary: q) (auto simp: float_max_def max_def intro!: arg_cong [where f = "fold _ _"])

lemma float_max_zero: "float_max (Fin 0) (Fin q) = Fin (max 0 q)"
  by (auto simp: float_max_def max_def)

lemma fold_max_ge: "q \<le> fold max qs q \<and> (\<forall>x\<in>set qs. x \<le> fold max qs (q :: rat))"
  by (induction qs arbitrary: q) (auto, (meson max.bounded_iff | meson dual_order.trans max.cobounded2)+)

fun is_fin :: "pyfloat \<Rightarrow> bool" where
  "is_fin (Fin _) = True"
| "is_fin _ = False"

lemma is_finD: "is_fin x \<Longrightarrow> \<exists>q. x = Fin q"
  by (cases x) auto

definition plain_sensor :: "shwtemp \<Rightarrow> bool" where
  "plain_sensor st \<longleftrightarrow> is_fin (st_current st) \<and> pred_option is_fin (st_high st) \<and> pred_option is_fin (st_critical st)"

text \<open>The samples the monitor takes from one sensor, and from all of them.\<close>

lemma sensor_samples:
  "extract_samples (sensor_payload st) = st_current st # (case st_high st of None \<Rightarrow> [] | Some x \<Rightarrow> [x])
     @ (case st_critical st of None \<Rightarrow> [] | Some x \<Rightarrow> [x])"
  by (simp add: sensor_payload_def limit_payload_def split: option.split)

definition all_samples :: "(string \<times> shwtemp list) list \<Rightarrow> pyfloat list" where
  "all_samples sensors = concat (map (\<lambda>(chip, es). concat (map (\<lambda>st. extract_samples (sensor_payload st)) es)) sensors)"

lemma temperature_of_sensors:
  assumes "ps_sensors_temperatures ps = Inr sensors" and "all_samples sensors = map Fin (q # qs)"
  shows "temperature_celsius (Inr (default_temperature_reader (Some ps))) = Inr (Fin (max 0 (fold max qs q)))"
proof -
  have "concat (map (\<lambda>(_, e). extract_samples e) (map (\<lambda>(chip, es). (chip, Samples (map sensor_payload es))) sensors)) = all_samples sensors"
    unfolding all_samples_def by (induction sensors) (auto simp: comp_def)
  then show ?thesis
    using assms by (simp add: temperature_celsius_def default_temperature_reader_def fold_float_max float_max_zero)
qed

lemma plain_samples:
  assumes "\<forall>(chip, es)\<in>set sensors. \<forall>st\<in>set es. plain_sensor st"
  shows "\<exists>qs. all_samples sensors = map Fin qs"
proof -
  have finite: "\<exists>q. x = Fin q" if "x \<in> set (extract_samples (sensor_payload st))" "plain_sensor st" for x st
    by (rule is_finD) (use that in \<open>cases "st_high st"; cases "st_critical st"; auto simp: sensor_samples plain_sensor_def\<close>)
  then have "\<forall>x\<in>set (all_samples sensors). \<exists>q. x = Fin q"
    using assms by (fastforce simp: all_samples_def)
  then obtain f where f: "\<forall>x\<in>set (all_samples sensors). x = Fin (f x)" by metis
  have "all_samples sensors = map Fin (map f (all_samples sensors))" using f by (simp add: map_idI)
  then show ?thesis by blast
qed

lemma limit_is_sample:
  "(chip, es) \<in> set sensors \<Longrightarrow> st \<in> set es \<Longrightarrow> st_high st = Some x \<or> st_critical st = Some x \<Longrightarrow> x \<in> set (all_samples sensors)"
  unfolding all_samples_def by (force simp: sensor_samples)

lemma limit_reads_as_temperature:
  assumes "ps_sensors_temperatures ps = Inr sensors" and plain: "\<forall>(chip, es)\<in>set sensors. \<forall>st\<in>set es. plain_sensor st"
    and "(chip, es) \<in> set sensors" "st \<in> set es" "st_high st = Some (Fin c) \<or> st_critical st = Some (Fin c)" and "l \<le> c"
  shows "is_over_limit (Fin l) (Inr (default_temperature_reader (Some ps))) = Inr True"
proof -
  obtain ps' where all: "all_samples sensors = map Fin ps'" using plain_samples [OF plain] by blast
  have c: "c \<in> set ps'" using limit_is_sample [OF assms(3-5)] by (auto simp: all)
  then obtain q qs where q: "ps' = q # qs" by (cases ps') auto
  have "c \<le> fold max qs q" using c fold_max_ge [of q qs] by (auto simp: q)
  then have "l \<le> max 0 (fold max qs q)" using assms(6) by simp
  then show ?thesis
    using temperature_of_sensors [OF assms(1) all [unfolded q]] by (auto simp: is_over_limit_def not_less le_max_iff_disj)
qed

text \<open>
  C32. With the default reader the limits of a sensor count as its temperature: as soon as one sensor of \<open>psutil\<close> names a
  high or a critical limit that is not below the configured one, the thermal monitor reports an overheated device at any
  current temperature, and the device is never found idle or merely low on battery.
\<close>

theorem sensor_limit_reads_as_heat:
  assumes "ps_sensors_temperatures ps = Inr sensors" and "\<forall>(chip, es)\<in>set sensors. \<forall>st\<in>set es. plain_sensor st"
    and "(chip, es) \<in> set sensors" "st \<in> set es" "st_high st = Some (Fin c) \<or> st_critical st = Some (Fin c)" and "l \<le> c"
    and "dv_thermal_limit dv = Fin l" and "dr_thermal rd 1 = Inr (default_temperature_reader (Some ps))"
    and "evaluate_state rd dv = (Inr report, dv')"
  shows "is_over_limit (Fin l) (Inr (default_temperature_reader (Some ps))) = Inr True
    \<and> rp_state report \<in> {''SLEEP'', ''CRITICAL'', ''THERMAL_LIMIT''} \<and> dv_state dv' = rp_state report"
proof -
  note over = limit_reads_as_temperature [OF assms(1-6)]
  with assms(7-9) show ?thesis
    by (auto simp: evaluate_state_def result_bind_Inr_iff device_state_of_def Let_def case_prod_beta split: sum.splits if_splits)
qed

definition cool_machine :: psutil where
  "cool_machine = \<lparr>ps_cpu_percent = Inr (Fin 5), ps_memory_rss = Inr 0, ps_virtual_memory_total = Inr 0, ps_sensors_battery = Inr None,
     ps_sensors_temperatures = Inr [(''coretemp'', [\<lparr>st_label = ''Core 0'', st_current = Fin 40, st_high = Some (Fin 80), st_critical = Some (Fin 100)\<rparr>])]\<rparr>"

definition cool_readings :: device_readings where
  "cool_readings = \<lparr>dr_battery = (\<lambda>_. Inr (default_battery_reader (Some cool_machine))),
     dr_thermal = (\<lambda>_. Inr (default_temperature_reader (Some cool_machine))), dr_probe = Some (Inr True), dr_audio = None, dr_monotonic = Fin 0\<rparr>"

definition cool_device :: device where
  "cool_device = sample_device\<lparr>dv_thermal_limit := Fin 75\<rparr>"

theorem sensor_limit_reads_as_heat_witness:
  "\<exists>report dv'. evaluate_state cool_readings cool_device = (Inr report, dv') \<and> rp_state report \<in> {''SLEEP'', ''CRITICAL'', ''THERMAL_LIMIT''}"
proof -
  obtain report dv' where run: "evaluate_state cool_readings cool_device = (Inr report, dv')"
    by (simp add: evaluate_state_def cool_readings_def level_percent_def battery_is_low_def battery_is_critical_def is_over_limit_def
        temperature_celsius_def Let_def case_prod_beta)
  show ?thesis
    using sensor_limit_reads_as_heat [OF _ _ _ _ _ _ _ _ run, of cool_machine
        "[(''coretemp'', [\<lparr>st_label = ''Core 0'', st_current = Fin 40, st_high = Some (Fin 80), st_critical = Some (Fin 100)\<rparr>])]"
        "''coretemp''" _ "\<lparr>st_label = ''Core 0'', st_current = Fin 40, st_high = Some (Fin 80), st_critical = Some (Fin 100)\<rparr>" 100 75] run
    by (simp add: cool_machine_def cool_readings_def cool_device_def plain_sensor_def)
qed

end
