(* ===== verification/Real_Voice.thy ===== *)
theory Real_Voice
  imports Hardware
begin

text \<open>
  The threaded voice session: \<open>RealVoiceSession\<close> of \<open>voice/voice_session.py\<close> with the objects that
  \<open>build_real_voice_session\<close> shares between it, the sleep manager and the governor, and the speech engine
  of \<open>voice/asr_engine_real.py\<close> on the fallback model of \<open>voice/model_manager.py\<close>. The listener thread and the
  worker thread take turns with the main thread: a turn is a step of its own, and one turn of the worker
  may fall into the wait of a cycle.
\<close>

section \<open>Speech engine\<close>

text \<open>\<open>audio_bytes.find(marker)\<close> and what follows the marker.\<close>

fun after_marker :: "audio \<Rightarrow> audio \<Rightarrow> audio option" where
  "after_marker m [] = (if m = [] then Some [] else None)"
| "after_marker m (b # bs) = (if take (length m) (b # bs) = m then Some (drop (length m) (b # bs)) else after_marker m bs)"

definition text_marker :: audio where
  "text_marker = map of_char ''text:''"

definition transcribe_bytes :: "decoder \<Rightarrow> audio \<Rightarrow> string" where
  "transcribe_bytes decode audio_bytes =
     (if audio_bytes = [] then []
      else case after_marker text_marker audio_bytes of None \<Rightarrow> [] | Some payload \<Rightarrow> strip (decode payload))"

text \<open>
  \<open>ASREngine.transcribe\<close>: the model call runs on a thread of its own; \<open>in_time\<close> tells whether it ends
  within the timeout. A call that does not end in time leaves the transcription counted as active.
  The three clock readings are those of the load, the start and the end.
\<close>

definition transcribe_audio ::
  "(nat \<Rightarrow> pyfloat) \<Rightarrow> bool \<Rightarrow> (asr_model \<Rightarrow> audio \<Rightarrow> exc + string) \<Rightarrow> audio \<Rightarrow> (model_manager, string) prog" where
  "transcribe_audio now in_time call audio_bytes mm =
     (if audio_bytes = [] then (Inr [], mm)
      else case load_asr_model (now 0) mm of
        (Inl e, mm1) \<Rightarrow> (Inl e, mm1)
      | (Inr model, mm1) \<Rightarrow>
          (let mm2 = mark_transcription_start (now 1) mm1 in
           if \<not> in_time then (Inr [], mm2)
           else (Inr (normalize_text (case call model audio_bytes of Inl _ \<Rightarrow> [] | Inr t \<Rightarrow> t)),
                 mark_transcription_end (now 2) mm2)))"

section \<open>Session\<close>

record real_voice =
  rv_device :: device
  rv_watches_device :: bool
  rv_stream :: audio_stream
  rv_controller :: interaction
  rv_idle_unload_seconds :: pyfloat
  rv_started :: bool
  rv_last_activity :: pyfloat

definition init_real :: "pyfloat \<Rightarrow> pyfloat \<Rightarrow> device \<Rightarrow> bool \<Rightarrow> audio_stream \<Rightarrow> interaction \<Rightarrow> real_voice" where
  "init_real now idle_unload_seconds dv watches au ic =
     \<lparr>rv_device = dv, rv_watches_device = watches, rv_stream = au, rv_controller = ic,
      rv_idle_unload_seconds = float_max (Fin 1) idle_unload_seconds, rv_started = False, rv_last_activity = now\<rparr>"

text \<open>A method called on a missing worker or wake engine raises \<open>AttributeError\<close>.\<close>

definition start_real :: "(real_voice, unit) prog" where
  "start_real rv =
     (if rv_started rv then (Inr (), rv)
      else let rv1 = rv\<lparr>rv_stream := start_stream (rv_stream rv)\<rparr> in
        case dv_worker (rv_device rv1) of
          None \<Rightarrow> (Inl AttributeError, rv1)
        | Some tw \<Rightarrow>
            (case start_worker tw of (worker_started, tw') \<Rightarrow>
               let rv2 = rv1\<lparr>rv_device := (rv_device rv1)\<lparr>dv_worker := Some tw'\<rparr>\<rparr> in
               if \<not> worker_started then (Inr (), rv2\<lparr>rv_stream := stop_stream (rv_stream rv2)\<rparr>)
               else case dv_wake_engine (rv_device rv2) of
                 None \<Rightarrow> (Inl AttributeError, rv2)
               | Some we \<Rightarrow> (Inr (), rv2\<lparr>rv_device := (rv_device rv2)\<lparr>dv_wake_engine := Some (start_wake we)\<rparr>, rv_started := True\<rparr>)))"

definition stop_real :: "(real_voice, unit) prog" where
  "stop_real rv =
     (if \<not> rv_started rv then (Inr (), rv)
      else case dv_wake_engine (rv_device rv) of
        None \<Rightarrow> (Inl AttributeError, rv)
      | Some we \<Rightarrow>
          (let dv1 = (rv_device rv)\<lparr>dv_wake_engine := Some (stop_wake we)\<rparr> in
           case dv_worker dv1 of
             None \<Rightarrow> (Inl AttributeError, rv\<lparr>rv_device := dv1\<rparr>)
           | Some tw \<Rightarrow>
               (case stop_worker tw of
                  (Inl e, tw') \<Rightarrow> (Inl e, rv\<lparr>rv_device := dv1\<lparr>dv_worker := Some tw'\<rparr>\<rparr>)
                | (Inr _, tw') \<Rightarrow> (Inr (), rv\<lparr>rv_device := dv1\<lparr>dv_worker := Some tw',
                       dv_model_manager := map_option unload_asr_model (dv_model_manager dv1)\<rparr>,
                     rv_stream := stop_stream (rv_stream rv), rv_started := False\<rparr>))))"

text \<open>What one cycle takes from outside; the clock is read at up to three places.\<close>

record voice_cycle =
  vc_device :: device_readings
  vc_governor :: readings
  vc_source :: "(nat \<Rightarrow> exc + audio) option"
  vc_worker_turn :: "(audio \<Rightarrow> exc + string) option"
  vc_monotonic :: "nat \<Rightarrow> pyfloat"

definition maybe_unload_if_idle :: "(nat \<Rightarrow> pyfloat) \<Rightarrow> real_voice \<Rightarrow> real_voice" where
  "maybe_unload_if_idle now rv =
     (if float_lt (float_sub (now 0) (rv_last_activity rv)) (rv_idle_unload_seconds rv) then rv
      else rv\<lparr>rv_device := (rv_device rv)\<lparr>dv_model_manager :=
        map_option (\<lambda>mm. snd (unload_if_idle (now 1) (rv_idle_unload_seconds rv) False mm)) (dv_model_manager (rv_device rv))\<rparr>\<rparr>)"

definition evaluate_session_governor :: "readings \<Rightarrow> real_voice \<Rightarrow> real_voice" where
  "evaluate_session_governor rd rv =
     rv\<lparr>rv_device := on_governor (\<lambda>rg. (True, snd (evaluate_governor rd rg))) (rv_device rv)\<rparr>"

definition evaluate_device_state :: "device_readings \<Rightarrow> real_voice \<Rightarrow> string option \<times> real_voice" where
  "evaluate_device_state rd rv =
     (if \<not> rv_watches_device rv then (None, rv)
      else case evaluate_state rd (rv_device rv) of
        (Inl _, dv) \<Rightarrow> (None, rv\<lparr>rv_device := dv\<rparr>)
      | (Inr report, dv) \<Rightarrow> (Some (rp_state report), rv\<lparr>rv_device := dv\<rparr>))"

text \<open>The part of \<open>run_once\<close> after a wake event: audio, transcription, identity, controller.\<close>

definition hear :: "decoder \<Rightarrow> voice_cycle \<Rightarrow> (string \<Rightarrow> (interaction, string) prog) \<Rightarrow> (real_voice, string option) prog" where
  "hear decode c handler rv =
     (case read_chunk (vc_source c) (rv_stream rv) of (audio, au) \<Rightarrow>
        let rv1 = rv\<lparr>rv_stream := au\<rparr> in
        if audio = [] then (Inr (Some ''No speech detected.''), rv1)
        else case dv_worker (rv_device rv1) of
          None \<Rightarrow> (Inl AttributeError, rv1)
        | Some tw \<Rightarrow>
            (case submit_audio audio tw of (accepted, tw1) \<Rightarrow>
               if \<not> accepted then (Inr (Some ''No speech detected.''), rv1\<lparr>rv_device := (rv_device rv1)\<lparr>dv_worker := Some tw1\<rparr>\<rparr>)
               else case get_transcription (case vc_worker_turn c of None \<Rightarrow> tw1 | Some f \<Rightarrow> worker_round f tw1) of
                 (transcript, tw2) \<Rightarrow>
                   let rv2 = rv1\<lparr>rv_device := (rv_device rv1)\<lparr>dv_worker := Some tw2\<rparr>\<rparr> in
                   (case transcript of
                      None \<Rightarrow> (Inr (Some ''No speech detected.''), rv2)
                    | Some t \<Rightarrow>
                        if strip t = [] then (Inr (Some ''No speech detected.''), rv2)
                        else case resolve_voice_identity decode audio (Some t) of
                          Inl e \<Rightarrow> (Inl e, rv2)
                        | Inr identity \<Rightarrow>
                            (case handler t (set_identity identity (rv_controller rv2)) of
                               (r, ic) \<Rightarrow>
                                 let rv3 = rv2\<lparr>rv_controller := ic, rv_last_activity := vc_monotonic c 2\<rparr> in
                                 (case r of Inl _ \<Rightarrow> (Inr (Some internal_error_text), rv3)
                                  | Inr response \<Rightarrow> (Inr (Some response), evaluate_session_governor (vc_governor c) rv3))))))"

definition run_real_once ::
  "decoder \<Rightarrow> voice_cycle \<Rightarrow> (string \<Rightarrow> (interaction, string) prog) \<Rightarrow> (real_voice, string option) prog" where
  "run_real_once decode c handler rv =
     (case start_real rv of
        (Inl e, rv1) \<Rightarrow> (Inl e, rv1)
      | (Inr _, rv1) \<Rightarrow>
          if \<not> rv_started rv1 then (Inr (Some ''Voice runtime is busy.''), rv1)
          else case evaluate_device_state (vc_device c) rv1 of (state, rv2) \<Rightarrow>
            if state = Some ''SLEEP'' then (Inr None, rv2)
            else case dv_wake_engine (rv_device rv2) of
              None \<Rightarrow> (Inl AttributeError, rv2)
            | Some we \<Rightarrow>
                (case wait_for_wake we of (woken, we') \<Rightarrow>
                   let rv3 = rv2\<lparr>rv_device := (rv_device rv2)\<lparr>dv_wake_engine := Some we'\<rparr>\<rparr> in
                   if \<not> woken then (Inr None, evaluate_session_governor (vc_governor c) (maybe_unload_if_idle (vc_monotonic c) rv3))
                   else hear decode c handler rv3))"

section \<open>Voice loop\<close>

text \<open>
  \<open>run_voice_loop\<close> over what happens at each poll: the stop condition holds, the user interrupts, or a
  cycle runs. The list is what has been observed so far; the loop may still be waiting at its end. An
  empty response is not shown.
\<close>

datatype 'c poll = StopRequested | Interrupted | Poll 'c

fun voice_loop :: "('c \<Rightarrow> ('s, string option) prog) \<Rightarrow> 'c poll list \<Rightarrow> 's \<Rightarrow> string list \<times> 's" where
  "voice_loop run [] s = ([], s)"
| "voice_loop run (StopRequested # _) s = ([''Exiting APCOS voice loop.''], s)"
| "voice_loop run (Interrupted # _) s = ([newline @ ''Voice session interrupted. Exiting APCOS voice loop.''], s)"
| "voice_loop run (Poll c # polls) s =
     (case run c s of (r, s1) \<Rightarrow>
        let shown = (case r of Inl _ \<Rightarrow> [internal_error_text] | Inr None \<Rightarrow> []
                     | Inr (Some t) \<Rightarrow> if t = [] then [] else [t]);
            (out, s') = voice_loop run polls s1
        in (shown @ out, s'))"

definition run_voice_loop :: "('c \<Rightarrow> ('s, string option) prog) \<Rightarrow> 'c poll list \<Rightarrow> 's \<Rightarrow> string list \<times> 's" where
  "run_voice_loop run polls s = (let (out, s') = voice_loop run polls s in (''APCOS Voice ready. Waiting for wake word.'' # out, s'))"

section \<open>Sequences of steps\<close>

text \<open>Cycles of the main thread, turns of the listener and of the worker, and what the device does.\<close>

datatype voice_move =
    Cycle voice_cycle
  | Stop
  | Sleep pyfloat
  | Wake
  | Microphone audio
  | ListenerTurn "(nat \<Rightarrow> exc + audio) option"
  | WorkerTurn "audio \<Rightarrow> exc + string"

definition listener_turn :: "decoder \<Rightarrow> (nat \<Rightarrow> exc + audio) option \<Rightarrow> real_voice \<Rightarrow> real_voice" where
  "listener_turn decode source rv =
     (case dv_wake_engine (rv_device rv) of
        None \<Rightarrow> rv
      | Some we \<Rightarrow> (case wake_round decode source we (rv_stream rv) of (we', au) \<Rightarrow>
          rv\<lparr>rv_device := (rv_device rv)\<lparr>dv_wake_engine := Some we'\<rparr>, rv_stream := au\<rparr>))"

definition worker_turn :: "(audio \<Rightarrow> exc + string) \<Rightarrow> real_voice \<Rightarrow> real_voice" where
  "worker_turn f rv = rv\<lparr>rv_device := (rv_device rv)\<lparr>dv_worker := map_option (worker_round f) (dv_worker (rv_device rv))\<rparr>\<rparr>"

fun voice_step :: "decoder \<Rightarrow> (string \<Rightarrow> (interaction, string) prog) \<Rightarrow> voice_move \<Rightarrow> real_voice \<Rightarrow> real_voice" where
  "voice_step decode handler (Cycle c) rv = snd (run_real_once decode c handler rv)"
| "voice_step decode handler Stop rv = snd (stop_real rv)"
| "voice_step decode handler (Sleep now) rv = rv\<lparr>rv_device := snd (enter_sleep now (rv_device rv))\<rparr>"
| "voice_step decode handler Wake rv = rv\<lparr>rv_device := snd (wake_up (rv_device rv))\<rparr>"
| "voice_step decode handler (Microphone chunk) rv = rv\<lparr>rv_stream := push_chunk chunk (rv_stream rv)\<rparr>"
| "voice_step decode handler (ListenerTurn source) rv = listener_turn decode source rv"
| "voice_step decode handler (WorkerTurn f) rv = worker_turn f rv"


section \<open>The worker is kept by the device\<close>

lemma on_governor_keeps [simp]:
  "dv_worker (on_governor f dv) = dv_worker dv" "dv_wake_engine (on_governor f dv) = dv_wake_engine dv"
  "dv_sleeping (on_governor f dv) = dv_sleeping dv"
  by (simp_all add: on_governor_def Let_def split: option.split)

lemma signal_governor_keeps:
  "dv_worker (snd (signal_governor now sl lo cr ov mi dv)) = dv_worker dv
   \<and> dv_wake_engine (snd (signal_governor now sl lo cr ov mi dv)) = dv_wake_engine dv
   \<and> dv_sleeping (snd (signal_governor now sl lo cr ov mi dv)) = dv_sleeping dv"
  by (simp add: signal_governor_def Let_def)

lemma evaluate_state_cases:
  assumes "evaluate_state rd dv = (r, dv')"
  obtains "dv' = dv" | now sl lo cr ov mi mh st where
    "dv' = (snd (signal_governor now sl lo cr ov mi (dv\<lparr>dv_microphone := mh\<rparr>)))\<lparr>dv_state := st\<rparr>"
  using assms by (auto simp: evaluate_state_def Let_def case_prod_beta split: sum.splits)

lemma evaluate_state_keeps:
  assumes "evaluate_state rd dv = (r, dv')"
  shows "dv_worker dv' = dv_worker dv \<and> dv_wake_engine dv' = dv_wake_engine dv \<and> dv_sleeping dv' = dv_sleeping dv"
  using assms by (cases rule: evaluate_state_cases) (simp_all add: signal_governor_keeps)

lemma evaluate_device_state_keeps:
  assumes "evaluate_device_state rd rv = (st, rv')"
  shows "dv_worker (rv_device rv') = dv_worker (rv_device rv) \<and> dv_wake_engine (rv_device rv') = dv_wake_engine (rv_device rv)
    \<and> rv_stream rv' = rv_stream rv \<and> rv_controller rv' = rv_controller rv \<and> rv_started rv' = rv_started rv"
  using assms by (auto simp: evaluate_device_state_def split: if_splits prod.splits sum.splits dest: evaluate_state_keeps)

lemma session_upkeep_keeps [simp]:
  "dv_worker (rv_device (maybe_unload_if_idle now rv)) = dv_worker (rv_device rv)"
  "rv_controller (maybe_unload_if_idle now rv) = rv_controller rv"
  "dv_worker (rv_device (evaluate_session_governor rd rv)) = dv_worker (rv_device rv)"
  "rv_controller (evaluate_session_governor rd rv) = rv_controller rv"
  by (simp_all add: maybe_unload_if_idle_def evaluate_session_governor_def)

section \<open>Deaf sessions\<close>

definition deaf_session :: "real_voice \<Rightarrow> bool" where
  "deaf_session rv \<longleftrightarrow> (\<exists>tw. dv_worker (rv_device rv) = Some tw \<and> deaf tw)"

lemma deaf_start: "deaf tw \<Longrightarrow> start_worker tw = (b, tw') \<Longrightarrow> deaf tw'"
  using worker_step_deaf [of tw StartWorker] by simp

lemma deaf_stop: "stop_worker tw = (r, tw') \<Longrightarrow> deaf tw'"
  using stop_worker_deaf [of tw] by simp

lemma deaf_submit: "deaf tw \<Longrightarrow> submit_audio a tw = (b, tw') \<Longrightarrow> \<not> b \<and> deaf tw'"
  using worker_step_deaf [of tw "Submit a"] by (auto simp: deaf_def submit_audio_def put_queue_def split: if_splits)

lemma start_real_deaf:
  "deaf_session rv \<Longrightarrow> start_real rv = (r, rv') \<Longrightarrow> deaf_session rv' \<and> rv_controller rv' = rv_controller rv"
  by (auto simp: start_real_def deaf_session_def Let_def split: if_splits option.splits prod.splits dest: deaf_start)

lemma stop_real_deaf:
  "deaf_session rv \<Longrightarrow> stop_real rv = (r, rv') \<Longrightarrow> deaf_session rv' \<and> rv_controller rv' = rv_controller rv"
  by (auto simp: stop_real_def deaf_session_def Let_def split: if_splits option.splits prod.splits sum.splits dest: deaf_stop)

lemma hear_deaf:
  "deaf_session rv \<Longrightarrow> hear decode c handler rv = (r, rv') \<Longrightarrow> deaf_session rv' \<and> rv_controller rv' = rv_controller rv"
  by (auto simp: hear_def deaf_session_def Let_def split: if_splits option.splits prod.splits dest: deaf_submit)

lemma run_real_once_deaf:
  assumes deaf: "deaf_session rv" and run: "run_real_once decode c handler rv = (r, rv')"
  shows "deaf_session rv' \<and> rv_controller rv' = rv_controller rv"
proof -
  obtain q rv1 where st: "start_real rv = (q, rv1)" by fastforce
  note one = start_real_deaf [OF deaf st]
  obtain state rv2 where ev: "evaluate_device_state (vc_device c) rv1 = (state, rv2)" by fastforce
  have two: "deaf_session rv2" "rv_controller rv2 = rv_controller rv"
    using one evaluate_device_state_keeps [OF ev] by (auto simp: deaf_session_def)
  have three: "deaf_session (rv2\<lparr>rv_device := (rv_device rv2)\<lparr>dv_wake_engine := w\<rparr>\<rparr>)" for w
    using two by (simp add: deaf_session_def)
  show ?thesis
    using run one two three
    by (auto simp: run_real_once_def st ev Let_def split: if_splits option.splits prod.splits sum.splits dest: hear_deaf [OF three])
       (auto simp: deaf_session_def)
qed

lemma enter_sleep_deaf:
  assumes "\<not> dv_sleeping dv" and "dv_worker dv = Some tw"
  shows "\<exists>tw'. dv_worker (snd (enter_sleep now dv)) = Some tw' \<and> deaf tw'"
proof -
  obtain r tw' where "stop_worker tw = (r, tw')" by fastforce
  with assms deaf_stop [OF this] show ?thesis by (cases r) (simp_all add: enter_sleep_def Let_def)
qed

lemma sleep_keeps_deaf:
  "\<exists>tw. dv_worker dv = Some tw \<and> deaf tw \<Longrightarrow> \<exists>tw. dv_worker (snd (enter_sleep now dv)) = Some tw \<and> deaf tw"
  using enter_sleep_deaf [of dv] by (cases "dv_sleeping dv") (auto simp: enter_sleep_def)

lemma wake_keeps_deaf:
  "\<exists>tw. dv_worker dv = Some tw \<and> deaf tw \<Longrightarrow> \<exists>tw. dv_worker (snd (wake_up dv)) = Some tw \<and> deaf tw"
  by (auto simp: wake_up_def split: prod.splits bool.splits dest: deaf_start)

lemma voice_step_deaf:
  assumes "deaf_session rv"
  shows "deaf_session (voice_step decode handler m rv) \<and> rv_controller (voice_step decode handler m rv) = rv_controller rv"
proof (cases m)
  case (Cycle c)
  then show ?thesis using run_real_once_deaf [OF assms, of decode c handler] by (metis prod.collapse voice_step.simps(1))
next
  case Stop
  then show ?thesis using stop_real_deaf [OF assms] by (metis prod.collapse voice_step.simps(2))
next
  case (Sleep now)
  then show ?thesis using assms sleep_keeps_deaf by (auto simp: deaf_session_def)
next
  case Wake
  then show ?thesis using assms wake_keeps_deaf by (auto simp: deaf_session_def)
next
  case (WorkerTurn f)
  then show ?thesis using assms worker_step_deaf [of _ "Round f"] by (auto simp: deaf_session_def worker_turn_def)
qed (use assms in \<open>auto simp: deaf_session_def listener_turn_def split: option.split prod.split\<close>)

lemma voice_run_deaf:
  "deaf_session rv \<Longrightarrow> rv_controller (fold (voice_step decode handler) ms rv) = rv_controller rv"
proof (induction ms arbitrary: rv)
  case (Cons m ms)
  then show ?case using voice_step_deaf [of rv decode handler m] by simp
qed simp


text \<open>The loop goes on over exceptions, so its state is that of its cycles, one after the other.\<close>

lemma voice_loop_state: "snd (run_voice_loop run (map Poll cs) s) = fold (\<lambda>c s. snd (run c s)) cs s"
proof -
  have "snd (voice_loop run (map Poll cs) s) = fold (\<lambda>c s. snd (run c s)) cs s"
    by (induction cs arbitrary: s) (simp_all add: case_prod_beta Let_def)
  then show ?thesis by (simp add: run_voice_loop_def case_prod_beta)
qed

lemma voice_loop_deaf:
  assumes "deaf_session rv"
  shows "rv_controller (snd (run_voice_loop (\<lambda>c. run_real_once decode c handler) (map Poll cs) rv)) = rv_controller rv"
proof -
  have "fold (\<lambda>c s. snd (run_real_once decode c handler s)) cs rv = fold (voice_step decode handler) (map Cycle cs) rv"
    by (induction cs arbitrary: rv) simp_all
  then show ?thesis using voice_run_deaf [OF assms] by (simp add: voice_loop_state)
qed

section \<open>Transcriptions in progress\<close>

text \<open>
  A transcription that ends in time leaves the count of active transcriptions as it was; one that does
  not leaves it raised, and until it ends the model is not unloaded, not even by force.
\<close>

lemma transcribe_counts:
  assumes "transcribe_audio now in_time call a mm = (Inr t, mm')" and "0 \<le> mm_active_transcriptions mm"
  shows "mm_active_transcriptions mm' = mm_active_transcriptions mm + (if a = [] \<or> in_time then 0 else 1)"
proof (cases "a = []")
  case False
  obtain r mm1 where load: "load_asr_model (now 0) mm = (r, mm1)" by fastforce
  then have "mm_active_transcriptions mm1 = mm_active_transcriptions mm"
    by (auto simp: load_asr_model_def split: option.splits sum.splits)
  with assms False load show ?thesis
    by (cases r) (auto simp: transcribe_audio_def mark_transcription_start_def mark_transcription_end_def Let_def split: if_splits)
qed (use assms in \<open>simp add: transcribe_audio_def\<close>)

lemma late_transcription_keeps_model:
  assumes "transcribe_audio now False call a mm = (Inr t, mm')" and "0 \<le> mm_active_transcriptions mm" and "a \<noteq> []"
  shows "unload_if_idle later idle force mm' = (False, mm')"
  using transcribe_counts [OF assms(1,2)] assms(2,3) by (simp add: unload_if_idle_def)

section \<open>A cycle after a wake event\<close>

lemma awake_report: "evaluate_state rd dv = (Inr report, dv') \<Longrightarrow> \<not> dv_sleeping dv \<Longrightarrow> rp_state report \<noteq> ''SLEEP''"
  by (auto simp: evaluate_state_def device_state_of_def Let_def case_prod_beta split: sum.splits if_splits)

lemma run_woken:
  assumes "rv_started rv" and "\<not> dv_sleeping (rv_device rv)"
    and we: "dv_wake_engine (rv_device rv) = Some we" "we_wake_event we"
  shows "\<exists>dv. dv_worker dv = dv_worker (rv_device rv) \<and> dv_wake_engine dv = Some (we\<lparr>we_wake_event := False\<rparr>)
    \<and> \<not> dv_sleeping dv \<and> run_real_once decode c handler rv = hear decode c handler (rv\<lparr>rv_device := dv\<rparr>)"
proof -
  obtain st rv2 where ev: "evaluate_device_state (vc_device c) rv = (st, rv2)" by fastforce
  obtain dv where rv2: "rv2 = rv\<lparr>rv_device := dv\<rparr>" and st: "st \<noteq> Some ''SLEEP''" and "\<not> dv_sleeping dv"
    using ev assms(2) that [of "rv_device rv"]
    by (auto simp: evaluate_device_state_def split: if_splits prod.splits sum.splits dest: awake_report evaluate_state_keeps)
  moreover have "dv_worker dv = dv_worker (rv_device rv)" "dv_wake_engine dv = Some we"
    using evaluate_device_state_keeps [OF ev] we by (simp_all add: rv2)
  ultimately show ?thesis using assms(1) we ev
    by (intro exI [of _ "dv\<lparr>dv_wake_engine := Some (we\<lparr>we_wake_event := False\<rparr>)\<rparr>"])
       (simp add: run_real_once_def start_real_def wait_for_wake_def)
qed

section \<open>A sample session\<close>

text \<open>
  A running session in which a guest has spoken after the wake word, then the wake word and an owner
  are heard; bytes are read as characters.
\<close>

definition spoken :: "string \<Rightarrow> audio" where
  "spoken s = map of_char s"

definition guest_audio :: audio where
  "guest_audio = spoken ''tier:guest text:cancel task tea''"

definition owner_audio :: audio where
  "owner_audio = spoken ''text:good morning''"

definition fallback_transcribe :: "audio \<Rightarrow> exc + string" where
  "fallback_transcribe a = Inr (normalize_text (transcribe_bytes (map char_of) a))"

definition sample_wake :: wake_engine where
  "sample_wake = \<lparr>we_trigger = ''hey apcos'', we_running = True, we_wake_event = True\<rparr>"

definition sample_voice :: "interaction \<Rightarrow> real_voice" where
  "sample_voice ic = \<lparr>rv_device = sample_device\<lparr>dv_sleeping := False, dv_worker := Some sample_worker, dv_wake_engine := Some sample_wake\<rparr>,
     rv_watches_device = True, rv_stream = \<lparr>au_chunk_size = 320, au_max_buffer_chunks = 64,
       au_buffer = [guest_audio, spoken ''hey apcos'', owner_audio], au_running = True, au_dropped_chunks = 0\<rparr>,
     rv_controller = ic, rv_idle_unload_seconds = Fin 300, rv_started = True, rv_last_activity = Fin 0\<rparr>"

definition sample_cycle :: voice_cycle where
  "sample_cycle = \<lparr>vc_device = sample_readings,
     vc_governor = \<lparr>rd_cpu = Fin 10, rd_memory = Fin 10, rd_memory_again = Fin 10, rd_monotonic = Fin 0, rd_time = Fin 0\<rparr>,
     vc_source = None, vc_worker_turn = None, vc_monotonic = (\<lambda>_. Fin 0)\<rparr>"

definition voice_user :: "string \<Rightarrow> string \<Rightarrow> identity_context" where
  "voice_user user_id tier = \<lparr>id_user_id = user_id, id_tier = tier, id_authenticated = True\<rparr>"

abbreviation sample_handler :: "string \<Rightarrow> (interaction, string) prog" where
  "sample_handler \<equiv> apcos_input stub_env (DateTime 0 None) reasoning_keys stub_llm"

section \<open>Properties\<close>

text \<open>
  C26. A voice session that has been stopped, or whose device has once been put to sleep, never hears
  anything again: whatever cycles, restarts, wake-ups, thread turns and audio follow, no input reaches
  the interaction controller, although the session and the worker start again without an error.
\<close>

theorem session_is_deaf_after_stop_or_sleep:
  assumes "rv_started rv" and "\<not> dv_sleeping (rv_device rv)" and "dv_worker (rv_device rv) = Some tw"
    and "dv_wake_engine (rv_device rv) = Some we" and "first = Stop \<or> first = Sleep now"
  shows "rv_controller (fold (voice_step decode handler) ms (voice_step decode handler first rv)) = rv_controller rv"
proof -
  have "deaf_session (voice_step decode handler first rv) \<and> rv_controller (voice_step decode handler first rv) = rv_controller rv"
  proof (cases "first = Stop")
    case True
    obtain r tw' where "stop_worker tw = (r, tw')" by fastforce
    with assms deaf_stop [OF this] True show ?thesis
      by (cases r) (simp_all add: stop_real_def deaf_session_def Let_def)
  next
    case False
    with assms enter_sleep_deaf [of "rv_device rv" tw now] show ?thesis by (auto simp: deaf_session_def)
  qed
  then show ?thesis using voice_run_deaf [of "voice_step decode handler first rv"] by simp
qed


theorem session_is_deaf_after_stop_or_sleep_witness:
  "\<exists>s rt ic. init_store ''k'' None default_options [] 0 = Inr s
     \<and> init_router stub_env s None (Some sample_config) = Inr rt \<and> init_interaction rt sample_controller = Inr ic
     \<and> rv_controller (fold (voice_step (map char_of) sample_handler)
          [Cycle sample_cycle, Microphone owner_audio, ListenerTurn None, Cycle sample_cycle]
          (voice_step (map char_of) sample_handler Stop (sample_voice ic))) = ic"
proof (rule sample_session)
  fix s rt ic
  assume init: "init_store ''k'' None default_options [] 0 = Inr s"
    "init_router stub_env s None (Some sample_config) = Inr rt" "init_interaction rt sample_controller = Inr ic"
  have f: "rv_started (sample_voice ic)" "\<not> dv_sleeping (rv_device (sample_voice ic))"
      "dv_worker (rv_device (sample_voice ic)) = Some sample_worker" "dv_wake_engine (rv_device (sample_voice ic)) = Some sample_wake"
      "rv_controller (sample_voice ic) = ic"
    by (simp_all add: sample_voice_def)
  from init session_is_deaf_after_stop_or_sleep [OF f(1-4) disjI1 [OF refl]] f(5) show ?thesis by metis
qed

text \<open>
  C25. A transcript that arrives after its cycle has given up waiting is used by the next cycle, under the
  identity of the next speaker: the first speaker's words \<open>w1\<close> reach the controller with the identity
  resolved from the second speaker's audio \<open>a2\<close>.
\<close>

theorem late_transcript_runs_under_next_speaker:
  assumes session: "rv_started rv" "\<not> dv_sleeping (rv_device rv)"
    and worker: "dv_worker (rv_device rv) = Some tw" "tw_thread_alive tw" "tw_on_transcription tw = None"
      "tw_audio_queue tw = \<lparr>tq_items = [], tq_max_size = n, tq_closed = False\<rparr>"
      "tw_text_queue tw = \<lparr>tq_items = [], tq_max_size = n, tq_closed = False\<rparr>" "1 \<le> n"
    and engine: "dv_wake_engine (rv_device rv) = Some we" "we_running we" "we_wake_event we" "detect_trigger decode (we_trigger we) w"
    and stream: "au_running (rv_stream rv)" "au_buffer (rv_stream rv) = [a1, w, a2]" "a1 \<noteq> []" "a2 \<noteq> []"
    and words: "f a1 = Inr w1" "strip w1 \<noteq> []" "resolve_voice_identity decode a2 (Some w1) = Inr speaker"
    and timing: "vc_worker_turn c1 = None" "vc_worker_turn c2 = None"
  shows "rv_controller (fold (voice_step decode handler) [Cycle c1, WorkerTurn f, ListenerTurn None, Cycle c2] rv) =
    snd (handler w1 (set_identity speaker (rv_controller rv)))"
proof -
  let ?q = "\<lambda>xs. \<lparr>tq_items = xs, tq_max_size = n, tq_closed = False\<rparr>"
  let ?tw = "tw\<lparr>tw_audio_queue := ?q [a1], tw_text_queue := ?q []\<rparr>"
  let ?au = "(rv_stream rv)\<lparr>au_buffer := [w, a2]\<rparr>"
  from worker have tw: "tw = tw\<lparr>tw_audio_queue := ?q [], tw_text_queue := ?q []\<rparr>" by simp
  obtain dv where dv: "dv_worker dv = Some tw" "dv_wake_engine dv = Some (we\<lparr>we_wake_event := False\<rparr>)" "\<not> dv_sleeping dv"
    and run: "run_real_once decode c1 handler rv = hear decode c1 handler (rv\<lparr>rv_device := dv\<rparr>)"
    using run_woken [of rv we decode c1 handler] session engine worker(1) by auto
  define rv1 where "rv1 = rv\<lparr>rv_device := dv\<lparr>dv_worker := Some ?tw\<rparr>, rv_stream := ?au\<rparr>"
  have one: "voice_step decode handler (Cycle c1) rv = rv1"
    using dv worker stream timing by (simp add: run hear_def read_chunk_def submit_audio_def put_queue_def
        get_transcription_def get_queue_def rv1_def)
  define rv3 where "rv3 = rv\<lparr>rv_device := dv\<lparr>dv_worker := Some (tw\<lparr>tw_audio_queue := ?q [], tw_text_queue := ?q [w1]\<rparr>),
     dv_wake_engine := Some (we\<lparr>we_wake_event := True\<rparr>)\<rparr>, rv_stream := (rv_stream rv)\<lparr>au_buffer := [a2]\<rparr>\<rparr>"
  have "w1 \<noteq> []" using words by (auto simp: strip_def)
  then have three: "voice_step decode handler (ListenerTurn None) (voice_step decode handler (WorkerTurn f) rv1) = rv3"
    using dv worker engine stream words by (simp add: rv1_def rv3_def worker_turn_def worker_round_def get_queue_def put_queue_def
        listener_turn_def wake_round_def read_chunk_def)
  obtain dv3 where dv3: "dv_worker dv3 = Some (tw\<lparr>tw_audio_queue := ?q [], tw_text_queue := ?q [w1]\<rparr>)"
    and run3: "run_real_once decode c2 handler rv3 = hear decode c2 handler (rv3\<lparr>rv_device := dv3\<rparr>)"
    using run_woken [of rv3 "we\<lparr>we_wake_event := True\<rparr>" decode c2 handler] session dv by (auto simp: rv3_def)
  have "rv_controller (snd (hear decode c2 handler (rv3\<lparr>rv_device := dv3\<rparr>))) =
      snd (handler w1 (set_identity speaker (rv_controller rv)))"
    using dv3 worker stream words timing
    by (simp add: hear_def read_chunk_def submit_audio_def put_queue_def get_transcription_def get_queue_def rv3_def
        Let_def split: prod.split sum.split)
  with one three run3 show ?thesis by simp
qed


theorem late_transcript_runs_under_next_speaker_witness:
  "\<exists>s rt ic. init_store ''k'' None default_options [] 0 = Inr s
     \<and> init_router stub_env s None (Some sample_config) = Inr rt \<and> init_interaction rt sample_controller = Inr ic
     \<and> resolve_voice_identity (map char_of) guest_audio (Some ''cancel task tea'') = Inr (voice_user ''guest_voice_session'' ''GUEST'')
     \<and> rv_controller (fold (voice_step (map char_of) sample_handler)
          [Cycle sample_cycle, WorkerTurn fallback_transcribe, ListenerTurn None, Cycle sample_cycle] (sample_voice ic)) =
        snd (sample_handler ''cancel task tea'' (set_identity (voice_user ''owner_voice_session'' ''OWNER'') ic))"
proof (rule sample_session)
  fix s rt ic
  assume init: "init_store ''k'' None default_options [] 0 = Inr s"
    "init_router stub_env s None (Some sample_config) = Inr rt" "init_interaction rt sample_controller = Inr ic"
  have heard: "fallback_transcribe guest_audio = Inr ''cancel task tea''" by code_simp
  have guest: "resolve_voice_identity (map char_of) guest_audio (Some ''cancel task tea'') = Inr (voice_user ''guest_voice_session'' ''GUEST'')"
    by code_simp
  have facts: "strip ''cancel task tea'' \<noteq> []" "resolve_voice_identity (map char_of) owner_audio (Some ''cancel task tea'') =
      Inr (voice_user ''owner_voice_session'' ''OWNER'')"
    "detect_trigger (map char_of) ''hey apcos'' (spoken ''hey apcos'')" "guest_audio \<noteq> []" "owner_audio \<noteq> []"
    by code_simp+
  have "rv_controller (fold (voice_step (map char_of) sample_handler)
          [Cycle sample_cycle, WorkerTurn fallback_transcribe, ListenerTurn None, Cycle sample_cycle] (sample_voice ic)) =
      snd (sample_handler ''cancel task tea'' (set_identity (voice_user ''owner_voice_session'' ''OWNER'') (rv_controller (sample_voice ic))))"
    by (rule late_transcript_runs_under_next_speaker [where tw = sample_worker and we = sample_wake and n = 32
          and w = "spoken ''hey apcos''" and ?a1.0 = guest_audio and ?a2.0 = owner_audio])
       (simp_all add: sample_voice_def sample_worker_def sample_wake_def sample_cycle_def facts heard)
  then have "rv_controller (fold (voice_step (map char_of) sample_handler)
          [Cycle sample_cycle, WorkerTurn fallback_transcribe, ListenerTurn None, Cycle sample_cycle] (sample_voice ic)) =
      snd (sample_handler ''cancel task tea'' (set_identity (voice_user ''owner_voice_session'' ''OWNER'') ic))"
    by (simp add: sample_voice_def)
  with init guest show ?thesis by blast
qed

end
