(* ===== verification/Bootstrap.thy ===== *)
theory Bootstrap
  imports Real_Voice
begin

text \<open>
  Start-up: \<open>apcos/bootstrap/config_loader.py\<close>, the wiring of \<open>apcos/bootstrap/container.py\<close> and the checks of
  \<open>apcos/bootstrap/startup_validator.py\<close>. What the configuration file holds, or why it cannot be read, is an
  argument; so are the files of the project with their texts, and what \<open>ast.parse\<close> finds in a text.
\<close>

section \<open>Configuration\<close>

datatype config_file = MissingFile | UnreadableFile | InvalidYaml | Document pyval

definition REQUIRED_SECTIONS :: "string list" where
  "REQUIRED_SECTIONS = [''command_router'', ''calibration'', ''proactive'', ''runtime'', ''hardware'']"

definition DEFAULTS :: "(string \<times> pydict) list" where
  "DEFAULTS =
     [(''command_router'', [(''min_confidence'', PFloat (float_round (65 / 100))), (''enable_challenge_gate'', PBool True)]),
      (''calibration'', [(''enabled'', PBool True), (''min_threshold'', PFloat (Fin (1 / 2))),
         (''max_threshold'', PFloat (float_round (9 / 10))), (''step_size'', PFloat (float_round (5 / 100)))]),
      (''proactive'', [(''confidence_threshold'', PFloat (float_round (7 / 10))), (''daily_limit'', PInt 3),
         (''silent_mode'', PBool False)]),
      (''runtime'', [(''cpu_threshold_percent'', PInt 75), (''memory_threshold_mb'', PInt 500), (''max_threads'', PInt 4),
         (''power_mode'', PStr ''NORMAL''), (''model_downgrade_enabled'', PBool True), (''idle_unload_seconds'', PInt 300)]),
      (''hardware'', [(''battery_low_percent'', PInt 20), (''battery_critical_percent'', PInt 10),
         (''thermal_limit_celsius'', PInt 75), (''sleep_idle_seconds'', PInt 300)])]"

text \<open>\<open>d.update(e)\<close>.\<close>

definition dict_update :: "pydict \<Rightarrow> pydict \<Rightarrow> pydict" where
  "dict_update d e = fold (\<lambda>(k, v) acc. dict_set acc k v) e d"

definition merge_block :: "pydict \<Rightarrow> pyval \<Rightarrow> pydict" where
  "merge_block default_value existing = (case existing of PDict d \<Rightarrow> dict_update default_value d | _ \<Rightarrow> default_value)"

definition merge_defaults :: "pydict \<Rightarrow> pydict" where
  "merge_defaults loaded =
     (let merged = map (\<lambda>(key, default_value). (key, PDict (merge_block default_value (dict_get_or loaded key (PDict []))))) DEFAULTS
      in merged @ filter (\<lambda>(key, _). \<not> dict_has merged key) loaded)"

definition validate_required_sections :: "pydict \<Rightarrow> exc + unit" where
  "validate_required_sections config =
     (if filter (\<lambda>section. \<not> dict_has config section) REQUIRED_SECTIONS \<noteq> []
      then Inl (ValueError ''Configuration missing required sections'') else Inr ())"

definition validate_section_shapes :: "pydict \<Rightarrow> exc + unit" where
  "validate_section_shapes config =
     (if list_all (\<lambda>section. is_dict (dict_get config section)) REQUIRED_SECTIONS then Inr ()
      else Inl (ValueError ''Configuration section must be a mapping/object.''))"

text \<open>Freezing the result changes no value, so the mapping is returned as it is.\<close>

definition load_config :: "config_file \<Rightarrow> exc + pydict" where
  "load_config file =
     (case file of
        MissingFile \<Rightarrow> Inl (ValueError ''Configuration file not found'')
      | InvalidYaml \<Rightarrow> Inl (ValueError ''Configuration file is invalid YAML'')
      | UnreadableFile \<Rightarrow> Inl (ValueError ''Unable to read configuration file'')
      | Document v \<Rightarrow>
          (case (if truthy v then v else PDict []) of
             PDict loaded \<Rightarrow>
               result_bind (validate_required_sections loaded) (\<lambda>_.
               let merged = merge_defaults loaded in
               result_bind (validate_section_shapes merged) (\<lambda>_. Inr merged))
           | _ \<Rightarrow> Inl (ValueError ''Configuration root must be a mapping/object.'')))"

section \<open>Wiring\<close>

definition get_mapping :: "pyval \<Rightarrow> pydict" where
  "get_mapping v = (case v of PDict d \<Rightarrow> d | _ \<Rightarrow> [])"

text \<open>\<open>AppContainer.__post_init__\<close>, with the default values of \<open>TaskStore\<close>, \<open>ChallengeLogic\<close>, \<open>PatternDetector\<close> and \<open>AcceptanceTracker\<close>.\<close>

definition app_container :: "py_env \<Rightarrow> pydict \<Rightarrow> pyval option \<Rightarrow> exc + interaction" where
  "app_container env config document =
     (let proactive_cfg = get_mapping (dict_get_or config ''proactive'' (PDict [])) in
      result_bind (py_float env (dict_get_or proactive_cfg ''confidence_threshold'' (PFloat (float_round (7 / 10))))) (\<lambda>threshold.
      result_bind (py_int env (dict_get_or proactive_cfg ''daily_limit'' (PInt 3))) (\<lambda>daily_limit.
      result_bind (init_store ''apcos-dev-key'' (Some (init_lifecycle None True)) default_options [] 0) (\<lambda>store.
      result_bind (init_challenge (Fin (1 / 2))) (\<lambda>challenge.
      result_bind (init_router env store (Some challenge) document) (\<lambda>router.
      result_bind (load_calibration env document) (\<lambda>calibration.
      result_bind (init_proactive threshold daily_limit 10 3 4
          \<lparr>pd_overload_threshold = 8, pd_goal_deviation_threshold = float_round (6 / 10)\<rparr> [] calibration) (\<lambda>proactive.
      init_interaction router proactive))))))))"

definition build_app :: "py_env \<Rightarrow> pydict option \<Rightarrow> config_file \<Rightarrow> exc + interaction" where
  "build_app env config file =
     result_bind (case config of Some c \<Rightarrow> Inr c | None \<Rightarrow> load_config file) (\<lambda>loaded_config.
       app_container env loaded_config (case file of Document v \<Rightarrow> Some v | _ \<Rightarrow> None))"


text \<open>
  \<open>build_real_voice_session\<close> with every optional component left out. \<open>runtime\<close> and \<open>hardware\<close> are read
  from the configuration; the model manager, the limiter and the governor are shared. The probes of the
  capability detector do not influence the result.
\<close>

definition runtime_governor ::
  "bool \<Rightarrow> pyfloat \<Rightarrow> pyfloat \<Rightarrow> bool \<Rightarrow> pyfloat \<Rightarrow> string \<Rightarrow> thread_limiter \<Rightarrow> exc + resource_governor option" where
  "runtime_governor enabled cpu_threshold memory_threshold_mb downgrade idle_unload power_mode limiter =
     (if \<not> enabled then Inr None
      else result_bind (init_cpu_monitor cpu_threshold 5) (\<lambda>cm. Inr (Some
        (register_asr_engine (bounded_timeout (Fin 2))
        (register_power_manager (init_power_mode power_mode)
        (register_thread_pool limiter
        (register_model_manager (init_manager default_model_loader)
           (init_governor cm memory_threshold_mb (Fin 1) downgrade idle_unload))))))))"

definition build_real_voice_session ::
  "py_env \<Rightarrow> pyfloat \<Rightarrow> bool \<Rightarrow> pydict option \<Rightarrow> config_file \<Rightarrow> exc + real_voice" where
  "build_real_voice_session env now runtime_governor_enabled config file =
     result_bind (case config of Some c \<Rightarrow> Inr c | None \<Rightarrow> load_config file) (\<lambda>loaded_config.
     result_bind (build_app env (Some loaded_config) file) (\<lambda>controller.
     let runtime_cfg = get_mapping (dict_get_or loaded_config ''runtime'' (PDict []));
         hardware_cfg = get_mapping (dict_get_or loaded_config ''hardware'' (PDict [])) in
     result_bind (py_float env (dict_get_or runtime_cfg ''cpu_threshold_percent'' (PFloat (Fin 75)))) (\<lambda>cpu_threshold.
     result_bind (py_float env (dict_get_or runtime_cfg ''memory_threshold_mb'' (PFloat (Fin 500)))) (\<lambda>memory_threshold_mb.
     result_bind (py_int env (dict_get_or runtime_cfg ''max_threads'' (PInt 4))) (\<lambda>max_threads.
     result_bind (py_float env (dict_get_or runtime_cfg ''idle_unload_seconds'' (PFloat (Fin 300)))) (\<lambda>idle_unload_seconds.
     result_bind (py_float env (dict_get_or hardware_cfg ''battery_low_percent'' (PFloat (Fin 20)))) (\<lambda>battery_low_percent.
     result_bind (py_float env (dict_get_or hardware_cfg ''battery_critical_percent'' (PFloat (Fin 10)))) (\<lambda>battery_critical_percent.
     result_bind (py_float env (dict_get_or hardware_cfg ''thermal_limit_celsius'' (PFloat (Fin 75)))) (\<lambda>thermal_limit_celsius.
     result_bind (init_stream 3200 32) (\<lambda>stream.
     result_bind (init_trigger ''hey apcos'') (\<lambda>trigger.
     result_bind (init_limiter max_threads) (\<lambda>limiter.
     result_bind (init_worker 32 (Some limiter)) (\<lambda>worker.
     result_bind (init_battery battery_low_percent battery_critical_percent) (\<lambda>battery.
     result_bind (init_microphone 3) (\<lambda>microphone.
     result_bind (runtime_governor runtime_governor_enabled cpu_threshold memory_threshold_mb
         (truthy (dict_get_or runtime_cfg ''model_downgrade_enabled'' (PBool True))) idle_unload_seconds
         (py_str env (dict_get_or runtime_cfg ''power_mode'' (PStr ''NORMAL''))) limiter) (\<lambda>governor.
     Inr (init_real now idle_unload_seconds
       \<lparr>dv_battery = battery, dv_thermal_limit = thermal_limit_celsius, dv_microphone = microphone, dv_sleeping = False,
        dv_wake_engine = Some \<lparr>we_trigger = trigger, we_running = False, we_wake_event = False\<rparr>, dv_worker = Some worker,
        dv_model_manager = Some (init_manager default_model_loader), dv_governor = governor, dv_state = ''POWERED_ON''\<rparr>
       True stream controller)))))))))))))))))"

section \<open>Start-up checks\<close>

definition MUTATION_SCAN_DIRS :: "string list" where
  "MUTATION_SCAN_DIRS = [''core'', ''interface'', ''voice'', ''services'', ''apcos'']"

definition REQUIRED_DIRS :: "string list" where
  "REQUIRED_DIRS = [''core'', ''interface'', ''voice'', ''services'', ''apcos'', ''configs'']"

definition FORBIDDEN_IMPORT_MODULES :: "string list" where
  "FORBIDDEN_IMPORT_MODULES = [''core.memory.lifecycle_manager'', ''core.memory.task_store'']"

definition ALLOWED_IMPORT_FILES :: "string list" where
  "ALLOWED_IMPORT_FILES = [''core/cognition/command_router.py'', ''core/memory/task_store.py'']"

text \<open>A Python file below a scanned folder, and the import statements of a parsed text: \<open>import a, b\<close>
  and \<open>from m import ...\<close> with the module, or \<open>None\<close> for a relative import without one.\<close>

record py_file =
  pf_folder :: string
  pf_path :: string
  pf_source :: string

datatype import_node = Import "string list" | ImportFrom "string option"

definition is_forbidden_import :: "string \<Rightarrow> bool" where
  "is_forbidden_import module_name \<longleftrightarrow>
     list_ex (\<lambda>forbidden. module_name = forbidden \<or> starts_with module_name (forbidden @ ''.'')) FORBIDDEN_IMPORT_MODULES"

fun node_violations :: "import_node \<Rightarrow> string list" where
  "node_violations (Import names) = filter is_forbidden_import names"
| "node_violations (ImportFrom source) = filter is_forbidden_import [case source of None \<Rightarrow> [] | Some m \<Rightarrow> m]"

definition file_violations :: "(string \<Rightarrow> exc + import_node list) \<Rightarrow> py_file \<Rightarrow> exc + string list" where
  "file_violations ast_parse f =
     (if pf_path f \<in> set ALLOWED_IMPORT_FILES then Inr []
      else if \<not> contains (pf_source f) ''core.memory.lifecycle_manager'' \<and> \<not> contains (pf_source f) ''core.memory.task_store'' then Inr []
      else result_bind (ast_parse (pf_source f)) (\<lambda>nodes. Inr (concat (map node_violations nodes))))"

fun collect_violations :: "(string \<Rightarrow> exc + import_node list) \<Rightarrow> py_file list \<Rightarrow> exc + string list" where
  "collect_violations ast_parse [] = Inr []"
| "collect_violations ast_parse (f # fs) =
     result_bind (file_violations ast_parse f) (\<lambda>vs. result_bind (collect_violations ast_parse fs) (\<lambda>ws. Inr (vs @ ws)))"

definition validate_import_integrity :: "(string \<Rightarrow> exc + import_node list) \<Rightarrow> py_file list \<Rightarrow> exc + unit" where
  "validate_import_integrity ast_parse files =
     result_bind (collect_violations ast_parse
       (concat (map (\<lambda>folder. filter (\<lambda>f. pf_folder f = folder) files) MUTATION_SCAN_DIRS))) (\<lambda>violations.
     if violations \<noteq> [] then Inl (RuntimeError ''Startup mutation integrity check failed'') else Inr ())"

definition validate_config_sections :: "pydict \<Rightarrow> exc + unit" where
  "validate_config_sections config =
     (if filter (\<lambda>section. \<not> dict_has config section) REQUIRED_SECTIONS \<noteq> []
      then Inl (RuntimeError ''Startup configuration is missing required sections'') else Inr ())"

definition validate_required_directories :: "string list \<Rightarrow> exc + unit" where
  "validate_required_directories existing =
     (if filter (\<lambda>name. name \<notin> set existing) REQUIRED_DIRS \<noteq> []
      then Inl (RuntimeError ''Startup validation failed. Missing required directories'') else Inr ())"

text \<open>The construction check builds a router on the default file and closes the store.\<close>

definition validate_runtime_construction :: "py_env \<Rightarrow> pyval option \<Rightarrow> exc + unit" where
  "validate_runtime_construction env document =
     (case result_bind (init_store ''apcos-dev-key'' (Some (init_lifecycle None True)) default_options [] 0) (\<lambda>store.
           result_bind (init_challenge (Fin (1 / 2))) (\<lambda>challenge. init_router env store (Some challenge) document)) of
        Inl _ \<Rightarrow> Inl (RuntimeError ''Startup dependency construction check failed.'')
      | Inr _ \<Rightarrow> Inr ())"

text \<open>The fixed list of modules; what importing one raises, if anything, is an argument.\<close>

definition startup_modules :: "string list" where
  "startup_modules =
     [''apcos.bootstrap.config_loader'', ''apcos.bootstrap.logging_config'', ''apcos.bootstrap.container'',
      ''interface.interaction_controller'', ''interface.cli_shell'', ''core.cognition.command_router'',
      ''core.cognition.proactive_controller'', ''core.behavior.cpu_monitor'', ''core.behavior.memory_monitor'',
      ''core.behavior.thread_limiter'', ''core.behavior.power_state_manager'', ''core.behavior.resource_governor'',
      ''core.cognition.explanation_engine'', ''core.cognition.reasoning_engine'', ''core.identity.identity_context'',
      ''core.identity.identity_resolver'', ''core.identity.tier_policy'', ''core.identity.access_control'',
      ''voice.wake_word'', ''voice.audio_interface'', ''voice.asr_engine'',
      ''voice.audio_stream'', ''voice.model_manager'', ''voice.asr_engine_real'',
      ''voice.thread_safe_queue'', ''voice.transcription_worker'', ''voice.voice_identity_stub'',
      ''voice.voice_session'', ''voice.voice_controller'', ''voice.wake_word_engine'',
      ''services.hardware.battery_monitor'', ''services.hardware.capability_detector'', ''services.hardware.device_state_manager'',
      ''services.hardware.microphone_health'', ''services.hardware.sleep_manager'', ''services.hardware.thermal_monitor'']"

fun import_modules :: "(string \<Rightarrow> exc + unit) \<Rightarrow> string list \<Rightarrow> exc + unit" where
  "import_modules import_module [] = Inr ()"
| "import_modules import_module (m # ms) =
     (case import_module m of
        Inl _ \<Rightarrow> Inl (RuntimeError (''Startup import check failed for module: '' @ m))
      | Inr _ \<Rightarrow> import_modules import_module ms)"

definition validate_module_imports :: "(string \<Rightarrow> exc + unit) \<Rightarrow> exc + unit" where
  "validate_module_imports import_module = import_modules import_module startup_modules"

definition validate_startup ::
  "py_env \<Rightarrow> (string \<Rightarrow> exc + import_node list) \<Rightarrow> (string \<Rightarrow> exc + unit) \<Rightarrow> pydict \<Rightarrow> string list \<Rightarrow> py_file list
   \<Rightarrow> pyval option \<Rightarrow> exc + unit" where
  "validate_startup env ast_parse import_module config dirs files document =
     result_bind (validate_config_sections config) (\<lambda>_.
     result_bind (validate_required_directories dirs) (\<lambda>_.
     result_bind (validate_import_integrity ast_parse files) (\<lambda>_.
     result_bind (validate_module_imports import_module) (\<lambda>_.
     validate_runtime_construction env document))))"


section \<open>The merged configuration\<close>

lemma map_of_dict_update:
  assumes "distinct (map fst e)"
  shows "map_of (dict_update d e) k = (case map_of e k of Some v \<Rightarrow> Some v | None \<Rightarrow> map_of d k)"
  using assms
proof (induction e arbitrary: d)
  case (Cons p e)
  obtain j v where p: "p = (j, v)" by fastforce
  have "map_of e j = None" using Cons.prems by (simp add: p map_of_eq_None_iff)
  then show ?case using Cons by (simp add: dict_update_def p map_of_dict_set split: option.split)
qed (simp add: dict_update_def)

lemma map_of_map_block: "map_of (map (\<lambda>(k, b). (k, f k b)) xs) j = map_option (f j) (map_of xs j)"
  by (induction xs) auto

lemma merge_defaults_section:
  assumes "(sec, defaults) \<in> set DEFAULTS"
  shows "dict_get (merge_defaults loaded) sec = PDict (merge_block defaults (dict_get_or loaded sec (PDict [])))"
proof -
  let ?f = "\<lambda>key block. PDict (merge_block block (dict_get_or loaded key (PDict [])))"
  have "map_of DEFAULTS sec = Some defaults" using assms by (auto simp: DEFAULTS_def)
  then have "map_of (map (\<lambda>(key, block). (key, ?f key block)) DEFAULTS) sec = Some (?f sec defaults)"
    by (simp add: map_of_map_block)
  then show ?thesis by (simp add: merge_defaults_def dict_get_def map_add_def Let_def)
qed

lemma sections_have_defaults: "sec \<in> set REQUIRED_SECTIONS \<longleftrightarrow> sec \<in> fst ` set DEFAULTS"
  by (auto simp: REQUIRED_SECTIONS_def DEFAULTS_def)

lemma merged_shapes: "validate_section_shapes (merge_defaults loaded) = Inr ()"
proof -
  have "is_dict (dict_get (merge_defaults loaded) sec)" if "sec \<in> set REQUIRED_SECTIONS" for sec
    using that merge_defaults_section by (force simp: sections_have_defaults)
  then show ?thesis by (simp add: validate_section_shapes_def list_all_iff)
qed

text \<open>
  A configuration that loads has every required section, and each section is a mapping that holds
  the user's values and the defaults for what the user left out. A section that is not a mapping counts
  as empty, so the check of the section shapes cannot fail.
\<close>

theorem loaded_config_is_complete:
  assumes "load_config (Document (PDict loaded)) = Inr cfg"
    and "\<And>sec d. map_of loaded sec = Some (PDict d) \<Longrightarrow> distinct (map fst d)"
  shows "(\<forall>sec\<in>set REQUIRED_SECTIONS. dict_has loaded sec)
    \<and> (\<forall>(sec, defaults)\<in>set DEFAULTS. \<exists>block. dict_get cfg sec = PDict block
        \<and> (\<forall>k. map_of block k = (case map_of loaded sec of
              Some (PDict d) \<Rightarrow> (case map_of d k of Some v \<Rightarrow> Some v | None \<Rightarrow> map_of defaults k)
            | _ \<Rightarrow> map_of defaults k)))
    \<and> validate_section_shapes (merge_defaults loaded) = Inr ()"
proof -
  have ne: "loaded \<noteq> []" using assms(1) by (auto simp: load_config_def validate_required_sections_def REQUIRED_SECTIONS_def dict_has_def)
  have has: "\<forall>sec\<in>set REQUIRED_SECTIONS. dict_has loaded sec"
  proof (rule ccontr)
    assume "\<not> (\<forall>sec\<in>set REQUIRED_SECTIONS. dict_has loaded sec)"
    then have "filter (\<lambda>sec. \<not> dict_has loaded sec) REQUIRED_SECTIONS \<noteq> []" by (auto simp: filter_empty_conv)
    then show False using assms(1) ne by (simp add: load_config_def validate_required_sections_def)
  qed
  have cfg: "cfg = merge_defaults loaded"
    using assms(1) ne by (simp add: load_config_def result_bind_Inr_iff merged_shapes Let_def)
  have "map_of (merge_block defaults (dict_get_or loaded sec (PDict []))) k = (case map_of loaded sec of
      Some (PDict d) \<Rightarrow> (case map_of d k of Some v \<Rightarrow> Some v | None \<Rightarrow> map_of defaults k) | _ \<Rightarrow> map_of defaults k)"
    for sec defaults k
  proof (cases "map_of loaded sec")
    case None
    then show ?thesis by (simp add: merge_block_def dict_get_or_def dict_update_def)
  next
    case (Some v)
    show ?thesis
    proof (cases v)
      case (PDict d)
      with Some map_of_dict_update [OF assms(2) [of sec d]] show ?thesis by (simp add: merge_block_def dict_get_or_def)
    qed (simp_all add: Some merge_block_def dict_get_or_def)
  qed
  then show ?thesis using has merge_defaults_section by (auto simp: cfg merged_shapes)
qed


definition sloppy_config :: pydict where
  "sloppy_config = [(''command_router'', PNone), (''calibration'', PNone), (''proactive'', PDict [(''daily_limit'', PInt 5)]),
     (''runtime'', PDict []), (''hardware'', PList [])]"

theorem loaded_config_is_complete_witness:
  "\<exists>cfg block. load_config (Document (PDict sloppy_config)) = Inr cfg \<and> dict_get cfg ''hardware'' = PDict block
     \<and> map_of block ''battery_low_percent'' = Some (PInt 20)"
proof -
  have load: "load_config (Document (PDict sloppy_config)) = Inr (merge_defaults sloppy_config)"
    by (simp add: load_config_def merged_shapes) (simp add: validate_required_sections_def REQUIRED_SECTIONS_def dict_has_def sloppy_config_def)
  have distinct: "distinct (map fst d)" if "map_of sloppy_config sec = Some (PDict d)" for sec d
    using that by (auto simp: sloppy_config_def split: if_splits)
  have "map_of sloppy_config ''hardware'' = Some (PList [])" by (simp add: sloppy_config_def)
  moreover obtain defaults where "(''hardware'', defaults) \<in> set DEFAULTS" "map_of defaults ''battery_low_percent'' = Some (PInt 20)"
    by (simp add: DEFAULTS_def)
  ultimately show ?thesis using loaded_config_is_complete [OF load distinct] load by fastforce
qed

section \<open>The import check\<close>

definition mentions_memory :: "py_file \<Rightarrow> bool" where
  "mentions_memory f \<longleftrightarrow> contains (pf_source f) ''core.memory.lifecycle_manager'' \<or> contains (pf_source f) ''core.memory.task_store''"

lemma collect_violations_Nil:
  "collect_violations ast_parse fs = Inr [] \<longleftrightarrow> (\<forall>f\<in>set fs. file_violations ast_parse f = Inr [])"
  by (induction fs) (auto simp: result_bind_Inr_iff)

lemma file_violations_Nil:
  "file_violations ast_parse f = Inr [] \<longleftrightarrow> pf_path f \<in> set ALLOWED_IMPORT_FILES \<or> \<not> mentions_memory f
     \<or> (\<exists>nodes. ast_parse (pf_source f) = Inr nodes \<and> (\<forall>n\<in>set nodes. node_violations n = []))"
  by (auto simp: file_violations_def mentions_memory_def result_bind_Inr_iff)

text \<open>
  The start-up check of imports passes exactly when every scanned file outside the two allowed ones
  that mentions the dotted name of the task store or the lifecycle manager parses and has no import of
  them. A file that reaches them without spelling out the dotted name is not looked at.
\<close>

theorem import_check_is_textual:
  "validate_import_integrity ast_parse files = Inr () \<longleftrightarrow>
    (\<forall>f\<in>set files. pf_folder f \<in> set MUTATION_SCAN_DIRS \<longrightarrow> pf_path f \<notin> set ALLOWED_IMPORT_FILES \<longrightarrow> mentions_memory f \<longrightarrow>
       (\<exists>nodes. ast_parse (pf_source f) = Inr nodes \<and> (\<forall>n\<in>set nodes. node_violations n = [])))"
proof -
  have "validate_import_integrity ast_parse files = Inr () \<longleftrightarrow>
      collect_violations ast_parse (concat (map (\<lambda>folder. filter (\<lambda>f. pf_folder f = folder) files) MUTATION_SCAN_DIRS)) = Inr []"
    by (auto simp: validate_import_integrity_def result_bind_Inr_iff split: if_splits)
  also have "\<dots> \<longleftrightarrow> (\<forall>f\<in>set files. pf_folder f \<in> set MUTATION_SCAN_DIRS \<longrightarrow> file_violations ast_parse f = Inr [])"
    unfolding collect_violations_Nil by auto
  finally show ?thesis unfolding file_violations_Nil by blast
qed

theorem import_check_is_textual_witness:
  "validate_import_integrity (\<lambda>_. Inr [ImportFrom (Some ''core.memory'')])
     [\<lparr>pf_folder = ''voice'', pf_path = ''voice/x.py'', pf_source = ''from core.memory import task_store''\<rparr>] = Inr ()
   \<and> validate_import_integrity (\<lambda>_. Inr [ImportFrom (Some ''core.memory.task_store'')])
     [\<lparr>pf_folder = ''voice'', pf_path = ''voice/x.py'', pf_source = ''from core.memory.task_store import TaskStore''\<rparr>] \<noteq> Inr ()"
proof -
  have "\<not> mentions_memory \<lparr>pf_folder = ''voice'', pf_path = ''voice/x.py'', pf_source = ''from core.memory import task_store''\<rparr>"
    "mentions_memory \<lparr>pf_folder = ''voice'', pf_path = ''voice/x.py'', pf_source = ''from core.memory.task_store import TaskStore''\<rparr>"
    "node_violations (ImportFrom (Some ''core.memory.task_store'')) \<noteq> []"
    by code_simp+
  then show ?thesis unfolding import_check_is_textual by (simp add: MUTATION_SCAN_DIRS_def ALLOWED_IMPORT_FILES_def)
qed


section \<open>What is built\<close>

lemma app_container_parts:
  assumes "app_container env config document = Inr ic"
  obtains s cl pc threshold limit calibration where "init_store ''apcos-dev-key'' None default_options [] 0 = Inr s"
    "init_router env s (Some cl) document = Inr (ic_router ic)" "init_interaction (ic_router ic) pc = Inr ic" "ic_proactive ic = pc"
    "init_proactive threshold limit 10 3 4 \<lparr>pd_overload_threshold = 8, pd_goal_deviation_threshold = float_round (6 / 10)\<rparr> [] calibration = Inr pc"
proof -
  have "init_store k (Some (init_lifecycle None True)) default_options [] 0 = init_store k None default_options [] 0" for k
    by (simp add: init_store_def)
  with assms show thesis using that
    by (auto simp: app_container_def result_bind_Inr_iff init_interaction_def Let_def)
qed

text \<open>
  A controller that \<open>build_app\<close> returns starts with an empty task table and no audit event, as the
  owner, with a daily limit of at least one and a confidence threshold in the unit interval (or NaN), and
  never in silent mode, whatever \<open>proactive.silent_mode\<close> says.
\<close>

theorem built_app_starts_guarded:
  assumes "build_app env config file = Inr ic"
  shows "ts_rows (rt_task_store (ic_router ic)) = [] \<and> rt_audit_events (ic_router ic) = []
    \<and> id_tier (ic_identity ic) = ''OWNER'' \<and> 1 \<le> pc_daily_limit (ic_proactive ic)
    \<and> \<not> outside_unit (pc_confidence_threshold (ic_proactive ic)) \<and> \<not> pc_silent_mode (ic_proactive ic)"
proof -
  from assms obtain cfg doc where "app_container env cfg doc = Inr ic" by (auto simp: build_app_def result_bind_Inr_iff)
  then obtain s cl pc threshold limit calibration where store: "init_store ''apcos-dev-key'' None default_options [] 0 = Inr s"
    and router: "init_router env s (Some cl) doc = Inr (ic_router ic)" and ic: "init_interaction (ic_router ic) pc = Inr ic" "ic_proactive ic = pc"
    and pc: "init_proactive threshold limit 10 3 4 \<lparr>pd_overload_threshold = 8, pd_goal_deviation_threshold = float_round (6 / 10)\<rparr> [] calibration = Inr pc"
    by (rule app_container_parts)
  have "1 \<le> pc_daily_limit pc" "\<not> outside_unit (pc_confidence_threshold pc)" "\<not> pc_silent_mode pc"
    using pc by (auto simp: init_proactive_def split: if_splits)
  moreover have "id_tier (ic_identity ic) = ''OWNER''" using ic(1) by (cases ic) (simp add: init_interaction_def default_owner)
  ultimately show ?thesis using init_store_fields [OF store] init_router_facts [OF router] ic(2) by auto
qed


definition silent_config :: pydict where
  "silent_config = [(''proactive'', PDict [(''confidence_threshold'', PFloat (Fin (1 / 2))), (''daily_limit'', PInt 2),
     (''silent_mode'', PBool True)])]"

lemma silent_app:
  obtains ic where "build_app stub_env (Some silent_config) (Document sample_config) = Inr ic"
proof -
  obtain s where s: "init_store ''apcos-dev-key'' (Some (init_lifecycle None True)) default_options [] 0 = Inr s"
    using init_store_ok [of "''apcos-dev-key''"] by blast
  obtain cl where cl: "init_challenge (Fin (1 / 2)) = Inr cl" by (simp add: init_challenge_def outside_unit_def)
  obtain rt where "init_router stub_env s (Some cl) (Some sample_config) = Inr rt"
    by (simp add: init_router_def load_sample_config default_registry)
  moreover obtain cal where "load_calibration stub_env (Some sample_config) = Inr cal"
    by (simp add: load_calibration_def sample_config_def dict_get_or_def Let_def)
  ultimately show thesis using that s cl
    by (simp add: build_app_def app_container_def silent_config_def get_mapping_def dict_get_or_def init_proactive_def
        outside_unit_def init_interaction_def default_owner)
qed

theorem built_app_starts_guarded_witness:
  "\<exists>ic. build_app stub_env (Some silent_config) (Document sample_config) = Inr ic \<and> \<not> pc_silent_mode (ic_proactive ic)"
proof (rule silent_app)
  fix ic
  assume ic: "build_app stub_env (Some silent_config) (Document sample_config) = Inr ic"
  with built_app_starts_guarded [OF ic] show ?thesis by blast
qed

text \<open>
  A real voice session that is built from a configuration starts: its first \<open>start\<close> takes one thread
  slot, runs the stream, the worker and the wake engine; and \<open>stop\<close> afterwards succeeds and gives the
  slot back.
\<close>

theorem built_session_starts_and_stops:
  assumes "build_real_voice_session env now enabled config file = Inr rv"
  shows "\<exists>rv1 rv2 tw1 tw2 th. start_real rv = (Inr (), rv1) \<and> rv_started rv1 \<and> au_running (rv_stream rv1)
    \<and> dv_worker (rv_device rv1) = Some tw1 \<and> tw_thread_alive tw1
    \<and> map_option available_slots (tw_thread_limiter tw1) = Some (tl_max_threads th - 1)
    \<and> stop_real rv1 = (Inr (), rv2) \<and> \<not> rv_started rv2
    \<and> dv_worker (rv_device rv2) = Some tw2 \<and> tw_thread_limiter tw2 = Some th \<and> available_slots th = tl_max_threads th"
proof -
  obtain n limiter tw we where th: "init_limiter n = Inr limiter" and tw: "init_worker 32 (Some limiter) = Inr tw"
    and rv: "dv_worker (rv_device rv) = Some tw" "dv_wake_engine (rv_device rv) = Some we" "\<not> rv_started rv"
    using assms by (auto simp: build_real_voice_session_def result_bind_Inr_iff init_real_def Let_def)
  have n: "1 \<le> n" and limiter: "limiter = \<lparr>tl_max_threads = n, tl_semaphore = n, tl_in_use = 0\<rparr>"
    using th by (auto simp: init_limiter_def split: if_splits)
  have tw: "\<not> tw_thread_alive tw" "tw_thread_limiter tw = Some limiter"
    using tw by (auto simp: init_worker_def init_queue_def)
  show ?thesis
    using n tw rv
    by (simp add: start_real_def start_worker_def acquire_slot_def limiter stop_real_def stop_worker_def release_slot_def
        release_semaphore_def available_slots_def start_stream_def Let_def)
qed


theorem built_session_starts_and_stops_witness:
  "\<exists>rv rv1. build_real_voice_session stub_env (Fin 0) True (Some silent_config) (Document sample_config) = Inr rv
     \<and> start_real rv = (Inr (), rv1) \<and> rv_started rv1"
proof (rule silent_app)
  fix ic
  assume ic: "build_app stub_env (Some silent_config) (Document sample_config) = Inr ic"
  have trigger: "init_trigger ''hey apcos'' = Inr ''hey apcos''" by code_simp
  obtain rv where rv: "build_real_voice_session stub_env (Fin 0) True (Some silent_config) (Document sample_config) = Inr rv"
    by (simp add: build_real_voice_session_def ic [unfolded silent_config_def] trigger silent_config_def get_mapping_def dict_get_or_def init_stream_def init_limiter_def
        init_worker_def init_queue_def init_battery_def init_microphone_def runtime_governor_def init_cpu_monitor_def)
  with built_session_starts_and_stops [OF rv] show ?thesis by blast
qed

end
