(* ===== verification/Stub_Engines.thy ===== *)
theory Stub_Engines
  imports Real_Voice Encryption_Layer
begin

text \<open>
  The default speech engines of the single-run session: \<open>voice/asr_engine.py\<close>, \<open>voice/tts_engine.py\<close> and the
  capture of \<open>voice/audio_interface.py\<close>. Both engines load what they need at the first call and keep it; that
  contract is the locale \<open>lazy_engine\<close>. The loaders, the readings of the clock and the decoding of bytes are
  arguments; a loader may raise or give \<open>None\<close>.
\<close>

section \<open>Latencies\<close>

text \<open>\<open>(time.perf_counter() - start) * 1000.0\<close>.\<close>

definition elapsed_ms :: "pyfloat \<Rightarrow> pyfloat \<Rightarrow> pyfloat" where
  "elapsed_ms started now = (case float_sub now started of Fin x \<Rightarrow> fin_mul x 1000 | y \<Rightarrow> y)"

section \<open>Recognition\<close>

record asr_profile =
  ap_sequence :: int
  ap_cold_start :: bool
  ap_cache_reused :: bool
  ap_init_latency_ms :: pyfloat
  ap_transcribe_latency_ms :: pyfloat
  ap_total_latency_ms :: pyfloat
  ap_model_load_count :: int
  ap_pipeline_build_count :: int

record ('m, 'p) asr_engine =
  ae_model_loader :: "exc + 'm option"
  ae_pipeline_builder :: "'m option \<Rightarrow> exc + 'p option"
  ae_cached_model :: "'m option"
  ae_cached_pipeline :: "'p option"
  ae_model_load_count :: int
  ae_pipeline_build_count :: int
  ae_call_sequence :: int
  ae_last_profile :: asr_profile

definition init_asr :: "exc + 'm option \<Rightarrow> ('m option \<Rightarrow> exc + 'p option) \<Rightarrow> ('m, 'p) asr_engine" where
  "init_asr loader builder =
     \<lparr>ae_model_loader = loader, ae_pipeline_builder = builder, ae_cached_model = None, ae_cached_pipeline = None,
      ae_model_load_count = 0, ae_pipeline_build_count = 0, ae_call_sequence = 0,
      ae_last_profile = \<lparr>ap_sequence = 0, ap_cold_start = False, ap_cache_reused = False, ap_init_latency_ms = Fin 0,
        ap_transcribe_latency_ms = Fin 0, ap_total_latency_ms = Fin 0, ap_model_load_count = 0, ap_pipeline_build_count = 0\<rparr>\<rparr>"

definition load_model :: "(('m, 'p) asr_engine, bool) prog" where
  "load_model ae =
     (if ae_cached_model ae \<noteq> None then (Inr False, ae)
      else case ae_model_loader ae of
        Inl e \<Rightarrow> (Inl e, ae)
      | Inr m \<Rightarrow> (Inr True, ae\<lparr>ae_cached_model := m, ae_model_load_count := ae_model_load_count ae + 1\<rparr>))"

definition build_pipeline :: "(('m, 'p) asr_engine, bool) prog" where
  "build_pipeline ae =
     (if ae_cached_pipeline ae \<noteq> None then (Inr False, ae)
      else case ae_pipeline_builder ae (ae_cached_model ae) of
        Inl e \<Rightarrow> (Inl e, ae)
      | Inr p \<Rightarrow> (Inr True, ae\<lparr>ae_cached_pipeline := p, ae_pipeline_build_count := ae_pipeline_build_count ae + 1\<rparr>))"

text \<open>The flag \<open>cold_start\<close>; the latency is computed by the caller's readings of the clock.\<close>

definition ensure_initialized :: "(('m, 'p) asr_engine, bool) prog" where
  "ensure_initialized =
     and_then load_model (\<lambda>loaded. and_then build_pipeline (\<lambda>built. ret (loaded \<or> built)))"

definition decode_payload :: "decoder \<Rightarrow> audio \<Rightarrow> string" where
  "decode_payload decode audio =
     (if audio = [] then []
      else case after_marker text_marker audio of None \<Rightarrow> [] | Some raw \<Rightarrow> strip (decode raw))"

text \<open>
  The readings of the clock: \<open>0\<close> at the start, \<open>1\<close> and \<open>2\<close> around the initialisation, \<open>3\<close> before and
  \<open>4\<close> after the transcription, \<open>5\<close> for the total.
\<close>

definition stub_transcribe :: "decoder \<Rightarrow> (nat \<Rightarrow> pyfloat) \<Rightarrow> audio \<Rightarrow> (('m, 'p) asr_engine, string) prog" where
  "stub_transcribe decode clock audio =
     and_then ensure_initialized (\<lambda>cold_start ae.
       let transcript = decode_payload decode audio; n = ae_call_sequence ae + 1 in
       (Inr transcript, ae\<lparr>ae_call_sequence := n, ae_last_profile :=
          \<lparr>ap_sequence = n, ap_cold_start = cold_start, ap_cache_reused = (\<not> cold_start),
           ap_init_latency_ms = elapsed_ms (clock 1) (clock 2), ap_transcribe_latency_ms = elapsed_ms (clock 3) (clock 4),
           ap_total_latency_ms = elapsed_ms (clock 0) (clock 5), ap_model_load_count = ae_model_load_count ae,
           ap_pipeline_build_count = ae_pipeline_build_count ae\<rparr>\<rparr>))"

section \<open>Synthesis\<close>

record tts_profile =
  tp_sequence :: int
  tp_cold_start :: bool
  tp_cache_reused :: bool
  tp_startup_latency_ms :: pyfloat
  tp_playback_latency_ms :: pyfloat
  tp_total_latency_ms :: pyfloat
  tp_pipeline_load_count :: int

record 'p tts_engine =
  te_pipeline_loader :: "exc + 'p option"
  te_cached_pipeline :: "'p option"
  te_pipeline_load_count :: int
  te_call_sequence :: int
  te_last_profile :: tts_profile

definition init_tts :: "exc + 'p option \<Rightarrow> 'p tts_engine" where
  "init_tts loader =
     \<lparr>te_pipeline_loader = loader, te_cached_pipeline = None, te_pipeline_load_count = 0, te_call_sequence = 0,
      te_last_profile = \<lparr>tp_sequence = 0, tp_cold_start = False, tp_cache_reused = False, tp_startup_latency_ms = Fin 0,
        tp_playback_latency_ms = Fin 0, tp_total_latency_ms = Fin 0, tp_pipeline_load_count = 0\<rparr>\<rparr>"

definition tts_ensure_initialized :: "('p tts_engine, bool) prog" where
  "tts_ensure_initialized te =
     (if te_cached_pipeline te \<noteq> None then (Inr False, te)
      else case te_pipeline_loader te of
        Inl e \<Rightarrow> (Inl e, te)
      | Inr p \<Rightarrow> (Inr True, te\<lparr>te_cached_pipeline := p, te_pipeline_load_count := te_pipeline_load_count te + 1\<rparr>))"

definition synthesize :: "(nat \<Rightarrow> pyfloat) \<Rightarrow> string \<Rightarrow> ('p tts_engine, audio) prog" where
  "synthesize clock t =
     and_then tts_ensure_initialized (\<lambda>cold_start.
     and_then (lift_result (utf8_encode (of_text t))) (\<lambda>audio te.
       let n = te_call_sequence te + 1 in
       (Inr audio, te\<lparr>te_call_sequence := n, te_last_profile :=
          \<lparr>tp_sequence = n, tp_cold_start = cold_start, tp_cache_reused = (\<not> cold_start),
           tp_startup_latency_ms = elapsed_ms (clock 1) (clock 2), tp_playback_latency_ms = elapsed_ms (clock 3) (clock 4),
           tp_total_latency_ms = elapsed_ms (clock 0) (clock 5), tp_pipeline_load_count = te_pipeline_load_count te\<rparr>\<rparr>)))"

definition capture_audio :: audio where
  "capture_audio = map of_char ''text:''"

section \<open>Engines that load once\<close>

text \<open>Calls one after the other: what each gave, and the engine after the last.\<close>

fun run_calls :: "('x \<Rightarrow> ('s, 'y) prog) \<Rightarrow> 'x list \<Rightarrow> 's \<Rightarrow> (exc + 'y) list \<times> 's" where
  "run_calls call [] s = ([], s)"
| "run_calls call (x # xs) s = (let (r, s1) = call x s; (rs, s2) = run_calls call xs s1 in (r # rs, s2))"

text \<open>
  A call answers \<open>answer x\<close> and leaves the engine warm, whatever it was; a warm engine loads nothing. A cold
  one loads exactly once. \<open>cold\<close> is what the profile says of the last call.
\<close>

locale lazy_engine =
  fixes call :: "'x \<Rightarrow> ('s, 'y) prog" and good :: "'s \<Rightarrow> bool" and warm :: "'s \<Rightarrow> bool" and loads :: "'s \<Rightarrow> int"
    and calls :: "'s \<Rightarrow> int" and cold :: "'s \<Rightarrow> bool" and answer :: "'x \<Rightarrow> 'y"
  assumes call_good: "good s \<Longrightarrow> call x s = (r, s') \<Longrightarrow> good s' \<and> r = Inr (answer x) \<and> warm s'"
    and call_counts: "good s \<Longrightarrow> call x s = (r, s') \<Longrightarrow>
      calls s' = calls s + 1 \<and> loads s' = loads s + (if warm s then 0 else 1) \<and> cold s' = (\<not> warm s)"
begin

lemma call_eq: "good s \<Longrightarrow> call x s = (Inr (answer x), snd (call x s))"
  using call_good by (metis prod.collapse)

lemma after_calls:
  assumes "good s" and "run_calls call xs s = (rs, s')"
  shows "rs = map (\<lambda>x. Inr (answer x)) xs \<and> good s' \<and> calls s' = calls s + int (length xs)
    \<and> (xs \<noteq> [] \<longrightarrow> warm s' \<and> loads s' = loads s + (if warm s then 0 else 1) \<and> cold s' = (\<not> warm s \<and> length xs = 1))"
  using assms
proof (induction xs arbitrary: s rs)
  case (Cons x xs)
  obtain r s1 where c: "call x s = (r, s1)" by fastforce
  obtain rs1 where rest: "run_calls call xs s1 = (rs1, s')" and rs: "rs = r # rs1"
    using Cons.prems(2) c by (auto split: prod.splits)
  note one = call_good [OF Cons.prems(1) c] call_counts [OF Cons.prems(1) c]
  note more = Cons.IH [OF conjunct1 [OF one(1)] rest]
  show ?case
  proof (cases "xs = []")
    case True
    with rest one rs show ?thesis by simp
  next
    case False
    with more one rs show ?thesis by auto
  qed
qed simp

end

text \<open>An engine whose loaders give something.\<close>

definition good_asr :: "('m, 'p) asr_engine \<Rightarrow> bool" where
  "good_asr ae \<longleftrightarrow> (\<exists>m. ae_model_loader ae = Inr (Some m)) \<and> (\<forall>m. \<exists>p. ae_pipeline_builder ae m = Inr (Some p))
     \<and> (ae_cached_model ae = None \<longleftrightarrow> ae_cached_pipeline ae = None)"

interpretation asr: lazy_engine "\<lambda>(clock, audio). stub_transcribe decode clock audio" good_asr
  "\<lambda>ae. ae_cached_model ae \<noteq> None" ae_model_load_count ae_call_sequence "\<lambda>ae. ap_cold_start (ae_last_profile ae)"
  "\<lambda>(clock, audio). decode_payload decode audio" for decode
proof
  fix s s' :: "('m, 'p) asr_engine" and x r
  assume good: "good_asr s" and run: "(case x of (clock, audio) \<Rightarrow> stub_transcribe decode clock audio) s = (r, s')"
  obtain clock audio where x: "x = (clock, audio)" by fastforce
  obtain m where m: "ae_model_loader s = Inr (Some m)" using good by (auto simp: good_asr_def)
  obtain p where p: "ae_pipeline_builder s (Some m) = Inr (Some p)" using good by (auto simp: good_asr_def)
  note ok = m p
  show "good_asr s' \<and> r = Inr (case x of (clock, audio) \<Rightarrow> decode_payload decode audio) \<and> ae_cached_model s' \<noteq> None"
    using good run ok
    by (cases "ae_cached_model s = None") (auto simp: x good_asr_def stub_transcribe_def ensure_initialized_def load_model_def
        build_pipeline_def and_then_def Let_def)
  show "ae_call_sequence s' = ae_call_sequence s + 1
      \<and> ae_model_load_count s' = ae_model_load_count s + (if ae_cached_model s \<noteq> None then 0 else 1)
      \<and> ap_cold_start (ae_last_profile s') = (\<not> ae_cached_model s \<noteq> None)"
    using good run ok
    by (cases "ae_cached_model s = None") (auto simp: x good_asr_def stub_transcribe_def ensure_initialized_def load_model_def
        build_pipeline_def and_then_def Let_def)
qed

lemma of_text_encodes: "\<exists>bs. utf8_encode (of_text t) = Inr bs"
  using of_text_scalar utf8_encode_ok by blast

definition utf8_bytes :: "string \<Rightarrow> audio" where
  "utf8_bytes t = (case utf8_encode (of_text t) of Inr bs \<Rightarrow> bs | Inl _ \<Rightarrow> [])"

lemma utf8_bytes: "utf8_encode (of_text t) = Inr (utf8_bytes t)"
  using of_text_encodes [of t] by (auto simp: utf8_bytes_def)

interpretation tts: lazy_engine "\<lambda>(clock, t). synthesize clock t" "\<lambda>te. \<exists>p. te_pipeline_loader te = Inr (Some p)"
  "\<lambda>te. te_cached_pipeline te \<noteq> None" te_pipeline_load_count te_call_sequence "\<lambda>te. tp_cold_start (te_last_profile te)"
  "\<lambda>(clock, t). utf8_bytes t"
  by unfold_locales (auto simp: synthesize_def tts_ensure_initialized_def and_then_def utf8_bytes Let_def split: if_splits prod.splits)

section \<open>What the engines promise\<close>

lemma after_marker_self [simp]: "after_marker text_marker (text_marker @ raw) = Some raw"
  by (simp add: text_marker_def)

lemma decode_payload_spec: "decode_payload = transcribe_bytes"
  by (intro ext) (simp add: decode_payload_def transcribe_bytes_def)

lemma good_init_asr: "loader = Inr (Some m) \<Longrightarrow> (\<And>x. \<exists>p. builder x = Inr (Some p)) \<Longrightarrow> good_asr (init_asr loader builder)"
  by (simp add: good_asr_def init_asr_def)

text \<open>
  C35. The caching recogniser is, call by call, the stateless function of the fallback model: whatever sequence of
  payloads it is given, each answer is what the fallback model reads out of that payload alone, no answer depends on what was
  asked before, and the model is loaded once, in the first call, which is the only one profiled as a cold start.
\<close>

theorem caching_recogniser_is_pure:
  assumes "\<And>m. \<exists>p. builder m = Inr (Some p)" and "calls \<noteq> []"
    and "run_calls (\<lambda>(clock, audio). stub_transcribe decode clock audio) calls
           (init_asr (Inr (Some model)) builder) = (answers, engine)"
  shows "answers = map (\<lambda>(clock, audio). Inr (transcribe_bytes decode audio)) calls
    \<and> ae_model_load_count engine = 1 \<and> ae_call_sequence engine = int (length calls)
    \<and> ap_cold_start (ae_last_profile engine) = (length calls = 1)"
proof -
  have good: "good_asr (init_asr (Inr (Some model)) builder)" by (rule good_init_asr) (use assms(1) in simp_all)
  have pure: "map (\<lambda>x. Inr (case x of (clock, audio) \<Rightarrow> decode_payload decode audio)) calls
      = map (\<lambda>(clock, audio). Inr (transcribe_bytes decode audio)) calls"
    by (simp add: decode_payload_spec case_prod_beta)
  show ?thesis using asr.after_calls [OF good assms(3)] assms(2) unfolding pure by (simp add: init_asr_def)
qed

theorem caching_recogniser_is_pure_witness:
  "fst (run_calls (\<lambda>(clock, audio). stub_transcribe (map char_of) clock audio)
     [(\<lambda>_. Fin 0, text_marker @ [104, 105]), (\<lambda>_. Fin 1, [1, 2])] (init_asr (Inr (Some ())) (\<lambda>_. Inr (Some ())))) =
     [Inr ''hi'', Inr []]"
proof -
  have "transcribe_bytes (map char_of) (text_marker @ [104, 105]) = ''hi''" "transcribe_bytes (map char_of) [1, 2] = []"
    by code_simp+
  then show ?thesis
    using caching_recogniser_is_pure [of "\<lambda>_. Inr (Some ())" "[(\<lambda>_. Fin 0, text_marker @ [104, 105]), (\<lambda>_. Fin 1, [1, 2])]"
        "map char_of" "()", OF _ _ prod.collapse [symmetric]]
    by simp
qed

text \<open>
  What the synthesiser says, the recogniser reads back: the bytes of \<open>synthesize\<close>, after the marker, are transcribed to the
  text with the white space around it gone, for every text, whether the engines were warm or cold. The decoder has
  only to agree with UTF-8 where UTF-8 is well-formed.
\<close>

theorem spoken_text_is_read_back:
  assumes "\<And>bs s. utf8_decode bs = Inr (of_text s) \<Longrightarrow> decode bs = s"
    and "te_pipeline_loader te = Inr (Some p)" and "good_asr ae"
  shows "\<exists>audio te' ae'. synthesize clock t te = (Inr audio, te')
    \<and> stub_transcribe decode clock' (text_marker @ audio) ae = (Inr (strip t), ae')"
proof (intro exI conjI)
  show "synthesize clock t te = (Inr (utf8_bytes t), snd (synthesize clock t te))"
    using tts.call_eq [of te "(clock, t)"] assms(2) by simp
  have "decode_payload decode (text_marker @ utf8_bytes t) = strip t"
    using assms(1) [OF utf8_roundtrip [OF utf8_bytes]] by (simp add: decode_payload_def text_marker_def)
  then show "stub_transcribe decode clock' (text_marker @ utf8_bytes t) ae
      = (Inr (strip t), snd (stub_transcribe decode clock' (text_marker @ utf8_bytes t) ae))"
    using asr.call_eq [OF assms(3), of decode "(clock', text_marker @ utf8_bytes t)"] by simp
qed

definition strict_decode :: decoder where
  "strict_decode bs = (case utf8_decode bs of Inr t \<Rightarrow> to_text t | Inl _ \<Rightarrow> [])"

theorem spoken_text_is_read_back_witness:
  "\<exists>audio te' ae'. synthesize (\<lambda>_. Fin 0) '' good night '' (init_tts (Inr (Some ()))) = (Inr audio, te')
    \<and> stub_transcribe strict_decode (\<lambda>_. Fin 0) (text_marker @ audio) (init_asr (Inr (Some ())) (\<lambda>_. Inr (Some ())))
        = (Inr ''good night'', ae')"
proof -
  have s: "strip '' good night '' = ''good night''" by code_simp
  show ?thesis
    using spoken_text_is_read_back [of strict_decode "init_tts (Inr (Some ()))" "()" "init_asr (Inr (Some ())) (\<lambda>_. Inr (Some ()))"
        "\<lambda>_. Fin 0" "'' good night ''" "\<lambda>_. Fin 0", unfolded s]
    by (simp add: strict_decode_def init_tts_def good_init_asr)
qed

end
