(* ===== verification/Entry.thy ===== *)
theory Entry
  imports Bootstrap Stub_Engines
begin

text \<open>
  \<open>apcos/__main__.py\<close> with \<open>apcos/bootstrap/logging_config.py\<close> and \<open>build_voice_session\<close> of
  \<open>apcos/bootstrap/container.py\<close>: the command line entry that loads the configuration, runs the start-up checks and
  starts the shell or one of the two voice loops. \<open>argparse\<close> is a library, so the parsed arguments are given; so is
  everything the process finds outside: files, folders, modules, clocks and what the user types or says.
\<close>

section \<open>Logging\<close>

definition LOG_FORMAT :: string where
  "LOG_FORMAT = ''%(asctime)s | %(levelname)s | %(name)s | %(message)s''"

definition DEFAULT_LEVEL :: string where "DEFAULT_LEVEL = ''INFO''"

record log_handler =
  lh_level :: int
  lh_format :: string

record log_state =
  lg_configured :: bool
  lg_root_level :: int
  lg_root_handlers :: "log_handler list"
  lg_audit_level :: int
  lg_audit_handlers :: "log_handler list"
  lg_audit_propagate :: bool

text \<open>
  \<open>setLevel\<close> takes an integer; a string that is an attribute of the module without naming a level is refused, and so
  is any other object. \<open>attr\<close> is \<open>getattr(logging, name)\<close>, where there is one.
\<close>

fun log_level :: "pyval \<Rightarrow> exc + int" where
  "log_level (PInt n) = Inr n"
| "log_level (PBool b) = Inr (if b then 1 else 0)"
| "log_level (PStr s) = Inl (ValueError (''Unknown level: '' @ s))"
| "log_level _ = Inl TypeError"

definition configure_logging :: "string option \<Rightarrow> (string \<Rightarrow> pyval option) \<Rightarrow> (log_state, unit) prog" where
  "configure_logging APCOS_LOG_LEVEL attr lg =
     (if lg_configured lg then (Inr (), lg)
      else let level_name = strip (upper (case APCOS_LOG_LEVEL of None \<Rightarrow> DEFAULT_LEVEL | Some s \<Rightarrow> s));
               lg1 = lg\<lparr>lg_root_handlers := []\<rparr> in
        case log_level (case attr level_name of None \<Rightarrow> PInt 20 | Some v \<Rightarrow> v) of
          Inl e \<Rightarrow> (Inl e, lg1)
        | Inr level \<Rightarrow> (Inr (),
            lg1\<lparr>lg_configured := True, lg_root_level := level, lg_root_handlers := [\<lparr>lh_level = level, lh_format = LOG_FORMAT\<rparr>],
              lg_audit_level := 20, lg_audit_handlers := [\<lparr>lh_level = 20, lh_format = LOG_FORMAT\<rparr>], lg_audit_propagate := False\<rparr>))"

section \<open>The stub voice session\<close>

text \<open>
  \<open>build_voice_session\<close> without a detector of the caller's: \<open>WakeWordDetector()\<close> asks an event source that always gives
  \<open>None\<close>, the audio is the stub capture and the transcriber the stub engine.
\<close>

record voice_session =
  vs_trigger :: string
  vs_controller :: interaction

definition build_voice_session :: "py_env \<Rightarrow> pydict option \<Rightarrow> config_file \<Rightarrow> exc + voice_session" where
  "build_voice_session env config file =
     result_bind (build_app env config file) (\<lambda>controller.
     result_bind (init_trigger ''hey apcos'') (\<lambda>trigger. Inr \<lparr>vs_trigger = trigger, vs_controller = controller\<rparr>))"

definition run_session_once ::
  "decoder \<Rightarrow> string option \<Rightarrow> (string \<Rightarrow> (interaction, string) prog) \<Rightarrow> (voice_session, string option) prog" where
  "run_session_once decode event handler vs =
     (case run_voice_once decode (vs_trigger vs) event (Inr capture_audio) (decode_payload decode) handler (vs_controller vs) of
        (r, ic) \<Rightarrow> (r, vs\<lparr>vs_controller := ic\<rparr>))"

definition default_event_source :: "string option" where
  "default_event_source = None"

text \<open>
  The real session as it is built: \<open>AudioStream()\<close> has no source. Between two cycles of the main thread the listener and
  the worker have turns of their own.
\<close>

datatype background = Listener | Worker "audio \<Rightarrow> exc + string"

fun background_turn :: "decoder \<Rightarrow> background \<Rightarrow> real_voice \<Rightarrow> real_voice" where
  "background_turn decode Listener rv = listener_turn decode None rv"
| "background_turn decode (Worker f) rv = worker_turn f rv"

definition run_built_once ::
  "decoder \<Rightarrow> (string \<Rightarrow> (interaction, string) prog) \<Rightarrow> background list \<times> voice_cycle \<Rightarrow> (real_voice, string option) prog" where
  "run_built_once decode handler turn rv =
     run_real_once decode ((snd turn)\<lparr>vc_source := None\<rparr>) handler (fold (background_turn decode) (fst turn) rv)"

section \<open>The entry\<close>

record cli_args =
  arg_config :: string
  arg_voice :: bool
  arg_voice_real :: bool
  arg_runtime_governor :: "bool option"

record surroundings =
  su_env :: py_env
  su_log_level :: "string option"
  su_log_attr :: "string \<Rightarrow> pyval option"
  su_config :: "string \<Rightarrow> config_file"
  su_default_document :: "pyval option"
  su_ast_parse :: "string \<Rightarrow> exc + import_node list"
  su_import :: "string \<Rightarrow> exc + unit"
  su_dirs :: "string list"
  su_files :: "py_file list"
  su_now :: pyfloat
  su_decode :: decoder
  su_handler :: "string \<Rightarrow> (interaction, string) prog"
  su_shell :: "shell_event list"
  su_polls :: "unit poll list"
  su_cycles :: "(background list \<times> voice_cycle) poll list"

text \<open>How the process stands: it has ended with a code, an exception has ended it, or a voice loop still runs.\<close>

datatype outcome = Exit int | Raised exc | Running

fun ends_loop :: "'c poll \<Rightarrow> bool" where
  "ends_loop (Poll _) = False"
| "ends_loop _ = True"

definition loop_outcome :: "'c poll list \<Rightarrow> outcome" where
  "loop_outcome polls = (if list_ex ends_loop polls then Exit 0 else Running)"

text \<open>\<open>StartupValidationError\<close>, by the messages the validator gives it.\<close>

fun is_startup_error :: "exc \<Rightarrow> bool" where
  "is_startup_error (RuntimeError m) = starts_with m ''Startup''"
| "is_startup_error _ = False"

definition run_mode :: "cli_args \<Rightarrow> surroundings \<Rightarrow> pydict \<Rightarrow> outcome \<times> string list" where
  "run_mode args su config =
     (let file = su_config su (arg_config args) in
      if arg_voice_real args then
        (let runtime_governor_enabled = (case arg_runtime_governor args of None \<Rightarrow> True | Some b \<Rightarrow> b) in
         case build_real_voice_session (su_env su) (su_now su) runtime_governor_enabled (Some config) file of
           Inl e \<Rightarrow> (Raised e, [])
         | Inr session \<Rightarrow> (loop_outcome (su_cycles su),
             fst (run_voice_loop (run_built_once (su_decode su) (su_handler su)) (su_cycles su) session)))
      else if arg_voice args then
        (case build_voice_session (su_env su) (Some config) file of
           Inl e \<Rightarrow> (Raised e, [])
         | Inr session \<Rightarrow> (loop_outcome (su_polls su),
             fst (run_voice_loop (\<lambda>_. run_session_once (su_decode su) default_event_source (su_handler su)) (su_polls su) session)))
      else
        (case build_app (su_env su) (Some config) file of
           Inl e \<Rightarrow> (Raised e, [])
         | Inr controller \<Rightarrow> (Exit 0, fst (run_shell (su_handler su) (su_shell su) controller))))"

text \<open>
  \<open>main\<close>: all errors of \<open>load_config\<close> are \<open>ConfigError\<close>s. What is neither that nor a \<open>StartupValidationError\<close>
  leaves \<open>main\<close> as an exception.
\<close>

definition apcos_main :: "cli_args \<Rightarrow> surroundings \<Rightarrow> log_state \<Rightarrow> outcome \<times> string list \<times> log_state" where
  "apcos_main args su lg =
     (case configure_logging (su_log_level su) (su_log_attr su) lg of
        (Inl e, lg1) \<Rightarrow> (Raised e, [], lg1)
      | (Inr _, lg1) \<Rightarrow>
          (case load_config (su_config su (arg_config args)) of
             Inl _ \<Rightarrow> (Exit 1, [], lg1)
           | Inr config \<Rightarrow>
               (case validate_startup (su_env su) (su_ast_parse su) (su_import su) config (su_dirs su) (su_files su)
                    (su_default_document su) of
                  Inl e \<Rightarrow> ((if is_startup_error e then Exit 1 else Raised e), [], lg1)
                | Inr _ \<Rightarrow> (case run_mode args su config of (r, out) \<Rightarrow> (r, out, lg1)))))"

lemma import_modules_ok: "import_modules f ms = Inr () \<longleftrightarrow> (\<forall>m\<in>set ms. f m = Inr ())"
  by (induction ms) (auto split: sum.splits)

section \<open>A sample start\<close>

definition sample_document :: "int \<Rightarrow> pydict" where
  "sample_document limit = [(''command_router'', PDict [(''min_confidence'', PFloat (Fin (1 / 2)))]), (''calibration'', PDict []),
     (''proactive'', PDict [(''confidence_threshold'', PFloat (Fin (1 / 2))), (''daily_limit'', PInt limit)]), (''runtime'', PDict []),
     (''hardware'', PDict [])]"

definition sample_surroundings :: "int \<Rightarrow> surroundings" where
  "sample_surroundings limit = \<lparr>su_env = stub_env, su_log_level = None, su_log_attr = (\<lambda>_. None),
     su_config = (\<lambda>_. Document (PDict (sample_document limit))), su_default_document = Some sample_config,
     su_ast_parse = (\<lambda>_. Inr []), su_import = (\<lambda>_. Inr ()), su_dirs = REQUIRED_DIRS, su_files = [], su_now = Fin 0,
     su_decode = map char_of, su_handler = (\<lambda>_. ret []), su_shell = [Line ''exit''], su_polls = [Poll (), Interrupted], su_cycles = []\<rparr>"

definition sample_args :: "bool \<Rightarrow> cli_args" where
  "sample_args voice = \<lparr>arg_config = ''configs/default.yaml'', arg_voice = voice, arg_voice_real = False, arg_runtime_governor = None\<rparr>"

definition fresh_logging :: log_state where
  "fresh_logging = \<lparr>lg_configured = False, lg_root_level = 30, lg_root_handlers = [], lg_audit_level = 0, lg_audit_handlers = [],
     lg_audit_propagate = True\<rparr>"

lemma sample_loads: "load_config (Document (PDict (sample_document n))) = Inr (merge_defaults (sample_document n))"
  by (simp add: load_config_def merged_shapes)
    (simp add: validate_required_sections_def REQUIRED_SECTIONS_def dict_has_def sample_document_def)

lemma sample_proactive:
  obtains block where "dict_get_or (merge_defaults (sample_document n)) ''proactive'' d = PDict block"
    "dict_get (merge_defaults (sample_document n)) ''proactive'' = PDict block"
    "map_of block ''daily_limit'' = Some (PInt n)" "map_of block ''confidence_threshold'' = Some (PFloat (Fin (1 / 2)))"
proof -
  obtain defaults where "(''proactive'', defaults) \<in> set DEFAULTS" by (auto simp: DEFAULTS_def)
  from merge_defaults_section [OF this, of "sample_document n"]
  have get: "dict_get (merge_defaults (sample_document n)) ''proactive'' =
      PDict (dict_update defaults [(''confidence_threshold'', PFloat (Fin (1 / 2))), (''daily_limit'', PInt n)])"
    by (simp add: merge_block_def dict_get_or_def sample_document_def)
  then have "dict_get_or (merge_defaults (sample_document n)) ''proactive'' d =
      PDict (dict_update defaults [(''confidence_threshold'', PFloat (Fin (1 / 2))), (''daily_limit'', PInt n)])"
    by (auto simp: dict_get_def dict_get_or_def split: option.splits)
  with get show thesis using that by (simp add: map_of_dict_update)
qed

lemma merged_has: "sec \<in> set REQUIRED_SECTIONS \<Longrightarrow> dict_has (merge_defaults loaded) sec"
proof -
  assume "sec \<in> set REQUIRED_SECTIONS"
  then obtain defaults where "(sec, defaults) \<in> set DEFAULTS" by (auto simp: sections_have_defaults)
  from merge_defaults_section [OF this, of loaded] show ?thesis using dict_get_of_has by fastforce
qed

lemma sample_parts:
  obtains s cl rt where "init_store ''apcos-dev-key'' (Some (init_lifecycle None True)) default_options [] 0 = Inr s"
    "init_challenge (Fin (1 / 2)) = Inr cl" "init_router stub_env s (Some cl) (Some sample_config) = Inr rt"
proof -
  obtain s where s: "init_store ''apcos-dev-key'' (Some (init_lifecycle None True)) default_options [] 0 = Inr s"
    using init_store_ok [of "''apcos-dev-key''"] by blast
  obtain cl where cl: "init_challenge (Fin (1 / 2)) = Inr cl" by (simp add: init_challenge_def outside_unit_def)
  obtain rt where "init_router stub_env s (Some cl) (Some sample_config) = Inr rt"
    by (simp add: init_router_def load_sample_config default_registry)
  with s cl show thesis by (rule that)
qed

lemma sample_checks:
  "validate_startup stub_env (\<lambda>_. Inr []) (\<lambda>_. Inr ()) (merge_defaults (sample_document n)) REQUIRED_DIRS [] (Some sample_config) = Inr ()"
proof (rule sample_parts)
  fix s cl rt
  assume "init_store ''apcos-dev-key'' (Some (init_lifecycle None True)) default_options [] 0 = Inr s"
    "init_challenge (Fin (1 / 2)) = Inr cl" "init_router stub_env s (Some cl) (Some sample_config) = Inr rt"
  then have "validate_runtime_construction stub_env (Some sample_config) = Inr ()"
    by (simp add: validate_runtime_construction_def)
  moreover have "validate_config_sections (merge_defaults (sample_document n)) = Inr ()"
    using merged_has by (auto simp: validate_config_sections_def filter_empty_conv)
  moreover have "validate_import_integrity (\<lambda>_. Inr []) [] = Inr ()"
    by (simp add: validate_import_integrity_def MUTATION_SCAN_DIRS_def)
  moreover have "validate_module_imports (\<lambda>_. Inr ()) = Inr ()" by (simp add: validate_module_imports_def import_modules_ok)
  ultimately show ?thesis by (simp add: validate_startup_def validate_required_directories_def)
qed

lemma sample_builds: "\<exists>ic. build_app stub_env (Some (merge_defaults (sample_document 2))) (Document (PDict (sample_document 2))) = Inr ic"
proof (rule sample_parts, rule sample_proactive)
  fix s cl rt block
  assume parts: "init_store ''apcos-dev-key'' (Some (init_lifecycle None True)) default_options [] 0 = Inr s"
    "init_challenge (Fin (1 / 2)) = Inr cl"
  assume block: "dict_get_or (merge_defaults (sample_document 2)) ''proactive'' (PDict []) = PDict block"
    "map_of block ''daily_limit'' = Some (PInt 2)" "map_of block ''confidence_threshold'' = Some (PFloat (Fin (1 / 2)))"
  have "load_router_settings (Some (PDict (sample_document 2))) = Inr (PFloat (Fin (1 / 2)), PBool True)"
    by (simp add: load_router_settings_def sample_document_def dict_get_or_def)
  then obtain rt2 where "init_router stub_env s (Some cl) (Some (PDict (sample_document 2))) = Inr rt2"
    by (simp add: init_router_def default_registry)
  moreover obtain cal where "load_calibration stub_env (Some (PDict (sample_document 2))) = Inr cal"
    by (simp add: load_calibration_def sample_document_def dict_get_or_def Let_def)
  moreover have "dict_get_or block ''confidence_threshold'' x = PFloat (Fin (1 / 2))" "dict_get_or block ''daily_limit'' x = PInt 2" for x
    using block by (simp_all add: dict_get_or_def)
  ultimately show ?thesis using parts block(1)
    by (simp add: build_app_def app_container_def get_mapping_def init_proactive_def outside_unit_def init_interaction_def default_owner)
qed

lemma sample_main:
  "apcos_main (sample_args voice) (sample_surroundings n) fresh_logging =
     (case run_mode (sample_args voice) (sample_surroundings n) (merge_defaults (sample_document n)) of
        (r, out) \<Rightarrow> (r, out, snd (configure_logging None (\<lambda>_. None) fresh_logging)))"
  by (simp add: apcos_main_def sample_surroundings_def sample_loads sample_checks configure_logging_def fresh_logging_def Let_def)

section \<open>Nothing to hear\<close>

text \<open>No audio is buffered and the wake word has not been heard.\<close>

definition unheard :: "real_voice \<Rightarrow> bool" where
  "unheard rv \<longleftrightarrow> au_buffer (rv_stream rv) = []
     \<and> (\<exists>we. dv_wake_engine (rv_device rv) = Some we \<and> \<not> we_wake_event we) \<and> (\<exists>tw. dv_worker (rv_device rv) = Some tw)"

lemma background_unheard:
  assumes "unheard rv"
  shows "unheard (background_turn decode b rv)"
proof (cases b)
  case Listener
  obtain we where we: "dv_wake_engine (rv_device rv) = Some we" "\<not> we_wake_event we" using assms by (auto simp: unheard_def)
  have "read_chunk None (rv_stream rv) = ([], rv_stream rv)" using assms by (simp add: unheard_def read_chunk_def)
  then have "wake_round decode None we (rv_stream rv) = (we, rv_stream rv)" by (simp add: wake_round_def detect_trigger_def)
  with assms we Listener show ?thesis by (simp add: unheard_def listener_turn_def)
next
  case (Worker f)
  with assms show ?thesis by (auto simp: unheard_def worker_turn_def)
qed

lemma backgrounds_unheard: "unheard rv \<Longrightarrow> unheard (fold (background_turn decode) bs rv)"
  by (induction bs arbitrary: rv) (simp_all add: background_unheard)

lemma start_unheard:
  assumes "unheard rv" and "start_real rv = (r, rv')"
  shows "r = Inr () \<and> unheard rv'"
  using assms
  by (auto simp: unheard_def start_real_def start_stream_def stop_stream_def start_wake_def Let_def split: if_splits option.splits prod.splits)

lemma upkeep_unheard: "unheard rv \<Longrightarrow> unheard (evaluate_session_governor rd (maybe_unload_if_idle now rv))"
  by (auto simp: unheard_def evaluate_session_governor_def maybe_unload_if_idle_def)

lemma run_unheard:
  assumes "unheard rv" and "run_real_once decode c handler rv = (r, rv')"
  shows "unheard rv' \<and> (r = Inr None \<or> r = Inr (Some ''Voice runtime is busy.''))"
proof -
  obtain q rv1 where st: "start_real rv = (q, rv1)" by fastforce
  note one = start_unheard [OF assms(1) st]
  obtain state rv2 where ev: "evaluate_device_state (vc_device c) rv1 = (state, rv2)" by fastforce
  have two: "unheard rv2" using one evaluate_device_state_keeps [OF ev] by (simp add: unheard_def)
  obtain we where we: "dv_wake_engine (rv_device rv2) = Some we" "wait_for_wake we = (False, we)"
    using two by (auto simp: unheard_def wait_for_wake_def)
  have same: "rv2\<lparr>rv_device := (rv_device rv2)\<lparr>dv_wake_engine := Some we\<rparr>\<rparr> = rv2" using we(1) by simp
  show ?thesis
    using assms(2) one two upkeep_unheard [OF two] we
    by (auto simp: run_real_once_def st ev same Let_def split: if_splits)
qed

lemma loop_unheard:
  assumes "unheard rv"
  shows "set (fst (voice_loop (run_built_once decode handler) polls rv)) \<subseteq>
    {''Voice runtime is busy.'', ''Exiting APCOS voice loop.'', newline @ ''Voice session interrupted. Exiting APCOS voice loop.''}"
  using assms
proof (induction polls arbitrary: rv)
  case (Cons p polls)
  show ?case
  proof (cases p)
    case (Poll turn)
    obtain r rv1 where run: "run_built_once decode handler turn rv = (r, rv1)" by fastforce
    have "unheard rv1 \<and> (r = Inr None \<or> r = Inr (Some ''Voice runtime is busy.''))"
      using run run_unheard [OF backgrounds_unheard [OF Cons.prems]] unfolding run_built_once_def by blast
    with Cons.IH [of rv1] show ?thesis by (auto simp: Poll run Let_def case_prod_beta)
  qed simp_all
qed simp

lemma built_unheard: "build_real_voice_session env now enabled config file = Inr rv \<Longrightarrow> unheard rv"
  by (auto simp: build_real_voice_session_def result_bind_Inr_iff init_real_def unheard_def init_stream_def Let_def split: if_splits)

lemma trigger_ok: "\<exists>t. init_trigger ''hey apcos'' = Inr t"
proof -
  have "init_trigger ''hey apcos'' = Inr ''hey apcos''" by code_simp
  then show ?thesis by blast
qed

lemma session_unheard: "run_session_once decode default_event_source handler vs = (Inr None, vs)"
  by (simp add: run_session_once_def run_voice_once_def default_event_source_def listen_def)

lemma stub_loop_unheard:
  "set (fst (voice_loop (\<lambda>_. run_session_once decode default_event_source handler) polls vs)) \<subseteq>
    {''Exiting APCOS voice loop.'', newline @ ''Voice session interrupted. Exiting APCOS voice loop.''}"
proof (induction polls)
  case (Cons p polls)
  then show ?case by (cases p) (auto simp: session_unheard Let_def case_prod_beta)
qed simp

text \<open>
  C27. As the entry wires them, neither voice mode ever hears a command: in \<open>--voice\<close> mode the wake word detector asks a source
  that never has an event, in \<open>--voice-real\<close> mode the audio stream has no source and nothing pushes audio into it. Whatever
  happens, only the greeting, the farewell and the notice of a busy runtime are shown; no input reaches the
  controller.
\<close>

theorem voice_modes_hear_nothing:
  assumes "apcos_main args su lg = (r, out, lg')" and "arg_voice args \<or> arg_voice_real args"
  shows "set out \<subseteq> {''APCOS Voice ready. Waiting for wake word.'', ''Voice runtime is busy.'', ''Exiting APCOS voice loop.'',
    newline @ ''Voice session interrupted. Exiting APCOS voice loop.''}"
proof (cases "out = []")
  case False
  then obtain cfg where mode: "run_mode args su cfg = (r, out)"
    using assms(1) by (auto simp: apcos_main_def split: sum.splits prod.splits)
  show ?thesis
  proof (cases "arg_voice_real args")
    case True
    with mode False show ?thesis
      using loop_unheard [OF built_unheard]
      by (fastforce simp: run_mode_def run_voice_loop_def Let_def case_prod_beta split: sum.splits)
  next
    case stub: False
    with mode False assms(2) show ?thesis
      using stub_loop_unheard
      by (fastforce simp: run_mode_def run_voice_loop_def Let_def case_prod_beta split: sum.splits)
  qed
qed simp

theorem voice_modes_hear_nothing_witness:
  "\<exists>lg'. apcos_main (sample_args True) (sample_surroundings 2) fresh_logging = (Exit 0, [''APCOS Voice ready. Waiting for wake word.'',
      newline @ ''Voice session interrupted. Exiting APCOS voice loop.''], lg')
    \<and> set [''APCOS Voice ready. Waiting for wake word.'', newline @ ''Voice session interrupted. Exiting APCOS voice loop.''] \<subseteq>
      {''APCOS Voice ready. Waiting for wake word.'', ''Voice runtime is busy.'', ''Exiting APCOS voice loop.'',
       newline @ ''Voice session interrupted. Exiting APCOS voice loop.''}"
proof -
  obtain ic where "build_app stub_env (Some (merge_defaults (sample_document 2))) (Document (PDict (sample_document 2))) = Inr ic"
    using sample_builds by blast
  moreover obtain t where "init_trigger ''hey apcos'' = Inr t" by (metis trigger_ok)
  ultimately have "\<exists>lg'. apcos_main (sample_args True) (sample_surroundings 2) fresh_logging = (Exit 0,
      [''APCOS Voice ready. Waiting for wake word.'', newline @ ''Voice session interrupted. Exiting APCOS voice loop.''], lg')"
    unfolding sample_main
    by (simp add: run_mode_def sample_args_def sample_surroundings_def build_voice_session_def loop_outcome_def run_voice_loop_def
        session_unheard)
  then show ?thesis using voice_modes_hear_nothing [of "sample_args True" "sample_surroundings 2" fresh_logging]
    by (force simp: sample_args_def)
qed

section \<open>What the entry lets through\<close>

lemma validate_startup_ok:
  assumes "validate_startup env parse imp config dirs files document = Inr ()"
  shows "(\<forall>sec\<in>set REQUIRED_SECTIONS. dict_has config sec) \<and> set REQUIRED_DIRS \<subseteq> set dirs
    \<and> validate_import_integrity parse files = Inr () \<and> (\<forall>m\<in>set startup_modules. imp m = Inr ())"
  using assms
  by (auto simp: validate_startup_def result_bind_Inr_iff validate_config_sections_def validate_required_directories_def
      validate_module_imports_def import_modules_ok filter_empty_conv split: if_splits)



text \<open>
  A configuration that loads and passes every start-up check can still bring the entry down: with a daily limit below one
  the proactive controller refuses to be built, and since only \<open>ConfigError\<close> and \<open>StartupValidationError\<close> are caught,
  the exception leaves \<open>main\<close> in every mode.
\<close>

theorem bad_limit_escapes_the_entry:
  assumes "load_config (su_config su (arg_config args)) = Inr cfg"
    and "validate_startup (su_env su) (su_ast_parse su) (su_import su) cfg (su_dirs su) (su_files su) (su_default_document su) = Inr ()"
    and "dict_get cfg ''proactive'' = PDict block" and "map_of block ''daily_limit'' = Some (PInt n)" and "n < 1"
  shows "\<exists>e out lg'. apcos_main args su lg = (Raised e, out, lg')"
proof -
  have build: "\<exists>e. build_app (su_env su) (Some cfg) f = Inl e" for f
  proof (cases "build_app (su_env su) (Some cfg) f")
    case (Inr ic)
    have "dict_get_or cfg ''proactive'' (PDict []) = PDict block"
      using assms(3) by (auto simp: dict_get_def dict_get_or_def split: option.splits)
    then have limit: "dict_get_or (get_mapping (dict_get_or cfg ''proactive'' (PDict []))) ''daily_limit'' (PInt 3) = PInt n"
      using assms(4) by (simp add: get_mapping_def dict_get_or_def)
    from Inr show ?thesis using assms(5)
      by (auto simp: build_app_def app_container_def result_bind_Inr_iff limit init_proactive_def Let_def split: if_splits)
  qed simp
  have "\<exists>e. run_mode args su cfg = (Raised e, [])"
    using build [of "su_config su (arg_config args)"]
    by (auto simp: run_mode_def build_real_voice_session_def build_voice_session_def Let_def)
  then show ?thesis
    using assms(1,2) by (auto simp: apcos_main_def split: sum.splits prod.splits)
qed

theorem bad_limit_escapes_the_entry_witness:
  "\<exists>e out lg'. apcos_main (sample_args False) (sample_surroundings 0) fresh_logging = (Raised e, out, lg')"
proof (rule sample_proactive)
  fix block
  assume block: "dict_get (merge_defaults (sample_document 0)) ''proactive'' = PDict block" "map_of block ''daily_limit'' = Some (PInt 0)"
  show ?thesis
    by (rule bad_limit_escapes_the_entry [OF _ _ block]) (simp_all add: sample_surroundings_def sample_loads sample_checks)
qed

end
