(* ===== verification/Contracts.thy ===== *)
theory Contracts
  imports Regular_Expressions Rust_Bridge Encryption_Layer "HOL-Library.Char_ord" "HOL-Library.List_Lexorder"
begin

text \<open>
  \<open>deployment/contracts/export_contracts.py\<close>: the contract files for the device firmware. The authority
  snapshot is read out of the Rust sources with regular expressions, the message schema out of the
  constants of the bridge. The Rust sources are texts given as arguments; searching, splitting into
  lines and writing JSON are modelled as Python does them.
\<close>

section \<open>Searching\<close>

text \<open>
  \<open>pattern.search(s)\<close>: the first match at the earliest place. \<open>re.findall\<close> goes on after each match; none
  of the patterns used here matches the empty text, so a match always moves on.
\<close>

fun first_match :: "regex \<Rightarrow> string \<Rightarrow> string \<Rightarrow> position option" where
  "first_match r prev [] = (case all_matches r (start_at prev []) of q # _ \<Rightarrow> Some q | [] \<Rightarrow> None)"
| "first_match r prev (c # s) = (case all_matches r (start_at prev (c # s)) of q # _ \<Rightarrow> Some q
     | [] \<Rightarrow> first_match r (c # prev) s)"

function find_all :: "regex \<Rightarrow> string \<Rightarrow> string \<Rightarrow> (string \<times> string) list list" where
  "find_all r prev s = (case first_match r prev s of None \<Rightarrow> []
     | Some q \<Rightarrow> caps q # (if length (ahead q) < length s then find_all r (behind q) (ahead q) else []))"
  by pat_completeness auto
termination by (relation "measure (\<lambda>(r, prev, s). length s)") auto

declare find_all.simps [simp del]

definition re_find :: "regex \<Rightarrow> string \<Rightarrow> (string \<times> string) list option" where
  "re_find r s = map_option caps (first_match r [] s)"

definition re_findall :: "regex \<Rightarrow> string \<Rightarrow> (string \<times> string) list list" where
  "re_findall r s = find_all r [] s"

definition group :: "string \<Rightarrow> (string \<times> string) list \<Rightarrow> string" where
  "group name m = (case map_of m name of None \<Rightarrow> [] | Some t \<Rightarrow> t)"

text \<open>A literal that minds the case, and \<open>.*?\<close> under \<open>re.DOTALL\<close>.\<close>

definition word_lit :: "string \<Rightarrow> regex" where
  "word_lit w = foldr (\<lambda>c. Seq (Cls (\<lambda>x. x = c))) w Eps"

definition anything :: regex where
  "anything = LazyStar (Cls (\<lambda>_. True))"

section \<open>Text\<close>

definition line_feed :: char where "line_feed = CHR 0x0A"

definition double_quote :: char where "double_quote = CHR 0x22"

text \<open>\<open>str.splitlines\<close>: \<open>\r\n\<close> is one break, and nothing follows a final break.\<close>

definition is_line_break :: "char \<Rightarrow> bool" where
  "is_line_break c \<longleftrightarrow> (let n = (of_char c :: nat) in (10 \<le> n \<and> n \<le> 13) \<or> (28 \<le> n \<and> n \<le> 30) \<or> n = 133)"

fun lines_of :: "string \<Rightarrow> string \<Rightarrow> string list" where
  "lines_of acc [] = (if acc = [] then [] else [rev acc])"
| "lines_of acc [c] = (if is_line_break c then [rev acc] else [rev (c # acc)])"
| "lines_of acc (c # d # s) =
     (if is_line_break c then rev acc # (if c = CHR 0x0D \<and> d = line_feed then lines_of [] s else lines_of [] (d # s))
      else lines_of (c # acc) (d # s))"

definition splitlines :: "string \<Rightarrow> string list" where
  "splitlines s = lines_of [] s"

text \<open>\<open>s.split(p, 1)[0]\<close> and \<open>s.rstrip(",")\<close>.\<close>

fun before_first :: "string \<Rightarrow> string \<Rightarrow> string" where
  "before_first p [] = []"
| "before_first p (c # s) = (if starts_with (c # s) p then [] else c # before_first p s)"

definition rstrip_commas :: "string \<Rightarrow> string" where
  "rstrip_commas s = rev (dropWhile (\<lambda>c. c = CHR '','') (rev s))"

section \<open>Reading the Rust sources\<close>

definition closing_brace :: string where
  "closing_brace = [line_feed, CHR ''}'']"

definition enum_pattern :: "string \<Rightarrow> regex" where
  "enum_pattern enum_name = Seq (word_lit (''pub enum '' @ enum_name)) (Seq spaces (Seq (word_lit ''{'')
     (Seq (Grp ''body'' anything) (word_lit closing_brace))))"

definition variant_of_line :: "string \<Rightarrow> string option" where
  "variant_of_line line =
     (let stripped = strip line in
      if stripped = [] \<or> starts_with stripped ''//'' \<or> starts_with stripped ''#'' then None
      else let variant = strip (rstrip_commas (takeWhile (\<lambda>c. c \<noteq> CHR ''='') (takeWhile (\<lambda>c. c \<noteq> CHR ''('') stripped)))
        in if variant = [] then None else Some variant)"

definition parse_enum_variants :: "string \<Rightarrow> string \<Rightarrow> string list" where
  "parse_enum_variants source enum_name =
     (case re_find (enum_pattern enum_name) source of None \<Rightarrow> []
      | Some m \<Rightarrow> List.map_filter variant_of_line (splitlines (group ''body'' m)))"

definition add_new :: "'a \<Rightarrow> 'a list \<Rightarrow> 'a list" where
  "add_new v ordered = (if v \<in> set ordered then ordered else ordered @ [v])"

definition extract_string_literals :: "string \<Rightarrow> regex \<Rightarrow> string list" where
  "extract_string_literals source pat = fold add_new (map (group ''1'') (re_findall pat source)) []"

definition is_code_char :: "char \<Rightarrow> bool" where
  "is_code_char c \<longleftrightarrow> (let n = (of_char c :: nat) in (65 \<le> n \<and> n \<le> 90) \<or> n = 95)"

text \<open>\<open>"([A-Z_]+)"\<close>, and what stands before it in the sources.\<close>

definition code_literal :: regex where
  "code_literal = Seq (word_lit [double_quote]) (Seq (Grp ''1'' (Plus (Cls is_code_char))) (word_lit [double_quote]))"

definition reason_literal :: regex where
  "reason_literal = Seq (word_lit ''reason:'') (Seq spaces (Seq (word_lit ''Some('') code_literal))"

definition deny_literal :: "string \<Rightarrow> regex" where
  "deny_literal decision = Seq (word_lit (decision @ ''::deny('')) (Seq spaces code_literal)"

definition tier_pattern :: "string \<Rightarrow> regex" where
  "tier_pattern tier_name = Seq (word_lit (''Tier::'' @ tier_name)) (Seq spaces (Seq (word_lit ''=>'') (Seq spaces
     (Seq (word_lit ''matches!('') (Seq spaces (Seq (word_lit ''action_name.as_str(),'')
     (Seq (Grp ''body'' anything) (word_lit ''),''))))))))"

definition parse_tier_actions :: "string \<Rightarrow> string \<Rightarrow> string list" where
  "parse_tier_actions source tier_name =
     (case re_find (tier_pattern tier_name) source of None \<Rightarrow> []
      | Some m \<Rightarrow> extract_string_literals (group ''body'' m) code_literal)"

definition pre_test :: "string \<Rightarrow> string" where
  "pre_test source = before_first ''#[cfg(test)]'' source"

definition transition_pattern :: regex where
  "transition_pattern = Seq (word_lit ''(TaskState::'') (Seq (Grp ''1'' (Plus (Cls is_word_char))) (Seq (word_lit '','')
     (Seq spaces (Seq (word_lit ''TaskState::'') (Seq (Grp ''2'' (Plus (Cls is_word_char))) (word_lit '')''))))))"

definition parse_lifecycle_transitions :: "string \<Rightarrow> pydict list" where
  "parse_lifecycle_transitions source =
     fold add_new (map (\<lambda>m. [(''from'', PStr (group ''1'' m)), (''to'', PStr (group ''2'' m))])
       (re_findall transition_pattern (pre_test source))) []"

definition threshold_keys :: "string list" where
  "threshold_keys = [''cpu_high_percent'', ''battery_low_percent'', ''battery_critical_percent'',
     ''thermal_high_celsius'', ''thermal_critical_celsius'', ''thermal_recovery_cycles'']"

definition threshold_pattern :: "string \<Rightarrow> regex" where
  "threshold_pattern key = Seq (word_lit (key @ '':'')) (Seq spaces
     (Grp ''1'' (Plus (Cls (\<lambda>c. is_digit c \<or> c = CHR ''.'')))))"

fun read_thresholds :: "py_env \<Rightarrow> string \<Rightarrow> string list \<Rightarrow> pydict \<Rightarrow> exc + pydict" where
  "read_thresholds env source [] thresholds = Inr thresholds"
| "read_thresholds env source (key # keys) thresholds =
     (case re_find (threshold_pattern key) source of
        None \<Rightarrow> read_thresholds env source keys thresholds
      | Some m \<Rightarrow> result_bind (py_float env (PStr (group ''1'' m))) (\<lambda>x.
          read_thresholds env source keys (dict_set thresholds key (PFloat x))))"

definition parse_energy_thresholds :: "py_env \<Rightarrow> string \<Rightarrow> exc + pydict" where
  "parse_energy_thresholds env source = read_thresholds env source threshold_keys []"

definition version_pattern :: regex where
  "version_pattern = Seq (word_lit ''pub const IPC_SCHEMA_VERSION:'') (Seq spaces (Seq (word_lit ''u16'') (Seq spaces
     (Seq (word_lit ''='') (Seq spaces (Grp ''1'' (Plus (Cls is_digit))))))))"

text \<open>The lists of strings of the snapshot.\<close>

definition str_list :: "string list \<Rightarrow> pyval" where
  "str_list ws = PList (map PStr ws)"

record rust_sources =
  lifecycle_src :: string
  energy_src :: string
  storage_src :: string
  memory_src :: string
  tier_policy_src :: string
  ipc_src :: string

definition build_authority_snapshot :: "py_env \<Rightarrow> rust_sources \<Rightarrow> exc + pydict" where
  "build_authority_snapshot env src =
     result_bind (case re_find version_pattern (ipc_src src) of None \<Rightarrow> Inr 0
                  | Some m \<Rightarrow> py_int env (PStr (group ''1'' m))) (\<lambda>ipc_schema_version.
     result_bind (parse_energy_thresholds env (energy_src src)) (\<lambda>thresholds.
       let tier = parse_tier_actions (tier_policy_src src) in
       Inr [(''ipc_schema_version'', PInt ipc_schema_version),
         (''identity'', PDict [(''tiers'', str_list (parse_enum_variants (tier_policy_src src) ''Tier'')),
            (''policy_matrix'', PDict [(''Owner'', str_list (tier ''Owner'')), (''Family'', str_list (tier ''Family'')),
               (''Guest'', str_list (tier ''Guest''))])]),
         (''lifecycle'', PDict [(''states'', str_list (parse_enum_variants (lifecycle_src src) ''TaskState'')),
            (''valid_transitions'', PList (map PDict (parse_lifecycle_transitions (lifecycle_src src)))),
            (''reason_codes'', str_list (extract_string_literals (pre_test (lifecycle_src src)) reason_literal))]),
         (''energy'', PDict [(''modes'', str_list (parse_enum_variants (energy_src src) ''EnergyMode'')),
            (''execution_types'', str_list (parse_enum_variants (energy_src src) ''ExecutionType'')),
            (''thresholds'', PDict thresholds),
            (''decision_reason_codes'', str_list (extract_string_literals (energy_src src) reason_literal))]),
         (''storage'', PDict [(''operations'', str_list (parse_enum_variants (storage_src src) ''StorageOperation'')),
            (''decision_reason_codes'', str_list (extract_string_literals (storage_src src) (deny_literal ''StorageDecision'')))]),
         (''memory'', PDict [(''operations'', str_list (parse_enum_variants (memory_src src) ''MemoryOperation'')),
            (''decision_reason_codes'', str_list (extract_string_literals (memory_src src) (deny_literal ''MemoryDecision'')))])]))"

section \<open>Writing JSON\<close>

text \<open>
  \<open>json.dumps(v, sort_keys=True)\<close> with \<open>indent=2\<close>, or compact with \<open>separators=(",", ":")\<close>. Text outside
  printable ASCII is escaped. A date is not serialisable and raises \<open>TypeError\<close>.
\<close>

definition hex4 :: "nat \<Rightarrow> string" where
  "hex4 n = map hex_digit [n div 4096 mod 16, n div 256 mod 16, n div 16 mod 16, n mod 16]"

definition json_char :: "char \<Rightarrow> string" where
  "json_char c = (let n = (of_char c :: nat); backslash = CHR 0x5C in
     if c = double_quote then [backslash, double_quote]
     else if c = backslash then [backslash, backslash]
     else if n = 10 then [backslash, CHR ''n''] else if n = 13 then [backslash, CHR ''r'']
     else if n = 9 then [backslash, CHR ''t''] else if n = 12 then [backslash, CHR ''f'']
     else if n = 8 then [backslash, CHR ''b'']
     else if n < 32 \<or> 126 < n then [backslash, CHR ''u''] @ hex4 n
     else [c])"

definition json_string :: "string \<Rightarrow> string" where
  "json_string s = [double_quote] @ concat (map json_char s) @ [double_quote]"

fun json_float :: "py_env \<Rightarrow> pyfloat \<Rightarrow> string" where
  "json_float env PosInf = ''Infinity''"
| "json_float env NegInf = ''-Infinity''"
| "json_float env NaN = ''NaN''"
| "json_float env (Fin q) = env_repr env (PFloat (Fin q))"

definition json_break :: "nat option \<Rightarrow> nat \<Rightarrow> string" where
  "json_break indent level = (case indent of None \<Rightarrow> [] | Some k \<Rightarrow> line_feed # replicate (k * level) (CHR '' ''))"

text \<open>The items of a list or a dictionary between its brackets.\<close>

definition json_block :: "nat option \<Rightarrow> nat \<Rightarrow> char \<Rightarrow> char \<Rightarrow> string list \<Rightarrow> string" where
  "json_block indent level l r items =
     (if items = [] then [l, r]
      else [l] @ json_break indent (level + 1) @ join ('','' @ json_break indent (level + 1)) items
        @ json_break indent level @ [r])"

fun json_text :: "py_env \<Rightarrow> nat option \<Rightarrow> nat \<Rightarrow> pyval \<Rightarrow> exc + string" and
    json_items :: "py_env \<Rightarrow> nat option \<Rightarrow> nat \<Rightarrow> pyval list \<Rightarrow> exc + string list" and
    json_members :: "py_env \<Rightarrow> nat option \<Rightarrow> nat \<Rightarrow> (string \<times> pyval) list \<Rightarrow> exc + (string \<times> string) list" where
  "json_text env indent level PNone = Inr ''null''"
| "json_text env indent level (PBool b) = Inr (if b then ''true'' else ''false'')"
| "json_text env indent level (PInt i) = Inr (dec_int i)"
| "json_text env indent level (PFloat x) = Inr (json_float env x)"
| "json_text env indent level (PStr s) = Inr (json_string s)"
| "json_text env indent level (PDateTime d) = Inl TypeError"
| "json_text env indent level (PList vs) =
     result_bind (json_items env indent (level + 1) vs) (\<lambda>items. Inr (json_block indent level (CHR ''['') (CHR '']'') items))"
| "json_text env indent level (PDict d) =
     result_bind (json_members env indent (level + 1) d) (\<lambda>members.
       Inr (json_block indent level (CHR ''{'') (CHR ''}'')
         (map (\<lambda>(k, t). json_string k @ (if indent = None then '':'' else '': '') @ t) (sort_key fst members))))"
| "json_items env indent level [] = Inr []"
| "json_items env indent level (v # vs) =
     result_bind (json_text env indent level v) (\<lambda>t. result_bind (json_items env indent level vs) (\<lambda>ts. Inr (t # ts)))"
| "json_members env indent level [] = Inr []"
| "json_members env indent level ((k, v) # d) =
     result_bind (json_text env indent level v) (\<lambda>t. result_bind (json_members env indent level d) (\<lambda>ts. Inr ((k, t) # ts)))"

definition json_dumps :: "py_env \<Rightarrow> nat option \<Rightarrow> pyval \<Rightarrow> exc + string" where
  "json_dumps env indent v = json_text env indent 0 v"

section \<open>The message schema\<close>

definition IPC_SCHEMA_VERSION :: int where "IPC_SCHEMA_VERSION = 1"

definition schema_descriptor :: pydict where
  "schema_descriptor =
     [(''schema_version'', PInt IPC_SCHEMA_VERSION),
      (''envelope'', PDict [(''required_fields'', str_list [''message_type'', ''timestamp'', ''correlation_id'', ''payload'']),
         (''timestamp_type'', PStr ''integer_ms''), (''correlation_id_type'', PStr ''non_empty_string''),
         (''payload_type'', PStr ''object'')]),
      (''message_types'', str_list [MESSAGE_EVENT, MESSAGE_STATE_UPDATE, MESSAGE_AUTH_REQUEST, MESSAGE_AUTH_RESULT,
         MESSAGE_TRANSITION_VALIDATE, MESSAGE_TRANSITION_RESULT, MESSAGE_ENERGY_VALIDATE, MESSAGE_ENERGY_RESULT,
         MESSAGE_STORAGE_VALIDATE, MESSAGE_STORAGE_RESULT, MESSAGE_MEMORY_VALIDATE, MESSAGE_MEMORY_RESULT]),
      (''max_message_bytes'', PInt (int MAX_MESSAGE_BYTES))]"

definition build_ipc_schema_snapshot :: "py_env \<Rightarrow> exc + pydict" where
  "build_ipc_schema_snapshot env =
     result_bind (json_dumps env None (PDict schema_descriptor)) (\<lambda>encoded.
     result_bind (utf8_encode (of_text encoded)) (\<lambda>raw.
       Inr (dict_set schema_descriptor ''schema_hash_sha256'' (PStr (hexdigest (sha256 (map of_nat raw)))))))"

section \<open>The export\<close>

text \<open>
  The output directory as a map from file names to texts. The six Rust files are read in order; the first one that cannot be read
  raises.
\<close>

definition read_sources :: "(string \<Rightarrow> exc + string) \<Rightarrow> exc + rust_sources" where
  "read_sources read_text =
     result_bind (read_text ''os/src/runtime/lifecycle.rs'') (\<lambda>a.
     result_bind (read_text ''os/src/energy_manager.rs'') (\<lambda>b.
     result_bind (read_text ''os/src/secure_storage.rs'') (\<lambda>c.
     result_bind (read_text ''os/src/runtime/memory_authority.rs'') (\<lambda>d.
     result_bind (read_text ''os/src/identity/tier_policy.rs'') (\<lambda>e.
     result_bind (read_text ''os/src/ipc.rs'') (\<lambda>f.
       Inr \<lparr>lifecycle_src = a, energy_src = b, storage_src = c, memory_src = d, tier_policy_src = e, ipc_src = f\<rparr>))))))"

definition write_json :: "py_env \<Rightarrow> string \<Rightarrow> pydict \<Rightarrow> (string \<rightharpoonup> string, unit) prog" where
  "write_json env name payload files =
     (case json_dumps env (Some 2) (PDict payload) of Inl e \<Rightarrow> (Inl e, files)
      | Inr t \<Rightarrow> (Inr (), files(name \<mapsto> t @ [line_feed])))"

definition export_contracts :: "py_env \<Rightarrow> (string \<Rightarrow> exc + string) \<Rightarrow> (string \<rightharpoonup> string, string \<times> string) prog" where
  "export_contracts env read_text =
     and_then (lift_result (result_bind (read_sources read_text) (build_authority_snapshot env))) (\<lambda>authority_payload.
     and_then (lift_result (build_ipc_schema_snapshot env)) (\<lambda>ipc_payload.
     and_then (write_json env ''authority_snapshot.json'' authority_payload) (\<lambda>_.
     and_then (write_json env ''ipc_schema_v1.json'' ipc_payload) (\<lambda>_.
       ret (''authority_snapshot.json'', ''ipc_schema_v1.json'')))))"

end
