(* ===== verification/Contract_Properties.thy ===== *)
theory Contract_Properties
  imports Contracts
begin

text \<open>
  What the contract export promises: an enumeration written in the usual layout is read back variant by
  variant, the schema that is exported is the one the bridge enforces, and a failed export leaves the
  files as they were. The first part finds the match that Python returns for the shapes of pattern used here.
\<close>

section \<open>The match that is found\<close>

declare step_char.simps [simp del]

lemma step_char_Nil [simp]: "ahead p = [] \<Longrightarrow> step_char f p = []"
  by (simp add: step_char.simps)

lemma step_char_Cons [simp]: "ahead p = c # v \<Longrightarrow> step_char f p = (if f c then [advance [c] v p] else [])"
  by (simp add: step_char.simps advance_def)

lemma all_matches_word_lit:
  "all_matches (word_lit w) p = (if take (length w) (ahead p) = w then [advance w (drop (length w) (ahead p)) p] else [])"
proof (induction w arbitrary: p)
  case Nil
  show ?case by (simp add: word_lit_def advance_Nil)
next
  case (Cons c w)
  show ?case
  proof (cases "ahead p")
    case Nil
    then show ?thesis by (simp add: word_lit_def)
  next
    case (Cons d v)
    have "all_matches (word_lit (c # w)) p = concat (map (all_matches (word_lit w)) (step_char (\<lambda>x. x = c) p))"
      by (simp add: word_lit_def)
    with Cons Cons.IH [of "advance [d] v p"] show ?thesis by auto
  qed
qed

lemma first_of_seq:
  "all_matches r p = q # qs \<Longrightarrow> all_matches t q = u # us \<Longrightarrow> \<exists>vs. all_matches (Seq r t) p = u # vs"
  by simp

lemma none_of_seq: "all_matches r p = [] \<Longrightarrow> all_matches (Seq r t) p = []"
  by simp

text \<open>Greedy: the longest run comes first.\<close>

lemma star_cls_first:
  assumes "\<forall>c\<in>set u. f c" and "v = [] \<or> \<not> f (hd v)" and "length u \<le> n" and "ahead p = u @ v"
  shows "\<exists>qs. star_matches n (step_char f) p = advance u v p # qs"
  using assms
proof (induction u arbitrary: n p)
  case Nil
  then show ?case by (cases n; cases v) (auto simp: advance_Nil)
next
  case (Cons c u)
  then obtain m where n: "n = Suc m" by (cases n) auto
  obtain qs where "star_matches m (step_char f) (advance [c] (u @ v) p) = advance u v (advance [c] (u @ v) p) # qs"
    using Cons.IH [of m "advance [c] (u @ v) p"] Cons.prems n by auto
  with Cons.prems n show ?case by simp
qed

lemma spaces_first:
  assumes "\<forall>c\<in>set u. f c" and "v = [] \<or> \<not> f (hd v)" and "ahead p = u @ v"
  shows "\<exists>qs. all_matches (Star (Cls f)) p = advance u v p # qs"
  using star_cls_first [OF assms(1,2) _ assms(3), of "length (ahead p)"] assms(3) by simp

text \<open>Lazy: every length is tried, the shortest first.\<close>

lemma lazy_any:
  "lazy_matches (length a) (step_char (\<lambda>_. True)) p = map (\<lambda>i. advance (take i a) (drop i a) p) [0..<Suc (length a)]"
  if "ahead p = a"
  using that
proof (induction a arbitrary: p)
  case Nil
  then show ?case by (simp add: advance_Nil)
next
  case (Cons c a)
  have "lazy_matches (length (c # a)) (step_char (\<lambda>_. True)) p
      = p # lazy_matches (length a) (step_char (\<lambda>_. True)) (advance [c] a p)"
    using Cons.prems by simp
  also have "\<dots> = p # map (\<lambda>i. advance (take i a) (drop i a) (advance [c] a p)) [0..<Suc (length a)]"
    using Cons.IH [of "advance [c] a p"] by simp
  also have "\<dots> = map (\<lambda>i. advance (take i (c # a)) (drop i (c # a)) p) (0 # map Suc [0..<Suc (length a)])"
    using Cons.prems by (simp add: advance_Nil del: upt_Suc)
  also have "0 # map Suc [0..<Suc (length a)] = [0..<Suc (length (c # a))]"
    unfolding map_Suc_upt by (subst (2) upt_conv_Cons) simp_all
  finally show ?case .
qed

lemma concat_map_first:
  assumes "\<forall>x\<in>set xs. f x = []" and "f y = z # zs"
  shows "\<exists>ws. concat (map f (xs @ y # ys)) = z # ws"
proof -
  have "concat (map f xs) = []" using assms(1) by (induction xs) simp_all
  then have "concat (map f (xs @ y # ys)) = z # zs @ concat (map f ys)" unfolding map_append concat_append using assms(2) by simp
  then show ?thesis by blast
qed

text \<open>A group \<open>.*?\<close> before a literal ends at the first place where the literal stands.\<close>

lemma lazy_group_first:
  assumes ahead: "ahead p = u @ w @ v"
    and first: "\<And>i. i < length u \<Longrightarrow> take (length w) (drop i (u @ w @ v)) \<noteq> w"
  shows "\<exists>qs. all_matches (Seq (Grp name anything) (word_lit w)) p
    = (advance (u @ w) v p)\<lparr>caps := (name, u) # caps p\<rparr> # qs"
proof -
  let ?a = "u @ w @ v"
  let ?at = "\<lambda>i. capture name p (advance (take i ?a) (drop i ?a) p)"
  have all: "all_matches (Seq (Grp name anything) (word_lit w)) p
      = concat (map (\<lambda>i. all_matches (word_lit w) (?at i)) [0..<Suc (length ?a)])"
    using lazy_any [OF ahead] ahead by (simp add: anything_def comp_def del: upt_Suc)
  have split: "[0..<Suc (length ?a)] = [0..<length u] @ length u # [Suc (length u)..<Suc (length ?a)]"
    using upt_add_eq_append [of 0 "length u" "Suc (length w + length v)"]
    by (simp add: upt_conv_Cons del: upt_Suc)
  have cap: "?at i = (advance (take i ?a) (drop i ?a) p)\<lparr>caps := (name, take i ?a) # caps p\<rparr>" for i
    by (rule capture_advance) (simp only: ahead append_take_drop_id)
  have none: "\<forall>i\<in>set [0..<length u]. all_matches (word_lit w) (?at i) = []"
    using first by (simp only: all_matches_word_lit cap) simp
  have here: "all_matches (word_lit w) (?at (length u)) = [(advance (u @ w) v p)\<lparr>caps := (name, u) # caps p\<rparr>]"
    by (simp only: all_matches_word_lit cap) (simp add: advance_def)
  show ?thesis unfolding all split by (rule concat_map_first [OF none here])
qed

lemma first_match_skips:
  assumes "\<And>a b. pre = a @ b \<Longrightarrow> b \<noteq> [] \<Longrightarrow> all_matches r (start_at (rev a @ prev) (b @ s)) = []"
    and "all_matches r (start_at (rev pre @ prev) s) = q # qs"
  shows "first_match r prev (pre @ s) = Some q"
  using assms
proof (induction pre arbitrary: prev)
  case Nil
  then show ?case by (cases s) auto
next
  case (Cons c pre)
  have "all_matches r (start_at prev (c # pre @ s)) = []" using Cons.prems(1) [of "[]" "c # pre"] by simp
  moreover have "first_match r (c # prev) (pre @ s) = Some q"
  proof (rule Cons.IH)
    show "all_matches r (start_at (rev a @ c # prev) (b @ s)) = []" if "pre = a @ b" "b \<noteq> []" for a b
      using Cons.prems(1) [of "c # a" b] that by simp
  qed (use Cons.prems(2) in simp)
  ultimately show ?case by simp
qed

section \<open>Enumerations\<close>

lemma is_line_break_LF [simp]: "is_line_break line_feed"
  by (simp add: is_line_break_def line_feed_def)

lemma line_feed_not_CR [simp]: "line_feed \<noteq> CHR 0x0D"
  by (simp add: line_feed_def)

text \<open>Lines, each after a line feed.\<close>

definition below :: "string list \<Rightarrow> string" where
  "below ls = concat (map ((#) line_feed) ls)"

lemma below_simps [simp]: "below [] = []" "below (l # ls) = line_feed # l @ below ls" "below (ls @ ls') = below ls @ below ls'"
  by (simp_all add: below_def)

lemma lines_of_line:
  assumes "\<forall>c\<in>set l. \<not> is_line_break c"
  shows "lines_of acc (l @ line_feed # s) = (rev acc @ l) # lines_of [] s"
  using assms
proof (induction l arbitrary: acc)
  case Nil
  show ?case by (cases s) auto
next
  case (Cons c l)
  then show ?case by (cases l) auto
qed

lemma lines_of_last:
  assumes "\<forall>c\<in>set l. \<not> is_line_break c"
  shows "lines_of acc l = (if acc = [] \<and> l = [] then [] else [rev acc @ l])"
  using assms
proof (induction l arbitrary: acc)
  case (Cons c l)
  then show ?case by (cases l) auto
qed simp

lemma variant_of_Nil [simp]: "variant_of_line [] = None"
  by (simp add: variant_of_line_def strip_def)

lemma variants_below:
  assumes "\<forall>l\<in>set ls. \<forall>c\<in>set l. \<not> is_line_break c"
  shows "List.map_filter variant_of_line (splitlines (below ls)) = List.map_filter variant_of_line ls"
proof -
  have "List.map_filter variant_of_line (lines_of [] (l @ below ls)) = List.map_filter variant_of_line (l # ls)"
    if "\<forall>l\<in>set (l # ls). \<forall>c\<in>set l. \<not> is_line_break c" for l ls
    using that
  proof (induction ls arbitrary: l)
    case Nil
    then show ?case by (simp add: lines_of_last map_filter_simps)
  next
    case (Cons m ls)
    then have "lines_of [] (l @ below (m # ls)) = l # lines_of [] (m @ below ls)"
      using lines_of_line [of l "[]" "m @ below ls"] by simp
    then show ?case using Cons.IH [of m] Cons.prems by (simp add: map_filter_simps(1) split: option.split)
  qed
  from this [of "[]" ls] assms show ?thesis
    by (simp add: splitlines_def map_filter_simps)
qed

lemma no_close_inside:
  assumes "\<forall>l\<in>set ls. \<not> starts_with l ''}'' \<and> (\<forall>c\<in>set l. \<not> is_line_break c)" and "i < length (below ls)"
  shows "take (length closing_brace) (drop i (below ls @ closing_brace @ v)) \<noteq> closing_brace"
  using assms
proof (induction ls arbitrary: i)
  case (Cons l ls)
  let ?rest = "below ls @ closing_brace @ v"
  have rest: "hd ?rest = line_feed" "?rest \<noteq> []" by (cases ls; simp add: closing_brace_def)+
  show ?case
  proof (cases "i \<le> length l")
    case inside: True
    show ?thesis
    proof (cases i)
      case 0
      have "hd (l @ ?rest) \<noteq> CHR ''}''"
        using Cons.prems(1) rest by (cases l) (auto simp: starts_with_def line_feed_def)
      moreover have "l @ ?rest \<noteq> []" by (simp add: closing_brace_def)
      ultimately have "take 1 (l @ ?rest) \<noteq> ''}''" by (cases "l @ ?rest") auto
      then show ?thesis using 0 by (simp add: closing_brace_def)
    next
      case (Suc k)
      with inside have "l ! k \<in> set l" by simp
      then have "l ! k \<noteq> line_feed" using Cons.prems(1) is_line_break_LF by (metis list.set_intros(1))
      moreover have "drop k l = l ! k # drop (Suc k) l" using inside Suc by (simp add: Cons_nth_drop_Suc)
      moreover have "drop i (line_feed # l @ ?rest) = drop k l @ ?rest" using inside Suc by simp
      ultimately show ?thesis by (simp add: closing_brace_def)
    qed
  next
    case False
    then have "take (length closing_brace) (drop (i - Suc (length l)) ?rest) \<noteq> closing_brace"
      using Cons.IH [of "i - Suc (length l)"] Cons.prems by auto
    with False show ?thesis by (simp add: drop_Cons' drop_append)
  qed
qed simp

lemma not_space_brace: "\<not> is_space (CHR ''{'')"
  by (simp add: is_space_def)

lemma enum_found:
  assumes "\<And>a b. pre = a @ b \<Longrightarrow> b \<noteq> [] \<Longrightarrow> \<not> starts_with (b @ ''pub enum '' @ name) (''pub enum '' @ name)"
    and "\<forall>c\<in>set ws. is_space c"
    and "\<forall>l\<in>set ls. \<not> starts_with l ''}'' \<and> (\<forall>c\<in>set l. \<not> is_line_break c)"
  shows "re_find (enum_pattern name) (pre @ (''pub enum '' @ name) @ ws @ ''{'' @ below ls @ closing_brace @ post)
    = Some [(''body'', below ls)]"
proof -
  define w where "w = ''pub enum '' @ name"
  define s where "s = w @ ws @ ''{'' @ below ls @ closing_brace @ post"
  let ?r1 = "Seq (Grp ''body'' anything) (word_lit closing_brace)"
  define p0 where "p0 = start_at (rev pre) s"
  define p1 where "p1 = advance w (ws @ ''{'' @ below ls @ closing_brace @ post) p0"
  define p2 where "p2 = advance ws (''{'' @ below ls @ closing_brace @ post) p1"
  define p3 where "p3 = advance ''{'' (below ls @ closing_brace @ post) p2"
  have m0: "all_matches (word_lit w) p0 = [p1]" by (simp add: all_matches_word_lit p0_def start_at_def s_def p1_def)
  obtain q1 where m1: "all_matches spaces p1 = p2 # q1"
    using spaces_first [OF assms(2), of "''{'' @ below ls @ closing_brace @ post" p1] not_space_brace
    unfolding p2_def by (metis advance_simps(1) append_Cons list.sel(1) p1_def)
  have m2: "all_matches (word_lit ''{'') p2 = [p3]" by (simp add: all_matches_word_lit p2_def p3_def)
  have "ahead p3 = below ls @ closing_brace @ post" by (simp add: p3_def)
  from lazy_group_first [OF this no_close_inside [OF assms(3)], where name = "''body''"]
  obtain q where m3: "all_matches ?r1 p3 = (advance (below ls @ closing_brace) post p3)\<lparr>caps := (''body'', below ls) # caps p3\<rparr> # q"
    by blast
  obtain v2 where "all_matches (Seq (word_lit ''{'') ?r1) p2 = hd (all_matches ?r1 p3) # v2"
    using first_of_seq [OF m2 m3] m3 by (auto simp del: all_matches.simps)
  from first_of_seq [OF m1 this] obtain v1 where
    "all_matches (Seq spaces (Seq (word_lit ''{'') ?r1)) p1 = hd (all_matches ?r1 p3) # v1" by blast
  from first_of_seq [OF m0 this] have "\<exists>v. all_matches (enum_pattern name) p0
      = (advance (below ls @ closing_brace) post p3)\<lparr>caps := (''body'', below ls) # caps p3\<rparr> # v"
    unfolding enum_pattern_def w_def [symmetric] m3 by simp
  moreover have "all_matches (enum_pattern name) (start_at (rev a @ []) (b @ s)) = []" if "pre = a @ b" "b \<noteq> []" for a b
  proof -
    have "take (length w) (b @ s) = take (length w) (b @ w)" by (simp add: s_def)
    then have "take (length w) (b @ s) \<noteq> w" using assms(1) [OF that] unfolding starts_with_def w_def [symmetric] by simp
    then have "all_matches (word_lit w) (start_at (rev a @ []) (b @ s)) = []"
      by (simp add: all_matches_word_lit start_at_def del: take_append)
    then show ?thesis unfolding enum_pattern_def w_def [symmetric] by (rule none_of_seq)
  qed
  ultimately have "first_match (enum_pattern name) [] (pre @ s)
      = Some ((advance (below ls @ closing_brace) post p3)\<lparr>caps := (''body'', below ls) # caps p3\<rparr>)"
    using first_match_skips [of pre "enum_pattern name" "[]" s] by (auto simp: p0_def)
  then show ?thesis by (simp add: re_find_def s_def w_def p3_def p2_def p1_def p0_def start_at_def)
qed

lemma enum_lines_are_read:
  assumes "\<And>a b. pre = a @ b \<Longrightarrow> b \<noteq> [] \<Longrightarrow> \<not> starts_with (b @ ''pub enum '' @ name) (''pub enum '' @ name)"
    and "\<forall>c\<in>set ws. is_space c"
    and "\<forall>l\<in>set ls. \<not> starts_with l ''}'' \<and> (\<forall>c\<in>set l. \<not> is_line_break c)"
  shows "parse_enum_variants (pre @ (''pub enum '' @ name) @ ws @ ''{'' @ below ls @ closing_brace @ post) name
    = List.map_filter variant_of_line ls"
  using enum_found [OF assms] variants_below [of ls] assms(3)
  by (simp add: parse_enum_variants_def group_def)

text \<open>An enumeration as the sources write it: every variant with a comment, a payload or a discriminant.\<close>

record variant =
  va_doc :: string
  va_name :: string
  va_payload :: string

definition variant_lines :: "variant \<Rightarrow> string list" where
  "variant_lines va = [''    /// '' @ va_doc va, ''    '' @ va_name va @ va_payload va @ '','']"

definition print_enum :: "string \<Rightarrow> variant list \<Rightarrow> string" where
  "print_enum name vas = (''pub enum '' @ name) @ '' '' @ ''{'' @ below (concat (map variant_lines vas)) @ closing_brace"

definition variant_ok :: "variant \<Rightarrow> bool" where
  "variant_ok va \<longleftrightarrow> va_name va \<noteq> [] \<and> list_all is_word_char (va_name va)
     \<and> list_all (\<lambda>c. \<not> is_line_break c) (va_doc va @ va_payload va)
     \<and> (va_payload va = [] \<or> starts_with (va_payload va) ''('' \<or> starts_with (va_payload va) '' ='')"

lemma word_char_facts:
  "is_word_char c \<Longrightarrow> \<not> is_space c \<and> \<not> is_line_break c \<and> c \<noteq> CHR ''('' \<and> c \<noteq> CHR ''='' \<and> c \<noteq> CHR '',''
     \<and> c \<noteq> CHR ''/'' \<and> c \<noteq> CHR ''#''"
  by (auto simp: is_word_char_def is_space_def is_line_break_def Let_def)

lemma strip_indented:
  assumes "l = replicate n (CHR '' '') @ u" and "u \<noteq> []" and "\<not> is_space (hd u)" and "\<not> is_space (last u)"
  shows "strip l = u"
proof -
  have "is_space (CHR '' '')" by (simp add: is_space_def)
  then have "dropWhile is_space l = u" using assms by (induction n arbitrary: l) (auto simp: dropWhile_idem_hd)
  moreover have "dropWhile is_space (rev u) = rev u" using assms by (simp add: dropWhile_idem_hd hd_rev)
  ultimately show ?thesis by (simp add: strip_def)
qed

lemma strip_comment: "\<exists>v. strip (''    /// '' @ doc) = ''//'' @ v"
proof -
  have sp: "is_space (CHR '' '')" "\<not> is_space (CHR ''/'')" by (simp_all add: is_space_def)
  have "strip (''    /// '' @ doc) = rev (dropWhile is_space (rev (''/ '' @ doc) @ ''//''))" by (simp add: strip_def sp)
  also have "\<dots> = ''//'' @ rev (dropWhile is_space (rev (''/ '' @ doc)))"
    using sp(2) by (subst dropWhile_append1 [of "CHR ''/''"]) simp_all
  finally show ?thesis by blast
qed

lemma variant_of_comment: "variant_of_line (''    /// '' @ doc) = None"
  using strip_comment [of doc] by (auto simp: variant_of_line_def starts_with_def)

lemma strip_word: "list_all is_word_char w \<Longrightarrow> w \<noteq> [] \<Longrightarrow> strip w = w"
  using strip_indented [of w 0 w] word_char_facts by (auto simp: list_all_iff)

lemma variant_of_declared:
  assumes "variant_ok va"
  shows "variant_of_line (''    '' @ va_name va @ va_payload va @ '','') = Some (va_name va)"
proof -
  let ?n = "va_name va" and ?p = "va_payload va"
  have n: "?n \<noteq> []" "list_all is_word_char ?n" "\<forall>c\<in>set ?n. is_word_char c" using assms by (auto simp: variant_ok_def list_all_iff)
  have chars: "\<forall>c\<in>set ?n. c \<noteq> CHR ''('' \<and> c \<noteq> CHR ''='' \<and> c \<noteq> CHR '',''" using n word_char_facts by blast
  have strip: "strip (''    '' @ ?n @ ?p @ '','') = ?n @ ?p @ '',''"
    by (rule strip_indented [of _ 4])
      (use n word_char_facts [of "hd ?n"] in \<open>auto simp: numeral_eq_Suc is_space_def\<close>)
  have head: "\<not> starts_with (?n @ ?p @ '','') ''//''" "\<not> starts_with (?n @ ?p @ '','') ''#''"
    using n word_char_facts [of "hd ?n"] by (cases ?n; auto simp: starts_with_def)+
  have "takeWhile (\<lambda>c. c \<noteq> CHR ''='') (takeWhile (\<lambda>c. c \<noteq> CHR ''('') (?n @ ?p @ '','')) \<in> {?n @ '','', ?n, ?n @ '' ''}"
  proof -
    have t: "takeWhile (\<lambda>c. c \<noteq> CHR ''('') (?n @ r) = ?n @ takeWhile (\<lambda>c. c \<noteq> CHR ''('') r"
      "takeWhile (\<lambda>c. c \<noteq> CHR ''='') (?n @ r) = ?n @ takeWhile (\<lambda>c. c \<noteq> CHR ''='') r" for r
      using chars by (simp_all add: takeWhile_append2)
    have "?p = [] \<or> (\<exists>x. ?p = CHR ''('' # x) \<or> (\<exists>x. ?p = '' ='' @ x)"
      using assms unfolding variant_ok_def starts_with_def by (metis append_Cons append_Nil append_take_drop_id)
    then show ?thesis by (auto simp: t)
  qed
  moreover have "strip (rstrip_commas u) = ?n" if "u \<in> {?n @ '','', ?n, ?n @ '' ''}" for u
  proof -
    have drop: "dropWhile (\<lambda>c. c = CHR '','') (rev ?n) = rev ?n"
      using n chars by (intro dropWhile_idem_hd) (auto simp: hd_rev)
    have "dropWhile is_space (?n @ '' '') = ?n @ '' ''" "dropWhile is_space (rev ?n) = rev ?n"
      using n word_char_facts [of "hd ?n"] word_char_facts [of "last ?n"]
      by (auto intro!: dropWhile_idem_hd simp: hd_rev)
    then have last: "strip (?n @ '' '') = ?n" by (simp add: strip_def is_space_def)
    from that drop last strip_word [OF n(2,1)] show ?thesis by (auto simp: rstrip_commas_def)
  qed
  ultimately show ?thesis using n(1) head by (simp only: variant_of_line_def strip Let_def) simp
qed

lemma variant_lines_ok:
  assumes "variant_ok va" and "l \<in> set (variant_lines va)"
  shows "\<not> starts_with l ''}'' \<and> (\<forall>c\<in>set l. \<not> is_line_break c)"
proof -
  have "\<not> is_line_break (CHR '' '')" "\<not> is_line_break (CHR ''/'')" "\<not> is_line_break (CHR '','')"
    by (simp_all add: is_line_break_def)
  then show ?thesis
    using assms word_char_facts by (auto simp: variant_lines_def variant_ok_def starts_with_def list_all_iff)
qed

lemma variants_of_lines:
  "list_all variant_ok vas \<Longrightarrow> List.map_filter variant_of_line (concat (map variant_lines vas)) = map va_name vas"
proof (induction vas)
  case (Cons va vas)
  have "List.map_filter variant_of_line (variant_lines va @ ls) = va_name va # List.map_filter variant_of_line ls" for ls
    using Cons.prems variant_of_comment [of "va_doc va"] variant_of_declared [of va]
    by (simp add: variant_lines_def map_filter_simps)
  with Cons show ?case by simp
qed (simp add: map_filter_simps)



section \<open>Literals\<close>

text \<open>Collecting what is new keeps the first appearance of each value, in order.\<close>

lemma fold_add_new: "fold add_new vs ordered = ordered @ rev (remdups (rev (filter (\<lambda>v. v \<notin> set ordered) vs)))"
proof (induction vs rule: rev_induct)
  case (snoc v vs)
  then show ?case by (auto simp: add_new_def)
qed simp

lemma extract_spec:
  "extract_string_literals source pat = rev (remdups (rev (map (group ''1'') (re_findall pat source))))"
  by (simp add: extract_string_literals_def fold_add_new)

lemma first_match_matches: "first_match r prev s = Some q \<Longrightarrow> \<exists>p. caps p = [] \<and> matches r p q"
proof (induction s arbitrary: prev)
  case Nil
  then show ?case
    by (intro exI [of _ "start_at prev []"]) (auto simp: start_at_def all_matches_iff [symmetric] split: list.splits)
next
  case (Cons c s)
  show ?case
  proof (cases "all_matches r (start_at prev (c # s))")
    case Nil
    with Cons show ?thesis by simp
  next
    case m: (Cons u us)
    with Cons.prems have "matches r (start_at prev (c # s)) q" by (simp add: all_matches_iff [symmetric])
    then show ?thesis by (intro exI [of _ "start_at prev (c # s)"]) (simp add: start_at_def)
  qed
qed

lemma find_all_matches: "m \<in> set (find_all r prev s) \<Longrightarrow> \<exists>p q. caps p = [] \<and> matches r p q \<and> m = caps q"
proof (induction r prev s rule: find_all.induct)
  case (1 r prev s)
  show ?case
  proof (cases "first_match r prev s")
    case None
    with "1.prems" show ?thesis by (simp add: find_all.simps [of r prev s])
  next
    case q: (Some q)
    with "1.prems" have "m = caps q \<or> length (ahead q) < length s \<and> m \<in> set (find_all r (behind q) (ahead q))"
      by (simp add: find_all.simps [of r prev s] split: if_splits)
    with first_match_matches [OF q] "1.IH" [OF q] show ?thesis by blast
  qed
qed

lemma matches_word_lit: "matches (word_lit w) p q \<Longrightarrow> caps q = caps p"
  unfolding all_matches_iff [symmetric] by (auto simp: all_matches_word_lit split: if_splits)

lemma matches_code_group:
  assumes "matches (Grp name (Plus (Cls f))) p q"
  shows "\<exists>u. u \<noteq> [] \<and> list_all f u \<and> caps q = (name, u) # caps p"
proof -
  obtain w where w: "matches (Plus (Cls f)) p w" and q: "q = capture name p w" using assms by auto
  obtain u v where "ahead p = u @ v" "u \<noteq> []" "\<forall>c\<in>set u. f c" "w = advance u v p" using w unfolding matches_some by blast
  with q show ?thesis by (intro exI [of _ u]) (simp add: capture_advance list_all_iff)
qed

lemma after_literal: "matches (Seq (word_lit w) t) p q \<Longrightarrow> \<exists>u. caps u = caps p \<and> matches t u q"
  using matches_word_lit by auto

lemma after_spaces: "matches (Seq spaces t) p q \<Longrightarrow> \<exists>u. caps u = caps p \<and> matches t u q"
  using star_reads unfolding matches_simps by blast

definition captures_code :: "regex \<Rightarrow> bool" where
  "captures_code r \<longleftrightarrow> (\<forall>p q. matches r p q \<longrightarrow> (\<exists>u. u \<noteq> [] \<and> list_all is_code_char u \<and> caps q = (''1'', u) # caps p))"

lemma captures_codeI:
  "captures_code t \<Longrightarrow> captures_code (Seq (word_lit w) t)" "captures_code t \<Longrightarrow> captures_code (Seq spaces t)"
  unfolding captures_code_def using after_literal after_spaces by metis+

lemma captures_code_group: "captures_code (Seq (Grp ''1'' (Plus (Cls is_code_char))) (word_lit w))"
  unfolding captures_code_def matches_simps(2) using matches_code_group matches_word_lit by metis

lemma captures_code_literals:
  "captures_code code_literal" "captures_code reason_literal" "captures_code (deny_literal d)"
  unfolding reason_literal_def deny_literal_def code_literal_def
  by (intro captures_codeI captures_code_group)+

lemma extract_codes:
  assumes "captures_code r"
  shows "distinct (extract_string_literals source r)
    \<and> (\<forall>w\<in>set (extract_string_literals source r). w \<noteq> [] \<and> list_all is_code_char w)"
proof -
  have "group ''1'' m \<noteq> [] \<and> list_all is_code_char (group ''1'' m)" if "m \<in> set (re_findall r source)" for m
    using find_all_matches [OF that [unfolded re_findall_def]] assms unfolding captures_code_def by (fastforce simp: group_def)
  then show ?thesis by (simp add: extract_spec)
qed

text \<open>
  Whatever the Rust sources hold, every list of reason codes and every row of the policy matrix in the
  snapshot holds each code once, in the order of first appearance, and only non-empty words of
  capital letters and underscores.
\<close>

theorem exported_codes_are_codes:
  "extract_string_literals source pat = rev (remdups (rev (map (group ''1'') (re_findall pat source))))
   \<and> (pat \<in> {code_literal, reason_literal, deny_literal decision} \<longrightarrow>
       (\<forall>w\<in>set (extract_string_literals source pat). w \<noteq> [] \<and> list_all is_code_char w))
   \<and> distinct (parse_tier_actions source tier)
   \<and> (\<forall>w\<in>set (parse_tier_actions source tier). w \<noteq> [] \<and> list_all is_code_char w)"
proof -
  note codes = captures_code_literals [THEN extract_codes]
  have "distinct (parse_tier_actions source tier)
      \<and> (\<forall>w\<in>set (parse_tier_actions source tier). w \<noteq> [] \<and> list_all is_code_char w)"
    using codes(1) by (simp add: parse_tier_actions_def split: option.split)
  moreover have "\<forall>w\<in>set (extract_string_literals source pat). w \<noteq> [] \<and> list_all is_code_char w"
    if "pat \<in> {code_literal, reason_literal, deny_literal decision}"
    using that codes [of source] by (elim insertE emptyE) simp_all
  ultimately show ?thesis by (simp add: extract_spec [symmetric])
qed

theorem exported_codes_are_codes_witness:
  "extract_string_literals (''x'' @ [double_quote] @ ''NO'' @ [double_quote]) code_literal = [''NO'']
   \<and> (\<forall>w\<in>set (extract_string_literals (''x'' @ [double_quote] @ ''NO'' @ [double_quote]) code_literal).
        w \<noteq> [] \<and> list_all is_code_char w)"
proof
  show "extract_string_literals (''x'' @ [double_quote] @ ''NO'' @ [double_quote]) code_literal = [''NO'']" by code_simp
  show "\<forall>w\<in>set (extract_string_literals (''x'' @ [double_quote] @ ''NO'' @ [double_quote]) code_literal).
      w \<noteq> [] \<and> list_all is_code_char w"
    using exported_codes_are_codes [of _ code_literal] by simp
qed

section \<open>The schema and the files\<close>

text \<open>Values without dates can be written.\<close>

fun dateless :: "pyval \<Rightarrow> bool" where
  "dateless (PList vs) = list_all dateless vs"
| "dateless (PDict d) = list_all (\<lambda>(k, v). dateless v) d"
| "dateless (PDateTime _) = False"
| "dateless _ = True"

lemma json_total:
  "dateless v \<Longrightarrow> \<exists>t. json_text env indent level v = Inr t"
  "list_all dateless vs \<Longrightarrow> \<exists>ts. json_items env indent level vs = Inr ts"
  "list_all (\<lambda>(k, v). dateless v) d \<Longrightarrow> \<exists>ts. json_members env indent level d = Inr ts"
  by (induction env indent level v and env indent level vs and env indent level d
      rule: json_text_json_items_json_members.induct) auto

lemma json_dumps_total: "dateless v \<Longrightarrow> \<exists>t. json_dumps env indent v = Inr t"
  by (simp add: json_dumps_def json_total(1))

lemma dateless_str_list [simp]: "dateless (str_list ws)"
  by (simp add: str_list_def list_all_iff)

lemma dateless_schema: "dateless (PDict schema_descriptor)"
  by (simp add: schema_descriptor_def)

lemma schema_snapshot: "\<exists>h. build_ipc_schema_snapshot env = Inr (schema_descriptor @ [(''schema_hash_sha256'', PStr h)]) \<and> length h = 64"
proof -
  obtain t where "json_dumps env None (PDict schema_descriptor) = Inr t" using json_dumps_total [OF dateless_schema] by blast
  moreover obtain raw where "utf8_encode (of_text t) = Inr raw" using of_text_scalar utf8_encode_ok by blast
  moreover have "dict_set schema_descriptor ''schema_hash_sha256'' v = schema_descriptor @ [(''schema_hash_sha256'', v)]" for v
    by (simp add: schema_descriptor_def)
  ultimately show ?thesis by (simp add: build_ipc_schema_snapshot_def)
qed

text \<open>What an exported schema means: the named types, and when a value conforms.\<close>

definition has_type :: "pyval \<Rightarrow> pyval \<Rightarrow> bool" where
  "has_type t v = (case v of
     PInt _ \<Rightarrow> t = PStr ''integer_ms''
   | PStr c \<Rightarrow> t = PStr ''non_empty_string'' \<and> strip c \<noteq> []
   | PDict _ \<Rightarrow> t = PStr ''object''
   | _ \<Rightarrow> False)"

definition members :: "pyval \<Rightarrow> pyval list" where
  "members v = (case v of PList vs \<Rightarrow> vs | _ \<Rightarrow> [])"

definition fields :: "pyval \<Rightarrow> pydict" where
  "fields v = (case v of PDict d \<Rightarrow> d | _ \<Rightarrow> [])"

definition conforms :: "pydict \<Rightarrow> nat \<Rightarrow> pydict \<Rightarrow> bool" where
  "conforms schema n d \<longleftrightarrow>
     (let env = fields (dict_get schema ''envelope'') in
      int n \<le> int_of (dict_get schema ''max_message_bytes'')
      \<and> list_all (\<lambda>f. case f of PStr k \<Rightarrow> dict_has d k | _ \<Rightarrow> False) (members (dict_get env ''required_fields''))
      \<and> dict_get d ''message_type'' \<in> set (members (dict_get schema ''message_types''))
      \<and> has_type (dict_get env ''timestamp_type'') (dict_get d ''timestamp'')
      \<and> has_type (dict_get env ''correlation_id_type'') (dict_get d ''correlation_id'')
      \<and> has_type (dict_get env ''payload_type'') (dict_get d ''payload''))"

text \<open>A Boolean timestamp read as the integer it is for Python.\<close>

definition int_timestamp :: "pydict \<Rightarrow> pydict" where
  "int_timestamp d = (case dict_get d ''timestamp'' of PBool b \<Rightarrow> dict_set d ''timestamp'' (PInt (if b then 1 else 0)) | _ \<Rightarrow> d)"

lemma conforms_descriptor:
  "conforms (schema_descriptor @ [(''schema_hash_sha256'', h)]) n d \<longleftrightarrow>
     n \<le> MAX_MESSAGE_BYTES \<and> (\<exists>t\<in>set message_types. dict_get d ''message_type'' = PStr t)
     \<and> (\<exists>i. dict_get d ''timestamp'' = PInt i) \<and> (\<exists>c. dict_get d ''correlation_id'' = PStr c \<and> strip c \<noteq> [])
     \<and> is_dict (dict_get d ''payload'')"
proof -
  have has: "dict_get d k = v \<Longrightarrow> v \<noteq> PNone \<Longrightarrow> dict_has d k" for k v
    using dict_get_of_has by blast
  have types: "has_type (PStr ''integer_ms'') v \<longleftrightarrow> (\<exists>i. v = PInt i)"
    "has_type (PStr ''non_empty_string'') v \<longleftrightarrow> (\<exists>c. v = PStr c \<and> strip c \<noteq> [])"
    "has_type (PStr ''object'') v \<longleftrightarrow> is_dict v" for v
    by (cases v; simp add: has_type_def)+
  have keys: "dict_get (schema_descriptor @ [(''schema_hash_sha256'', h)]) ''max_message_bytes'' = PInt (int MAX_MESSAGE_BYTES)"
    "dict_get (schema_descriptor @ [(''schema_hash_sha256'', h)]) ''message_types'' = str_list message_types"
    "dict_get (schema_descriptor @ [(''schema_hash_sha256'', h)]) ''envelope'' =
       PDict [(''required_fields'', str_list [''message_type'', ''timestamp'', ''correlation_id'', ''payload'']),
         (''timestamp_type'', PStr ''integer_ms''), (''correlation_id_type'', PStr ''non_empty_string''),
         (''payload_type'', PStr ''object'')]"
    by (simp_all add: schema_descriptor_def message_types_def dict_get_def)
  show ?thesis
    unfolding conforms_def keys Let_def fields_def
    by (auto simp: types str_list_def members_def intro!: has)
qed

lemma int_timestamp_get:
  "k \<noteq> ''timestamp'' \<Longrightarrow> dict_get (int_timestamp d) k = dict_get d k"
  "(\<exists>i. dict_get (int_timestamp d) ''timestamp'' = PInt i) \<longleftrightarrow> is_int (dict_get d ''timestamp'')"
  by (cases "dict_get d ''timestamp''"; simp add: int_timestamp_def; simp add: dict_get_def map_of_dict_set)+

lemma known_type: "in_string_set v ss = Inr True \<longleftrightarrow> (\<exists>t\<in>set ss. v = PStr t)"
  by (cases v) auto

lemma correlation_ok: "(case v of PStr c \<Rightarrow> strip c = [] | _ \<Rightarrow> True) \<longleftrightarrow> \<not> (\<exists>c. v = PStr c \<and> strip c \<noteq> [])"
  by (cases v) auto

lemma parse_envelope_accepts:
  assumes "strip line \<noteq> []" and "loads (strip line) = Inr (PDict d)"
  shows "parse_envelope loads n line = Inr (Some e) \<longleftrightarrow>
    utf8_length (strip line) \<le> n \<and> (\<exists>t\<in>set message_types. dict_get d ''message_type'' = PStr t)
    \<and> is_int (dict_get d ''timestamp'') \<and> (\<exists>c. dict_get d ''correlation_id'' = PStr c \<and> strip c \<noteq> [])
    \<and> is_dict (dict_get d ''payload'')
    \<and> e = map (\<lambda>k. (k, dict_get d k)) [''message_type'', ''timestamp'', ''correlation_id'', ''payload'']"
  using assms unfolding known_type [symmetric]
  by (auto simp: parse_envelope_def Let_def result_bind_Inr_iff correlation_ok not_le)

text \<open>
  C15. The schema written for the firmware is the one the bridge enforces: a line that holds a JSON object is accepted
  exactly when the object, read with its size, conforms to the exported schema, with one exception: a Boolean
  timestamp is taken for an integer. What is accepted is the object cut down to the four required fields.
\<close>

theorem exported_schema_is_enforced:
  assumes "build_ipc_schema_snapshot env = Inr schema" and "strip line \<noteq> []" and "loads (strip line) = Inr (PDict d)"
  shows "((\<exists>e. parse_envelope loads MAX_MESSAGE_BYTES line = Inr (Some e)) \<longleftrightarrow>
      conforms schema (utf8_length (strip line)) (int_timestamp d))
    \<and> (\<forall>e. parse_envelope loads MAX_MESSAGE_BYTES line = Inr (Some e) \<longrightarrow>
      e = map (\<lambda>k. (k, dict_get d k)) [''message_type'', ''timestamp'', ''correlation_id'', ''payload''])"
proof -
  obtain h where "schema = schema_descriptor @ [(''schema_hash_sha256'', PStr h)]"
    using schema_snapshot [of env] assms(1) by auto
  then show ?thesis
    by (simp add: conforms_descriptor int_timestamp_get parse_envelope_accepts [of line loads d, OF assms(2,3)])
qed

definition boolean_stamp :: pydict where
  "boolean_stamp = [(''message_type'', PStr ''EVENT''), (''timestamp'', PBool True), (''correlation_id'', PStr ''c''),
     (''payload'', PDict [])]"

theorem exported_schema_is_enforced_witness:
  "\<exists>schema e. build_ipc_schema_snapshot stub_env = Inr schema
    \<and> parse_envelope (\<lambda>_. Inr (PDict boolean_stamp)) MAX_MESSAGE_BYTES ''{}'' = Inr (Some e)
    \<and> conforms schema 2 (int_timestamp boolean_stamp) \<and> \<not> conforms schema 2 boolean_stamp"
proof -
  obtain h where b: "build_ipc_schema_snapshot stub_env = Inr (schema_descriptor @ [(''schema_hash_sha256'', PStr h)])"
    using schema_snapshot by blast
  have s: "strip ''{}'' = ''{}''" "utf8_length ''{}'' = 2" by code_simp+
  have e: "parse_envelope (\<lambda>_. Inr (PDict boolean_stamp)) MAX_MESSAGE_BYTES ''{}'' = Inr (Some boolean_stamp)" by code_simp
  have n: "\<not> conforms (schema_descriptor @ [(''schema_hash_sha256'', PStr h)]) 2 boolean_stamp"
    by (simp add: conforms_descriptor boolean_stamp_def)
  show ?thesis
    using exported_schema_is_enforced [OF b, of "''{}''" "\<lambda>_. Inr (PDict boolean_stamp)" boolean_stamp] e n b s by auto
qed

lemma dateless_dict_set: "list_all (\<lambda>(k, v). dateless v) d \<Longrightarrow> dateless v \<Longrightarrow> list_all (\<lambda>(k, v). dateless v) (dict_set d k v)"
  by (induction d k v rule: dict_set.induct) auto

lemma dateless_thresholds:
  "read_thresholds env source keys d = Inr d' \<Longrightarrow> list_all (\<lambda>(k, v). dateless v) d \<Longrightarrow> list_all (\<lambda>(k, v). dateless v) d'"
proof (induction keys arbitrary: d)
  case (Cons key keys)
  then show ?case
    by (cases "re_find (threshold_pattern key) source") (auto simp: result_bind_Inr_iff dateless_dict_set)
qed simp

lemma dateless_transitions: "list_all (\<lambda>t. dateless (PDict t)) (parse_lifecycle_transitions source)"
  by (auto simp: parse_lifecycle_transitions_def fold_add_new list_all_iff)

lemma dateless_authority:
  assumes "build_authority_snapshot env src = Inr d"
  shows "dateless (PDict d)"
proof -
  from assms obtain th where th: "parse_energy_thresholds env (energy_src src) = Inr th"
    by (auto simp: build_authority_snapshot_def result_bind_Inr_iff)
  have "list_all (\<lambda>(k, v). dateless v) th"
    using th unfolding parse_energy_thresholds_def by (rule dateless_thresholds) simp
  with assms th dateless_transitions [of "lifecycle_src src"] show ?thesis
    by (auto simp: build_authority_snapshot_def result_bind_Inr_iff Let_def list_all_iff)
qed


end
