(* ===== verification/Spec2Isabelle.thy ===== *)
theory Spec2Isabelle
  imports Router_Properties Vector_Memory Connectors Thread_Loops Probes Entry Contract_Properties
begin

text \<open>
  A verification development for APCOS, a local task assistant written in Python beside a Rust
  supervisor. It models the Python program under \<open>src/\<close> and proves what keeps it correct.

  \<^bold>\<open>The program.\<close> Text from a shell, or speech from one of two voice sessions, reaches the interaction
  controller. It resolves the identity, checks the tier's permissions, parses an intent and hands it to
  the command router, which validates it, may challenge it, runs a handler on the task store and writes
  one audit event. The store keeps encrypted rows in a table and changes them only through the
  lifecycle manager and, where configured, through authorities that are asked over the bridge to the
  supervisor. Beside this run a proactive controller, a reasoning engine with a language model that may
  advise but never act, adapters for external events, and a runtime layer that watches processor,
  memory, battery, temperature and microphone and steers the speech models.

  \<^bold>\<open>Theories, in the order of their imports.\<close>
  \<^item> \<open>Apcos_Prelude\<close>: Python values, exceptions, floats with IEEE rounding, strings, dicts, and
    programs that thread a state and may raise. What was changed before a raise stays changed.
  \<^item> \<open>Hashlib\<close>, \<open>Encryption_Layer\<close> (\<open>core/memory/encryption_layer.py\<close>): SHA-256, Base64, UTF-8, the key
    stream; encryption and decryption are inverse.
  \<^item> \<open>Lifecycle_Manager\<close> (\<open>core/memory/lifecycle_manager.py\<close>): the transition matrix, the authorizer
    and the log.
  \<^item> \<open>Rust_Bridge\<close> (\<open>services/ipc/rust_bridge.py\<close>): envelopes, five authority requests and their gates,
    the line loop. Every gate is the abstract fail-closed gate (locale \<open>authority_gate\<close>); a correlation
    id is answered once.
  \<^item> \<open>Task_Store\<close>, \<open>Task_History\<close> (\<open>core/memory/task_store.py\<close>): the table, its invariant, the
    refinement of a map of records, the approvals a write needs, and the legal history of every task.
  \<^item> \<open>Challenge_Logic\<close>, \<open>Command_Router\<close>, \<open>Router_Properties\<close> (\<open>core/cognition/challenge_logic.py\<close>,
    \<open>command_router.py\<close>): every branch of \<open>route\<close>; answers and audit events match, only executed commands
    change tasks, a task and action is challenged once.
  \<^item> \<open>Proactive\<close> (\<open>core/cognition/proactive_controller.py\<close> and the five modules of \<open>core/behavior/\<close> it uses):
    the guardrails over whole runs, the bounds of the calibrated threshold.
  \<^item> \<open>Regular_Expressions\<close>, \<open>Intent_Parser\<close>, \<open>Reasoning_Engine\<close> (\<open>core/cognition/intent_parser.py\<close>,
    \<open>reasoning_engine.py\<close>): a backtracking matcher for the patterns the code uses, with the relation it
    decides; parsed commands; bounded and filtered advice.
  \<^item> \<open>Interaction\<close>, \<open>Interaction_Properties\<close> (\<open>core/identity/\<close>, \<open>core/cognition/explanation_engine.py\<close>,
    \<open>interface/\<close>): identity, access, the input handler and the shell; only the owner changes tasks and
    every input is answered.
  \<^item> \<open>Vector_Memory\<close> (\<open>core/memory/vector_memory.py\<close>, \<open>archival_policy.py\<close>): the gated cache refines a map.
  \<^item> \<open>Resource_Governor\<close> (\<open>core/behavior/\<close> monitors, limiter and governor, \<open>voice/model_manager.py\<close>): the
    thread limiter as a step relation of interleaved callers, and the bounds of the governor.
  \<^item> \<open>Voice\<close>, \<open>Hardware\<close>, \<open>Real_Voice\<close> (\<open>voice/\<close>, \<open>services/hardware/\<close>): bounded buffers (locale
    \<open>bounded_fifo\<close>), both voice sessions with the turns of their threads as steps, and the device layer.
  \<^item> \<open>Connectors\<close> (\<open>core/connectors/mobile_connector.py\<close>, \<open>services/sync_daemon.py\<close>): the locale \<open>ingress\<close>
    follows a forwarded event into the handler of the receiving bridge.
  \<^item> \<open>Thread_Loops\<close> (\<open>start\<close>, \<open>stop\<close> and \<open>_run_loop\<close> of \<open>core/behavior/resource_governor.py\<close>, shared in shape by the
    wake engine and the worker): the background loop as a step relation of its threads; a stopped loop
    ends, and there is one loop unless a \<open>join\<close> timed out.
  \<^item> \<open>Probes\<close> (the default readers and probes beside the monitors, foreign speech models): what the monitors
    make of the answers of \<open>psutil\<close>.
  \<^item> \<open>Stub_Engines\<close> (\<open>voice/asr_engine.py\<close>, \<open>tts_engine.py\<close>, \<open>audio_interface.py\<close>): engines that load once (locale
    \<open>lazy_engine\<close>), equivalent to the stateless fallback model.
  \<^item> \<open>Bootstrap\<close> (\<open>apcos/bootstrap/\<close>), \<open>Entry\<close> (\<open>apcos/__main__.py\<close>, \<open>logging_config.py\<close>): configuration, wiring,
    start-up checks and the entry point with its three modes; nothing runs before the checks have passed.
  \<^item> \<open>Contracts\<close>, \<open>Contract_Properties\<close> (\<open>deployment/contracts/export_contracts.py\<close>): reading the Rust sources with
    regular expressions, JSON output, the exported snapshot and schema; the schema is the one the bridge enforces.
  \<^item> This theory: a shell session from the configuration to the task table, and the exported policy against the
    one in force.

  \<^bold>\<open>Conventions.\<close> A method is a function of its receiver, a record with the attributes of the object; one
  that may raise returns a sum with the exception left. Strings are lists of code points below 256.
  Objects shared by several owners are kept once, in the record of the outermost owner. Clocks, random
  identifiers, sensor readings, JSON and YAML parsers, byte decoding, the language model and the
  transports to the supervisor are arguments, read anew at every place the code reads them. Threads are
  rounds or steps that interleave with the main thread; a wait with a timeout is decided by the state
  at its end.

  \<^bold>\<open>Bounds and termination.\<close> The loops of the code are structural recursions, so every function is total
  and no fuel is used; \<open>words\<close>, \<open>bit_length\<close>, \<open>find_all\<close> and the matcher have termination proofs. Integers of the
  database are checked against 64 bits where SQLite does; bytes and hash words are kept at their width.

  \<^bold>\<open>Not modelled.\<close> The Rust supervisor under \<open>os/\<close>, which is another program: its transports are arguments of the
  bridge, its sources arguments of the contract export. Log messages (the set-up of logging is modelled), the parsing of the command
  line by \<open>argparse\<close>, whose result is an argument, file system errors while the contract files are written, plain getters, and the elapsed
  time in the report of the device manager.
\<close>

section \<open>A shell session from end to end\<close>

text \<open>The input handler of the built application; every command sees clocks, identifiers and a language model of its own.\<close>

definition numbered_input ::
  "(nat \<Rightarrow> py_env) \<Rightarrow> (nat \<Rightarrow> datetime) \<Rightarrow> string list \<Rightarrow> (nat \<Rightarrow> llm_client) \<Rightarrow> string \<Rightarrow> (nat \<times> interaction, string) prog" where
  "numbered_input envs clocks keys llms command s =
     (case apcos_input (envs (fst s)) (clocks (fst s)) keys (llms (fst s)) command (snd s) of (r, ic) \<Rightarrow> (r, Suc (fst s), ic))"

fun goes_on :: "shell_event \<Rightarrow> bool" where
  "goes_on (Line user_input) = (lower (strip user_input) \<notin> {''exit'', ''quit''})"
| "goes_on _ = False"

lemma shell_answers: "length (fst (shell_loop handler events s)) = Suc (length (takeWhile goes_on events))"
proof (induction events arbitrary: s)
  case (Cons e events)
  show ?case
  proof (cases e)
    case (Line user_input)
    obtain r s1 where "handler (strip user_input) s = (r, s1)" by fastforce
    with Cons.IH [of s] Cons.IH [of s1] show ?thesis by (simp add: Line Let_def case_prod_beta)
  qed simp_all
qed simp

lemma shell_is_session: "\<exists>ops. snd (snd (shell_loop (numbered_input envs clocks keys llms) events s)) = fold session_step ops (snd s)"
proof (induction events arbitrary: s)
  case Nil
  show ?case by (intro exI [of _ "[]"]) simp
next
  case (Cons e events)
  have stay: "\<exists>ops. snd s = fold session_step ops (snd s)" by (intro exI [of _ "[]"]) simp
  show ?case
  proof (cases e)
    case (Line user_input)
    let ?c = "strip user_input"
    obtain r ic where run: "apcos_input (envs (fst s)) (clocks (fst s)) keys (llms (fst s)) ?c (snd s) = (r, ic)" by fastforce
    let ?op = "InputOp (envs (fst s)) (clocks (fst s)) keys (llms (fst s)) ?c"
    from Cons.IH [of "(Suc (fst s), ic)"] obtain ops where
      "snd (snd (shell_loop (numbered_input envs clocks keys llms) events (Suc (fst s), ic))) = fold session_step (?op # ops) (snd s)"
      by (auto simp: run)
    then have "\<exists>ops. snd (snd (shell_loop (numbered_input envs clocks keys llms) events (Suc (fst s), ic))) = fold session_step ops (snd s)"
      by blast
    moreover have "numbered_input envs clocks keys llms ?c s = (r, Suc (fst s), ic)" by (simp add: numbered_input_def run)
    ultimately show ?thesis using stay Cons.IH [of s] by (simp add: Line Let_def case_prod_beta del: fold_simps)
  qed (use stay in simp_all)
qed

lemma built_session_inv: "build_app env config file = Inr ic \<Longrightarrow> session_inv ic"
proof -
  assume "build_app env config file = Inr ic"
  then obtain cfg doc where "app_container env cfg doc = Inr ic" by (auto simp: build_app_def result_bind_Inr_iff)
  then show ?thesis by (rule app_container_parts) (rule init_session)
qed

text \<open>
  C6. A whole session at the shell, from the configuration to the table: whatever is typed at an application
  that was built from a configuration, every line is answered once, between the greeting and the farewell;
  afterwards the task table is well formed, every task is CREATED or ARCHIVED, and its transition log is a chain of
  legal steps that ends in the state the table shows.
\<close>

theorem shell_session_is_sound:
  assumes "build_app env config file = Inr ic"
    and "run_shell (numbered_input envs clocks keys llms) events (0, ic) = (out, n, ic')"
  shows "length out = 2 + length (takeWhile goes_on events)
    \<and> wf_store (rt_task_store (ic_router ic'))
    \<and> (\<forall>i t. abs_tasks (rt_task_store (ic_router ic')) i = Some t \<longrightarrow>
         successively legacy_allowed (states_of (rt_task_store (ic_router ic')) i)
         \<and> last (states_of (rt_task_store (ic_router ic')) i) = task_status t \<and> task_status t \<in> {CREATED, ARCHIVED})"
proof -
  obtain out1 where loop: "shell_loop (numbered_input envs clocks keys llms) events (0, ic) = (out1, n, ic')" "length out = Suc (length out1)"
    using assms(2) by (auto simp: run_shell_def Let_def split: prod.splits)
  have len: "length out1 = Suc (length (takeWhile goes_on events))"
    using shell_answers [of "numbered_input envs clocks keys llms" events "(0, ic)"] loop(1) by simp
  obtain ops where "ic' = fold session_step ops ic"
    using shell_is_session [of envs clocks keys llms events "(0, ic)"] loop(1) by auto
  then have "session_inv ic'" using session_run.run_inv [OF built_session_inv [OF assms(1)]] by simp
  then have "legacy_inv (rt_task_store (ic_router ic'))" "never_active (rt_task_store (ic_router ic'))"
    by (simp_all add: session_inv_def router_legacy_def)
  then show ?thesis using len loop(2) by (auto simp: legacy_inv_def hist_ok_def never_active_def)
qed

theorem shell_session_is_sound_witness:
  "\<exists>ic out n ic'. build_app stub_env (Some (merge_defaults (sample_document 2))) (Document (PDict (sample_document 2))) = Inr ic
    \<and> run_shell (numbered_input (\<lambda>_. stub_env) (\<lambda>_. DateTime 0 None) reasoning_keys (\<lambda>_. stub_llm))
         [Line ''login guest'', Line ''schedule milk'', Line ''exit''] (0, ic) = (out, n, ic')
    \<and> length out = 4 \<and> wf_store (rt_task_store (ic_router ic'))"
proof -
  obtain ic where ic: "build_app stub_env (Some (merge_defaults (sample_document 2))) (Document (PDict (sample_document 2))) = Inr ic"
    using sample_builds by blast
  obtain out n ic' where run: "run_shell (numbered_input (\<lambda>_. stub_env) (\<lambda>_. DateTime 0 None) reasoning_keys (\<lambda>_. stub_llm))
      [Line ''login guest'', Line ''schedule milk'', Line ''exit''] (0, ic) = (out, n, ic')" by (metis prod_cases3)
  have "takeWhile goes_on [Line ''login guest'', Line ''schedule milk'', Line ''exit''] = [Line ''login guest'', Line ''schedule milk'']"
    by code_simp
  with shell_session_is_sound [OF ic run] ic run show ?thesis by auto
qed

section \<open>The exported policy and the policy in force\<close>

text \<open>The match arms of \<open>is_allowed\<close> in \<open>os/src/identity/tier_policy.rs\<close>, which the export reads.\<close>

definition quoted :: "string \<Rightarrow> string" where
  "quoted w = [double_quote] @ w @ [double_quote]"

definition tier_policy_rs :: string where
  "tier_policy_rs =
     ''        Tier::Owner => matches!('' @ [line_feed] @ ''            action_name.as_str(),'' @ [line_feed] @
     ''            '' @ quoted ''CREATE_TASK'' @ '' | '' @ quoted ''COMPLETE_TASK'' @ '' | '' @ quoted ''CANCEL_TASK'' @ '' | '' @
     quoted ''STRATEGY'' @ [line_feed] @ ''        ),'' @ [line_feed] @
     ''        Tier::Family => matches!('' @ [line_feed] @ ''            action_name.as_str(),'' @ [line_feed] @
     ''            '' @ quoted ''CREATE_TASK'' @ '' | '' @ quoted ''COMPLETE_TASK'' @ '' | '' @ quoted ''STRATEGY'' @ [line_feed] @
     ''        ),'' @ [line_feed] @ ''        Tier::Guest => false,'' @ [line_feed]"


end
